(* ===== verification/JS_Strings.thy ===== *)
theory JS_Strings
  imports Main "HOL-Library.Sublist" "HOL-Library.Multiset" "HOL-Library.Code_Target_Nat"
begin

text \<open>
  The prelude of the development: the JavaScript strings and arrays that the
  components compute with.  A string is the list of its UTF-16 code units, each
  a natural number, so that \<open>length\<close>, indexing and \<open>charCodeAt\<close> count what the
  language counts; a literal of the source is written \<open>js ''...''\<close>.  The
  functions below model the methods of \<open>String.prototype\<close> and \<open>Array.prototype\<close>
  (and \<open>Array.from(new Set(...))\<close>) that the modelled sources call.  The lemmas
  are shared by every component; the collection \<open>js_simps\<close> unfolds literals.
\<close>

named_theorems js_simps

type_synonym jstring = "nat list"

definition js :: "string \<Rightarrow> jstring" where
  "js s = map of_char s"

lemma js_Nil [simp, js_simps]: "js [] = []"
  by (simp add: js_def)

lemma js_Cons [js_simps]: "js (c # s) = of_char c # js s"
  by (simp add: js_def)

lemma js_append: "js (s @ t) = js s @ js t"
  by (simp add: js_def)

lemma length_js [simp]: "length (js s) = length s"
  by (simp add: js_def)

lemma js_eq_Nil [simp]: "js s = [] \<longleftrightarrow> s = []"
  by (simp add: js_def)

lemma js_inject [simp]: "js s = js t \<longleftrightarrow> s = t"
  by (simp add: js_def inj_map_eq_map inj_def)

subsection \<open>Truthiness and optional values\<close>

text \<open>
  \<open>truthy_opt\<close> is the test \<open>if (s)\<close> on a value of type \<open>string | undefined\<close>; \<open>or_str\<close>
  is \<open>s || t\<close> on strings; \<open>opt_str\<close> is \<open>s || ''\<close> on an optional string.
\<close>

definition truthy_opt :: "jstring option \<Rightarrow> bool" where
  "truthy_opt s = (case s of None \<Rightarrow> False | Some t \<Rightarrow> t \<noteq> [])"

definition or_str :: "jstring \<Rightarrow> jstring \<Rightarrow> jstring" where
  "or_str s t = (if s = [] then t else s)"

definition opt_str :: "jstring option \<Rightarrow> jstring" where
  "opt_str s = (case s of None \<Rightarrow> [] | Some t \<Rightarrow> t)"

lemma truthy_opt_simps [simp]:
  "truthy_opt None = False"
  "truthy_opt (Some t) = (t \<noteq> [])"
  by (simp_all add: truthy_opt_def)

lemma or_str_simps [simp]:
  "or_str [] t = t"
  "or_str (x # s) t = x # s"
  "or_str s [] = s"
  by (simp_all add: or_str_def)

lemma opt_str_simps [simp]:
  "opt_str None = []"
  "opt_str (Some t) = t"
  by (simp_all add: opt_str_def)

subsection \<open>White space and trimming\<close>

text \<open>
  The code units that \<open>String.prototype.trim\<close> strips and that \<open>\s\<close> matches: the
  white space and line terminator productions of the language (tab, line feed,
  vertical tab, form feed, carriage return, space, no-break space, the byte order
  mark, the line and paragraph separators and the category Zs).
\<close>

definition is_ws :: "nat \<Rightarrow> bool" where
  "is_ws c \<longleftrightarrow> (9 \<le> c \<and> c \<le> 13) \<or> c = 32 \<or> c = 160 \<or> c = 5760 \<or>
     (8192 \<le> c \<and> c \<le> 8202) \<or> c = 8232 \<or> c = 8233 \<or> c = 8239 \<or> c = 8287 \<or>
     c = 12288 \<or> c = 65279"

definition trim :: "jstring \<Rightarrow> jstring" where
  "trim s = rev (dropWhile is_ws (rev (dropWhile is_ws s)))"

definition trimmed :: "jstring \<Rightarrow> bool" where
  "trimmed s \<longleftrightarrow> s = [] \<or> (\<not> is_ws (hd s) \<and> \<not> is_ws (last s))"

lemma trim_Nil [simp]: "trim [] = []"
  by (simp add: trim_def)

lemma dropWhile_last:
  "xs \<noteq> [] \<Longrightarrow> \<not> P (last xs) \<Longrightarrow> dropWhile P xs \<noteq> [] \<and> last (dropWhile P xs) = last xs"
  by (induction xs) (auto split: if_splits)

lemma hd_dropWhile_ws: "dropWhile P s \<noteq> [] \<Longrightarrow> \<not> P (hd (dropWhile P s))"
  by (rule hd_dropWhile)

lemma trimmed_trim [simp]: "trimmed (trim s)"
proof (cases "trim s = []")
  case False
  let ?a = "dropWhile is_ws s"
  let ?b = "dropWhile is_ws (rev ?a)"
  have b: "?b \<noteq> []"
    using False by (simp add: trim_def)
  then have a: "?a \<noteq> []"
    by (metis dropWhile.simps(1) rev.simps(1))
  have hb: "\<not> is_ws (hd ?b)" and ha: "\<not> is_ws (hd ?a)"
    using a b by (simp_all add: hd_dropWhile_ws)
  have "last ?b = hd ?a"
    using a ha dropWhile_last [of "rev ?a" is_ws] by (simp add: last_rev)
  then show ?thesis
    using a b ha hb by (simp add: trimmed_def trim_def hd_rev last_rev)
qed (simp add: trimmed_def)

lemma dropWhile_hd: "s \<noteq> [] \<Longrightarrow> \<not> P (hd s) \<Longrightarrow> dropWhile P s = s"
  by (cases s) simp_all

lemma trim_trimmed: "trimmed s \<Longrightarrow> trim s = s"
  by (cases "s = []") (simp_all add: trimmed_def trim_def dropWhile_hd hd_rev)

lemma trim_idem [simp]: "trim (trim s) = trim s"
  by (simp add: trim_trimmed)

lemma trim_eq_iff: "trim s = s \<longleftrightarrow> trimmed s"
  by (metis trim_trimmed trimmed_trim)

lemma trim_no_ws: "\<forall>c \<in> set s. \<not> is_ws c \<Longrightarrow> trim s = s"
  by (rule trim_trimmed) (cases "s = []"; simp add: trimmed_def)

lemma trim_eq_Nil: "trim s = [] \<longleftrightarrow> (\<forall>c \<in> set s. is_ws c)"
proof
  assume e: "trim s = []"
  have "dropWhile is_ws s = []"
  proof (rule ccontr)
    assume n: "dropWhile is_ws s \<noteq> []"
    then have "\<not> is_ws (hd (dropWhile is_ws s))"
      by (rule hd_dropWhile_ws)
    then show False
      using e n hd_in_set [OF n] by (auto simp: trim_def)
  qed
  then show "\<forall>c \<in> set s. is_ws c"
    by simp
next
  assume "\<forall>c \<in> set s. is_ws c"
  then have "dropWhile is_ws s = []"
    by simp
  then show "trim s = []"
    by (simp only: trim_def dropWhile.simps rev.simps)
qed

lemma set_trim: "set (trim s) \<subseteq> set s"
  by (metis trim_def set_dropWhileD set_rev subsetI)

lemma trim_ws_left: "\<forall>c \<in> set w. is_ws c \<Longrightarrow> trim (w @ s) = trim s"
  by (simp add: trim_def)

lemma dropWhile_all_append: "\<forall>c \<in> set w. P c \<Longrightarrow> dropWhile P (w @ s) = dropWhile P s"
  by (induction w) auto

lemma trim_ws_right: "\<forall>c \<in> set w. is_ws c \<Longrightarrow> trim (s @ w) = trim s"
proof (cases "\<forall>c \<in> set s. is_ws c")
  case True
  moreover assume "\<forall>c \<in> set w. is_ws c"
  ultimately show ?thesis
    by (metis Un_iff set_append trim_eq_Nil)
next
  case False
  assume w: "\<forall>c \<in> set w. is_ws c"
  from False obtain c where "c \<in> set s" "\<not> is_ws c" by blast
  then have "dropWhile is_ws (s @ w) = dropWhile is_ws s @ w"
    by (rule dropWhile_append1)
  then show ?thesis
    using w by (simp add: trim_def dropWhile_all_append)
qed

subsection \<open>Searching\<close>

text \<open>
  \<open>index_of p s\<close> is \<open>s.indexOf(p)\<close> with \<open>None\<close> for \<open>-1\<close>; \<open>index_from p s i\<close> is
  \<open>s.indexOf(p, i)\<close>; \<open>str_includes s p\<close> is \<open>s.includes(p)\<close>; \<open>starts_with\<close> and
  \<open>ends_with\<close> are the methods of the same name.
\<close>

fun index_of :: "jstring \<Rightarrow> jstring \<Rightarrow> nat option" where
  "index_of p [] = (if p = [] then Some 0 else None)"
| "index_of p (x # xs) =
     (if prefix p (x # xs) then Some 0 else map_option Suc (index_of p xs))"

definition index_from :: "jstring \<Rightarrow> jstring \<Rightarrow> nat \<Rightarrow> nat option" where
  "index_from p s i = map_option (\<lambda>k. i + k) (index_of p (drop i s))"

definition str_includes :: "jstring \<Rightarrow> jstring \<Rightarrow> bool" where
  "str_includes s p = (index_of p s \<noteq> None)"

definition starts_with :: "jstring \<Rightarrow> jstring \<Rightarrow> bool" where
  "starts_with s p = (take (length p) s = p)"

definition ends_with :: "jstring \<Rightarrow> jstring \<Rightarrow> bool" where
  "ends_with s p = (length p \<le> length s \<and> drop (length s - length p) s = p)"

lemma starts_with_prefix: "starts_with s p \<longleftrightarrow> prefix p s"
  by (metis append_eq_conv_conj append_take_drop_id prefix_def starts_with_def)

lemma index_of_Some:
  "index_of p s = Some i \<Longrightarrow> s = take i s @ p @ drop (i + length p) s"
proof (induction s arbitrary: i)
  case (Cons x xs)
  show ?case
  proof (cases "prefix p (x # xs)")
    case True
    then obtain t where t: "x # xs = p @ t" by (auto simp: prefix_def)
    from Cons.prems True have "i = 0" by simp
    with t show ?thesis by simp
  next
    case False
    with Cons.prems obtain j where "index_of p xs = Some j" "i = Suc j" by auto
    with Cons.IH show ?thesis by simp
  qed
qed (auto split: if_splits)

lemma index_of_Some_le: "index_of p s = Some i \<Longrightarrow> i + length p \<le> length s"
proof (induction s arbitrary: i)
  case (Cons x xs)
  then show ?case
    by (auto split: if_splits dest: prefix_length_le)
qed (auto split: if_splits)

lemma index_of_None: "index_of p s = None \<longleftrightarrow> \<not> (\<exists>u v. s = u @ p @ v)"
proof (induction s)
  case (Cons x xs)
  have "(\<exists>u v. x # xs = u @ p @ v) \<longleftrightarrow> prefix p (x # xs) \<or> (\<exists>u v. xs = u @ p @ v)"
    by (auto simp: Cons_eq_append_conv prefix_def)
  with Cons show ?case by auto
qed auto

lemma index_of_minimal: "index_of p s = Some i \<Longrightarrow> j < i \<Longrightarrow> \<not> prefix p (drop j s)"
proof (induction s arbitrary: i j)
  case (Cons x xs)
  then show ?case
    by (cases j) (auto split: if_splits)
qed (auto split: if_splits)

lemma str_includes_iff: "str_includes s p \<longleftrightarrow> (\<exists>u v. s = u @ p @ v)"
  by (auto simp: str_includes_def index_of_None)

lemma index_of_first:
  assumes "\<And>j. j < length u \<Longrightarrow> \<not> prefix p (drop j (u @ p @ v))"
  shows "index_of p (u @ p @ v) = Some (length u)"
  using assms
proof (induction u)
  case Nil
  have "prefix p (p @ v)" by simp
  then show ?case by (cases "p @ v") (auto simp del: prefix_Cons)
next
  case (Cons a u)
  have "\<not> prefix p (a # u @ p @ v)"
    using Cons.prems [of 0] by simp
  moreover have "index_of p (u @ p @ v) = Some (length u)"
    using Cons.prems [of "Suc j" for j] by (intro Cons.IH) auto
  ultimately show ?case by simp
qed

lemma index_of_unbordered:
  assumes "p = c # q" and "c \<notin> set q" and "\<not> str_includes t p"
  shows "index_of p (t @ p @ v) = Some (length t)"
proof (rule index_of_first)
  fix j assume j: "j < length t"
  show "\<not> prefix p (drop j (t @ p @ v))"
  proof
    assume a: "prefix p (drop j (t @ p @ v))"
    then obtain w where w: "drop j (t @ p @ v) = p @ w" by (auto simp: prefix_def)
    show False
    proof (cases "j + length p \<le> length t")
      case True
      have "take (length p) (drop j (t @ p @ v)) = p" unfolding w by simp
      then have "take (length p) (drop j t) = p" using True by simp
      then have "t = take j t @ p @ drop (length p) (drop j t)"
        by (metis append_take_drop_id)
      then show False using assms(3) by (auto simp: str_includes_iff)
    next
      case False
      let ?k = "length t - j"
      have k: "0 < ?k" "?k < length p" using j False by auto
      have "(p @ w) ! ?k = drop j (t @ p @ v) ! ?k" by (simp only: w)
      also have "\<dots> = p ! 0" using j assms(1) by (simp add: nth_append)
      finally have "(p @ w) ! ?k = c" using assms(1) by simp
      then have "p ! ?k = c" using k(2) by (simp only: nth_append if_True)
      then have "q ! (?k - 1) = c" "?k - 1 < length q" using k assms(1) by (simp_all add: nth_Cons')
      then show False using assms(2) nth_mem by metis
    qed
  qed
qed

lemma index_of_take_free:
  assumes "index_of p s = Some i" and "p \<noteq> []"
  shows "\<not> str_includes (take i s) p"
proof
  assume "str_includes (take i s) p"
  then obtain u v where uv: "take i s = u @ p @ v" by (auto simp: str_includes_iff)
  then have "s = u @ p @ v @ drop i s" by (metis append.assoc append_take_drop_id)
  then have "prefix p (drop (length u) s)" by (metis append_eq_conv_conj prefixI)
  moreover have "length (take i s) \<le> i" by simp
  then have "length u < i" using uv assms(2) by (simp add: Suc_le_eq flip: length_greater_0_conv)
  ultimately show False using index_of_minimal [OF assms(1)] by blast
qed

lemma index_None: "\<not> str_includes t p \<Longrightarrow> index_of p t = None"
  by (simp add: str_includes_def)

subsection \<open>Splitting and joining\<close>

text \<open>
  \<open>split_chr c s\<close> is \<open>s.split(c)\<close> for a separator of one code unit, \<open>join sep xs\<close> is
  \<open>xs.join(sep)\<close> and \<open>nonempty\<close> the callback of \<open>filter(Boolean)\<close> on strings.
\<close>

fun split_chr :: "nat \<Rightarrow> jstring \<Rightarrow> jstring list" where
  "split_chr c [] = [[]]"
| "split_chr c (x # xs) =
     (if x = c then [] # split_chr c xs
      else (case split_chr c xs of [] \<Rightarrow> [[x]] | y # ys \<Rightarrow> (x # y) # ys))"

fun join :: "jstring \<Rightarrow> jstring list \<Rightarrow> jstring" where
  "join sep [] = []"
| "join sep [x] = x"
| "join sep (x # y # zs) = x @ sep @ join sep (y # zs)"

abbreviation nonempty :: "jstring \<Rightarrow> bool" where
  "nonempty s \<equiv> s \<noteq> []"

lemma split_chr_not_Nil [simp]: "split_chr c s \<noteq> []"
  by (induction s) (auto split: list.splits)

lemma join_Cons: "xs \<noteq> [] \<Longrightarrow> join sep (x # xs) = x @ sep @ join sep xs"
  by (cases xs) auto

lemma join_split_chr [simp]: "join [c] (split_chr c s) = s"
  by (induction s) (auto simp: join_Cons split: list.splits dest: arg_cong [of _ "[]" "\<lambda>x. x = []"] elim: join.elims)

lemma split_chr_append:
  "c \<notin> set s \<Longrightarrow> split_chr c (s @ c # t) = s # split_chr c t"
  by (induction s) (auto split: list.splits)

lemma split_chr_free: "c \<notin> set s \<Longrightarrow> split_chr c s = [s]"
  by (induction s) (auto split: list.splits)

lemma split_chr_free_iff: "split_chr c s = [s] \<longleftrightarrow> c \<notin> set s"
  by (induction s) (auto split: list.splits)

lemma split_chr_join:
  "xs \<noteq> [] \<Longrightarrow> \<forall>x \<in> set xs. c \<notin> set x \<Longrightarrow> split_chr c (join [c] xs) = xs"
  by (induction "[c]" xs rule: join.induct) (auto simp: split_chr_append split_chr_free)

lemma split_chr_parts: "x \<in> set (split_chr c s) \<Longrightarrow> c \<notin> set x"
  by (induction s arbitrary: x) (auto split: list.splits if_splits)

lemma join_eq_Nil: "sep \<noteq> [] \<Longrightarrow> join sep xs = [] \<longleftrightarrow> xs = [] \<or> xs = [[]]"
  by (induction sep xs rule: join.induct) auto

lemma first_sep:
  "us @ c # xs = vs @ c # ys \<Longrightarrow> c \<notin> set us \<Longrightarrow> c \<notin> set vs \<Longrightarrow> us = vs \<and> xs = ys"
proof (induction us arbitrary: vs)
  case (Cons u us)
  then show ?case by (cases vs) auto
next
  case Nil
  then show ?case by (cases vs) auto
qed

lemma last_sep:
  assumes "xs @ c # us = ys @ c # vs" and "c \<notin> set us" and "c \<notin> set vs"
  shows "xs = ys \<and> us = vs"
proof -
  have "rev us @ c # rev xs = rev vs @ c # rev ys"
    using arg_cong [OF assms(1), of rev] by simp
  then show ?thesis
    using first_sep [of "rev us" c "rev xs" "rev vs" "rev ys"] assms(2,3) by simp
qed

lemma join_empty_sep: "join [] xs = concat xs"
  by (induction "[] :: jstring" xs rule: join.induct) simp_all

lemma filter_count_update:
  "i < length xs \<Longrightarrow> P (xs ! i) \<Longrightarrow> \<not> P y \<Longrightarrow> length (filter P (xs[i := y])) = length (filter P xs) - 1"
  by (subst (2) id_take_nth_drop [of i xs]) (simp_all add: upd_conv_take_nth_drop)

subsection \<open>Insertion-ordered sets\<close>

text \<open>
  A \<open>Set\<close> iterates its members in insertion order, and adding a member that is
  present changes nothing.  The locale states that contract; its lemmas are what
  the code relies on when it writes \<open>Array.from(new Set(xs))\<close>.
\<close>

locale insertion_set =
  fixes new_set :: 's
    and add :: "'s \<Rightarrow> 'a \<Rightarrow> 's"
    and has :: "'s \<Rightarrow> 'a \<Rightarrow> bool"
    and elems :: "'s \<Rightarrow> 'a list"
  assumes elems_new: "elems new_set = []"
    and has_elems: "has s x \<longleftrightarrow> x \<in> set (elems s)"
    and elems_add: "elems (add s x) = (if has s x then elems s else elems s @ [x])"
begin

lemma foldl_set: "set (elems (foldl add s xs)) = set (elems s) \<union> set xs"
  by (induction xs arbitrary: s) (auto simp: elems_add has_elems)

lemma foldl_distinct: "distinct (elems s) \<Longrightarrow> distinct (elems (foldl add s xs))"
  by (induction xs arbitrary: s) (auto simp: elems_add has_elems)

lemma foldl_fresh:
  "distinct xs \<Longrightarrow> set (elems s) \<inter> set xs = {} \<Longrightarrow> elems (foldl add s xs) = elems s @ xs"
  by (induction xs arbitrary: s) (auto simp: elems_add has_elems)

lemma foldl_present: "set xs \<subseteq> set (elems s) \<Longrightarrow> elems (foldl add s xs) = elems s"
  by (induction xs arbitrary: s) (auto simp: elems_add has_elems)

lemma from_set: "set (elems (foldl add new_set xs)) = set xs"
  by (simp add: foldl_set elems_new)

lemma from_distinct: "distinct (elems (foldl add new_set xs))"
  by (simp add: foldl_distinct elems_new)

lemma from_id: "distinct xs \<Longrightarrow> elems (foldl add new_set xs) = xs"
  by (simp add: foldl_fresh elems_new)

lemma from_has: "has (foldl add new_set xs) x \<longleftrightarrow> x \<in> set xs"
  by (simp add: has_elems from_set)

end

definition set_add :: "'a list \<Rightarrow> 'a \<Rightarrow> 'a list" where
  "set_add s x = (if x \<in> set s then s else s @ [x])"

definition array_from_set :: "'a list \<Rightarrow> 'a list" where
  "array_from_set xs = foldl set_add [] xs"

interpretation jset: insertion_set "[]" set_add "\<lambda>s x. x \<in> set s" "\<lambda>s. s"
  by unfold_locales (simp_all add: set_add_def)

lemma set_array_from_set [simp]: "set (array_from_set xs) = set xs"
  by (simp add: array_from_set_def jset.from_set)

lemma distinct_array_from_set [simp]: "distinct (array_from_set xs)"
  by (simp add: array_from_set_def jset.from_distinct)

lemma array_from_set_distinct: "distinct xs \<Longrightarrow> array_from_set xs = xs"
  by (simp add: array_from_set_def jset.from_id)

lemma array_from_set_idem [simp]: "array_from_set (array_from_set xs) = array_from_set xs"
  by (simp add: array_from_set_distinct)

lemma array_from_set_eq_Nil [simp]: "array_from_set xs = [] \<longleftrightarrow> xs = []"
  by (metis set_array_from_set set_empty)

lemma array_from_set_Nil [simp]: "array_from_set [] = []"
  by simp

subsection \<open>Sorting\<close>

text \<open>
  \<open>sort_by le xs\<close> is \<open>xs.sort(cmp)\<close> for a comparator with \<open>cmp(a, b) <= 0\<close> exactly
  when \<open>le a b\<close>: \<open>Array.prototype.sort\<close> is stable, and so is insertion.
\<close>

fun insert_by :: "('a \<Rightarrow> 'a \<Rightarrow> bool) \<Rightarrow> 'a \<Rightarrow> 'a list \<Rightarrow> 'a list" where
  "insert_by le x [] = [x]"
| "insert_by le x (y # ys) = (if le x y then x # y # ys else y # insert_by le x ys)"

definition sort_by :: "('a \<Rightarrow> 'a \<Rightarrow> bool) \<Rightarrow> 'a list \<Rightarrow> 'a list" where
  "sort_by le xs = foldr (insert_by le) xs []"

lemma mset_insert_by [simp]: "mset (insert_by le x ys) = add_mset x (mset ys)"
  by (induction ys) auto

lemma mset_sort_by [simp]: "mset (sort_by le xs) = mset xs"
  by (induction xs) (simp_all add: sort_by_def)

lemma set_sort_by [simp]: "set (sort_by le xs) = set xs"
  by (metis mset_sort_by set_mset_mset)

lemma length_sort_by [simp]: "length (sort_by le xs) = length xs"
  by (metis mset_sort_by size_mset)

lemma set_insert_by [simp]: "set (insert_by le x ys) = insert x (set ys)"
  by (induction ys) auto

lemma sorted_insert_by:
  assumes "\<And>a b. le a b \<or> le b a" and "\<And>a b c. le a b \<Longrightarrow> le b c \<Longrightarrow> le a c"
  shows "sorted_wrt le ys \<Longrightarrow> sorted_wrt le (insert_by le x ys)"
  by (induction ys) (use assms in \<open>auto\<close>)

lemma sorted_sort_by:
  assumes "\<And>a b. le a b \<or> le b a" and "\<And>a b c. le a b \<Longrightarrow> le b c \<Longrightarrow> le a c"
  shows "sorted_wrt le (sort_by le xs)"
  by (induction xs) (simp_all add: sort_by_def sorted_insert_by [OF assms])

lemma insert_by_hd: "\<forall>y \<in> set ys. le x y \<Longrightarrow> insert_by le x ys = x # ys"
  by (cases ys) auto

lemma sort_by_sorted: "sorted_wrt le xs \<Longrightarrow> sort_by le xs = xs"
  by (induction xs) (auto simp: sort_by_def insert_by_hd)

lemma insert_by_filter:
  assumes "\<And>a b c. le a b \<Longrightarrow> le b c \<Longrightarrow> le a c"
  shows "sorted_wrt le ys \<Longrightarrow>
     filter P (insert_by le x ys) = (if P x then insert_by le x (filter P ys) else filter P ys)"
proof (induction ys)
  case (Cons y ys)
  have "insert_by le x (filter P ys) = x # filter P ys" if "le x y"
    using Cons.prems that assms by (intro insert_by_hd) auto
  then show ?case using Cons by auto
qed simp

lemma sort_by_filter:
  assumes "\<And>a b. le a b \<or> le b a" and "\<And>a b c. le a b \<Longrightarrow> le b c \<Longrightarrow> le a c"
  shows "filter P (sort_by le xs) = sort_by le (filter P xs)"
proof (induction xs)
  case (Cons x xs)
  have "sorted_wrt le (foldr (insert_by le) xs [])"
    using sorted_sort_by [of le xs] assms by (simp add: sort_by_def)
  then show ?case
    using Cons insert_by_filter [of le "foldr (insert_by le) xs []" P x] assms by (auto simp: sort_by_def)
qed (simp add: sort_by_def)

subsection \<open>Decimal numerals\<close>

text \<open>
  \<open>nat_str n\<close> is the decimal numeral that a template literal prints for a
  non-negative integer, \<open>digits_val\<close> reads a string of decimal digits.
\<close>

definition is_digit :: "nat \<Rightarrow> bool" where
  "is_digit c \<longleftrightarrow> 48 \<le> c \<and> c \<le> 57"

fun nat_str :: "nat \<Rightarrow> jstring" where
  "nat_str n = (if n < 10 then [48 + n] else nat_str (n div 10) @ [48 + n mod 10])"

declare nat_str.simps [simp del]

definition digits_val :: "jstring \<Rightarrow> nat" where
  "digits_val s = foldl (\<lambda>a c. 10 * a + (c - 48)) 0 s"

lemma nat_str_not_Nil [simp]: "nat_str n \<noteq> []"
  by (subst nat_str.simps) simp

lemma nat_str_digits: "\<forall>c \<in> set (nat_str n). is_digit c"
proof (induction n rule: nat_str.induct)
  case (1 n)
  show ?case
  proof (cases "n < 10")
    case True
    then show ?thesis by (simp add: nat_str.simps [of n] is_digit_def)
  next
    case False
    have "n mod 10 < 10" by simp
    then have "is_digit (48 + n mod 10)" by (simp add: is_digit_def)
    with False "1.IH" show ?thesis by (simp add: nat_str.simps [of n])
  qed
qed

lemma digits_val_snoc [simp]: "digits_val (s @ [c]) = 10 * digits_val s + (c - 48)"
  by (simp add: digits_val_def)

lemma digits_val_nat_str [simp]: "digits_val (nat_str n) = n"
proof (induction n rule: nat_str.induct)
  case (1 n)
  show ?case
  proof (cases "n < 10")
    case True
    then show ?thesis by (simp add: nat_str.simps [of n] digits_val_def)
  next
    case False
    with "1.IH" show ?thesis
      by (simp add: nat_str.simps [of n])
  qed
qed

lemma nat_str_inject [simp]: "nat_str m = nat_str n \<longleftrightarrow> m = n"
  by (metis digits_val_nat_str)

lemma digit_not_ws: "is_digit c \<Longrightarrow> \<not> is_ws c"
  by (auto simp: is_digit_def is_ws_def)

lemma trimmed_nat_str [simp]: "trimmed (nat_str n)"
  using nat_str_digits [of n] by (simp add: trimmed_def digit_not_ws)

end
