(* ===== verification/JS_Number.thy ===== *)
theory JS_Number
  imports Complex_Main JS_Strings
begin

text \<open>
  The numbers of the language: IEEE 754 binary64.  A finite number is the exact
  rational it denotes (the two zeros are one value here: no modelled operation
  tells them apart), and every arithmetic operation rounds its exact result to
  the nearest double, ties to even, with gradual underflow and overflow to the
  infinities (\<open>fl\<close>).  \<open>Number_of_string\<close> is the conversion \<open>Number(s)\<close> of a
  string and \<open>num_str\<close> the conversion \<open>String(x)\<close> of a number, which prints the
  shortest decimal that reads back.  The last section proves that it does.
\<close>

datatype jnum = NaN | PInf | NInf | Fin rat

subsection \<open>Powers and logarithms\<close>

definition pw :: "nat \<Rightarrow> int \<Rightarrow> rat" where
  "pw b k = (if 0 \<le> k then of_nat b ^ nat k else 1 / of_nat b ^ nat (- k))"

fun blen :: "nat \<Rightarrow> nat \<Rightarrow> nat" where
  "blen b n = (if n = 0 \<or> b < 2 then 0 else Suc (blen b (n div b)))"

declare blen.simps [simp del]

definition ilog :: "nat \<Rightarrow> rat \<Rightarrow> int" where
  "ilog b x =
     (let (n, d) = quotient_of x;
          k = int (blen b (nat n)) - int (blen b (nat d))
      in if pw b k \<le> x then k else k - 1)"

lemma pw_code [code]:
  "pw b k = (if 0 \<le> k then of_int (int b ^ nat k) else 1 / of_int (int b ^ nat (- k)))"
  by (simp add: pw_def)

lemma pw_powi: "pw b k = of_nat b powi k"
  by (simp add: pw_def power_int_def inverse_eq_divide power_one_over)

lemma pw_pos [simp]: "0 < b \<Longrightarrow> 0 < pw b k"
  by (simp add: pw_def)

lemma pw_nonneg [simp]: "0 \<le> pw b k"
  by (simp add: pw_def)

lemma pw_add: "0 < b \<Longrightarrow> pw b (j + k) = pw b j * pw b k"
  by (simp add: pw_powi power_int_add)

lemma pw_minus: "pw b (- k) = 1 / pw b k"
  by (simp add: pw_powi power_int_minus inverse_eq_divide)

lemma pw_diff: "0 < b \<Longrightarrow> pw b (j - k) = pw b j / pw b k"
  by (simp add: pw_powi power_int_diff)

lemma pw_0 [simp]: "pw b 0 = 1"
  by (simp add: pw_def)

lemma pw_nat: "pw b (int n) = of_nat b ^ n"
  by (simp add: pw_def)

lemma pw_mono: "1 < b \<Longrightarrow> j \<le> k \<Longrightarrow> pw b j \<le> pw b k"
  by (simp add: pw_powi power_int_increasing)

lemma pw_strict_mono: "1 < b \<Longrightarrow> j < k \<Longrightarrow> pw b j < pw b k"
  by (simp add: pw_powi power_int_strict_increasing)

lemma pw_less_iff: "1 < b \<Longrightarrow> pw b j < pw b k \<longleftrightarrow> j < k"
  by (metis linorder_not_less pw_mono pw_strict_mono)

lemma blen_bounds:
  "2 \<le> b \<Longrightarrow> 0 < n \<Longrightarrow> 0 < blen b n \<and> b ^ (blen b n - 1) \<le> n \<and> n < b ^ blen b n"
proof (induction b n rule: blen.induct)
  case (1 b n)
  let ?m = "n div b"
  have eq: "blen b n = Suc (blen b ?m)"
    using 1 by (simp add: blen.simps [of b n])
  show ?case
  proof (cases "?m = 0")
    case True
    then have "n < b"
      using 1 by (simp add: div_eq_0_iff)
    with True eq 1 show ?thesis
      by (simp add: blen.simps [of b 0])
  next
    case False
    with 1 have IH: "0 < blen b ?m" "b ^ (blen b ?m - 1) \<le> ?m" "?m < b ^ blen b ?m"
      by auto
    have "b ^ blen b ?m = b * b ^ (blen b ?m - 1)"
      using IH(1) by (metis power_minus_mult mult.commute)
    also have "\<dots> \<le> b * ?m"
      using IH(2) by simp
    also have "\<dots> \<le> n"
      by simp
    finally have lo: "b ^ blen b ?m \<le> n" .
    have "n < b * (?m + 1)"
      using 1 by (metis add.commute dividend_less_times_div less_le_trans mult.commute pos2 times_div_less_eq_dividend
          mult_Suc_right plus_1_eq_Suc)
    also have "\<dots> \<le> b * b ^ blen b ?m"
      using IH(3) by (intro mult_le_mono) auto
    finally have "n < b ^ Suc (blen b ?m)" by simp
    with lo eq show ?thesis by simp
  qed
qed

lemma ilog_bounds:
  assumes b: "2 \<le> b" and x: "0 < x"
  shows "pw b (ilog b x) \<le> x \<and> x < pw b (ilog b x + 1)"
proof -
  obtain n d where q: "quotient_of x = (n, d)" by (cases "quotient_of x")
  have d: "0 < d" using q by (rule quotient_of_denom_pos)
  have xe: "x = of_int n / of_int d" using q by (rule quotient_of_div)
  then have n: "0 < n" using x d by (simp add: zero_less_divide_iff)
  let ?n = "nat n" and ?d = "nat d"
  let ?ln = "blen b ?n" and ?ld = "blen b ?d"
  have N: "0 < ?ln" "b ^ (?ln - 1) \<le> ?n" "?n < b ^ ?ln"
    and D: "0 < ?ld" "b ^ (?ld - 1) \<le> ?d" "?d < b ^ ?ld"
    using blen_bounds [of b ?n] blen_bounds [of b ?d] b n d by auto
  have nr: "(of_int n :: rat) = of_nat ?n" and dr: "(of_int d :: rat) = of_nat ?d"
    using n d by simp_all
  have N1: "pw b (int ?ln - 1) \<le> of_int n" and N2: "of_int n < pw b (int ?ln)"
    using N by (metis nr of_nat_le_iff of_nat_power pw_nat of_nat_diff int_ops(2) Suc_leI One_nat_def,
        metis nr of_nat_less_iff of_nat_power pw_nat)
  have D1: "pw b (int ?ld - 1) \<le> of_int d" and D2: "of_int d < pw b (int ?ld)"
    using D by (metis dr of_nat_le_iff of_nat_power pw_nat of_nat_diff int_ops(2) Suc_leI One_nat_def,
        metis dr of_nat_less_iff of_nat_power pw_nat)
  let ?k = "int ?ln - int ?ld"
  have dpos: "(0::rat) < of_int d" using d by simp
  have up: "x < pw b (?k + 1)"
  proof -
    have "x * pw b (int ?ld - 1) \<le> x * of_int d"
      using D1 x by (intro mult_left_mono) auto
    also have "\<dots> = of_int n" using xe dpos by simp
    also have "\<dots> < pw b (int ?ln)" by (rule N2)
    also have "\<dots> = pw b (?k + 1) * pw b (int ?ld - 1)"
      using b by (simp flip: pw_add)
    finally show ?thesis using b by simp
  qed
  have lo: "pw b (?k - 1) < x"
  proof -
    have "pw b (?k - 1) * of_int d < pw b (?k - 1) * pw b (int ?ld)"
      using D2 b by simp
    also have "\<dots> = pw b (int ?ln - 1)"
      using b by (simp flip: pw_add)
    also have "\<dots> \<le> x * of_int d"
      using N1 xe dpos by simp
    finally show ?thesis using dpos by simp
  qed
  show ?thesis
    using up lo by (auto simp: ilog_def q Let_def)
qed

lemma ilog_unique:
  assumes "2 \<le> b" and "pw b k \<le> x" and "x < pw b (k + 1)"
  shows "ilog b x = k"
proof -
  have "0 < x" using assms by (meson less_le_trans pw_pos pos2)
  then have "pw b (ilog b x) \<le> x" "x < pw b (ilog b x + 1)"
    using ilog_bounds assms(1) by auto
  then have "pw b k < pw b (ilog b x + 1)" "pw b (ilog b x) < pw b (k + 1)"
    using assms by auto
  then show ?thesis
    using assms(1) by (simp add: pw_less_iff)
qed

subsection \<open>Rounding to binary64\<close>

definition round_even :: "rat \<Rightarrow> int" where
  "round_even y =
     (let f = \<lfloor>y\<rfloor>; r = y - of_int f
      in if r < 1 / 2 then f else if r > 1 / 2 then f + 1 else if even f then f else f + 1)"

definition fl :: "rat \<Rightarrow> jnum" where
  "fl x =
     (if x = 0 then Fin 0
      else let a = \<bar>x\<bar>;
               e = max (ilog 2 a - 52) (- 1074);
               r = of_int (round_even (a / pw 2 e)) * pw 2 e
           in if pw 2 1024 \<le> r then (if 0 < x then PInf else NInf)
              else Fin (if 0 < x then r else - r))"

text \<open>
  \<open>is_double x\<close>: the rational is a binary64 value, that is, rounding it changes
  nothing.
\<close>

definition is_double :: "rat \<Rightarrow> bool" where
  "is_double x \<longleftrightarrow> fl x = Fin x"

lemma round_even_int [simp]: "round_even (of_int k) = k"
  by (simp add: round_even_def Let_def)

lemma fl_0 [simp]: "fl 0 = Fin 0"
  by (simp add: fl_def)

lemma fl_pos:
  assumes "0 < x" and "e = max (ilog 2 x - 52) (- 1074)"
    and "r = of_int (round_even (x / pw 2 e)) * pw 2 e"
  shows "fl x = (if pw 2 1024 \<le> r then PInf else Fin r)"
  using assms by (simp add: fl_def Let_def)

lemma fl_neg: "x < 0 \<Longrightarrow> fl x = (case fl (- x) of PInf \<Rightarrow> NInf | Fin r \<Rightarrow> Fin (- r) | y \<Rightarrow> y)"
  by (simp add: fl_def Let_def)

lemma fl_exact:
  assumes x: "x = of_int m * pw 2 e" and m: "0 < m" "m < 2 ^ 53" and e: "- 1074 \<le> e"
    and b: "x < pw 2 1024"
  shows "fl x = Fin x"
proof -
  have pos: "0 < x" using x m by simp
  let ?e = "max (ilog 2 x - 52) (- 1074)"
  have "x < pw 2 (e + 53)"
  proof -
    have "(of_int m :: rat) < of_int (2 ^ 53)" using m(2) by (simp only: of_int_less_iff)
    then have "x < of_int (2 ^ 53) * pw 2 e" using x by simp
    also have "\<dots> = pw 2 (e + 53)" by (simp add: pw_add) (simp add: pw_def)
    finally show ?thesis .
  qed
  moreover have "pw 2 (ilog 2 x) \<le> x" using ilog_bounds [of 2 x] pos by simp
  ultimately have "pw 2 (ilog 2 x) < pw 2 (e + 53)" by simp
  then have le: "?e \<le> e" using e by (simp add: pw_less_iff)
  have "x / pw 2 ?e = of_int m * pw 2 (e - ?e)"
    by (simp add: x pw_diff)
  also have "\<dots> = of_int (m * 2 ^ nat (e - ?e))"
    using le by (simp add: pw_def)
  finally have q: "x / pw 2 ?e = of_int (m * 2 ^ nat (e - ?e))" .
  then have "of_int (round_even (x / pw 2 ?e)) * pw 2 ?e = x"
    by (simp only: round_even_int) (metis q less_irrefl nonzero_eq_divide_eq pos2 pw_pos)
  then show ?thesis
    using fl_pos [OF pos refl refl] b by simp
qed

lemma is_double_0 [simp]: "is_double 0"
  by (simp add: is_double_def)

lemma is_double_uminus: "is_double x \<Longrightarrow> is_double (- x)"
  by (cases "x = 0"; cases "0 < x")
     (auto simp: is_double_def fl_neg [of "- x"] fl_neg [of x] split: jnum.splits)

lemma fl_of_nat: "n < 2 ^ 53 \<Longrightarrow> fl (of_nat n) = Fin (of_nat n)"
proof (cases "n = 0")
  case False
  assume n: "n < 2 ^ 53"
  have "(of_nat n :: rat) < pw 2 53"
    using n by (simp add: pw_def)
  also have "\<dots> < pw 2 1024" by (simp add: pw_strict_mono)
  finally show ?thesis
    using fl_exact [of "of_nat n" "int n" 0] n False by simp
qed simp

text \<open>Every finite result of a rounding is a double: the rounded value is exact.\<close>

lemma round_even_bounds: "of_int (round_even y) \<le> y + 1 / 2 \<and> y - 1 / 2 \<le> of_int (round_even y)"
  by (simp add: round_even_def Let_def) linarith

lemma round_even_le: "y \<le> of_int k \<Longrightarrow> round_even y \<le> k"
  using round_even_bounds [of y] floor_mono [of y "of_int k"]
  by (simp add: round_even_def Let_def)

lemma round_even_ge: "of_int k \<le> y \<Longrightarrow> k \<le> round_even y"
  using le_floor_iff [of k y] by (simp add: round_even_def Let_def)

lemma round_even_ulps:
  assumes "0 < x"
  shows "round_even (x / pw 2 (max (ilog 2 x - 52) (- 1074))) \<le> 2 ^ 53"
proof -
  let ?e = "max (ilog 2 x - 52) (- 1074)"
  have "x < pw 2 (ilog 2 x + 1)"
    using ilog_bounds [of 2 x] assms by simp
  also have "\<dots> \<le> pw 2 (53 + ?e)"
    by (intro pw_mono) auto
  finally have "x / pw 2 ?e \<le> of_int (2 ^ 53)"
    by (simp only: pw_add [of 2 53 ?e, simplified]) (simp add: pw_def divide_le_eq)
  then show ?thesis by (rule round_even_le)
qed

lemma fl_Fin_double:
  assumes "fl x = Fin y" and pos: "0 < x"
  shows "0 \<le> y \<and> is_double y"
proof -
  define e where "e = max (ilog 2 x - 52) (- 1074)"
  define m where "m = round_even (x / pw 2 e)"
  have y: "y = of_int m * pw 2 e" and b: "y < pw 2 1024"
    using assms fl_pos [OF pos e_def refl] by (auto simp: m_def split: if_splits)
  have m2: "m \<le> 2 ^ 53"
    unfolding m_def e_def using pos by (rule round_even_ulps)
  have "0 < x / pw 2 e"
    using pos by (intro divide_pos_pos) simp_all
  then have m0: "0 \<le> m"
    unfolding m_def by (intro round_even_ge) simp
  have e: "- 1074 \<le> e" by (simp add: e_def)
  consider "m = 0" | "0 < m" "m < 2 ^ 53" | "m = 2 ^ 53"
    using m0 m2 by linarith
  then have "is_double y"
  proof cases
    case 1
    then show ?thesis by (simp add: y)
  next
    case 2
    with e b y show ?thesis unfolding is_double_def by (intro fl_exact [of y m e])
  next
    case 3
    have "y = of_int 1 * pw 2 (e + 53)"
      by (simp add: y 3 pw_add) (simp add: pw_def)
    with e b show ?thesis
      unfolding is_double_def by (intro fl_exact [of y 1 "e + 53"]) simp_all
  qed
  with m0 show ?thesis by (simp add: y)
qed

lemma fl_double: "fl x = Fin y \<Longrightarrow> is_double y"
proof -
  assume a: "fl x = Fin y"
  consider "x = 0" | "0 < x" | "x < 0" by linarith
  then show ?thesis
  proof cases
    case 3
    with a have "fl (- x) = Fin (- y)"
      by (auto simp: fl_neg split: jnum.splits)
    then have "is_double (- y)"
      using fl_Fin_double [of "- x" "- y"] 3 by simp
    then show ?thesis
      using is_double_uminus [of "- y"] by simp
  qed (use a fl_Fin_double in auto)
qed

text \<open>
  For evaluation: below \<open>2 ^ 971\<close> units in the last place there is no overflow to
  test for.
\<close>

lemma fl_code [code]:
  "fl x =
     (if x = 0 then Fin 0
      else let a = \<bar>x\<bar>;
               e = max (ilog 2 a - 52) (- 1074);
               r = of_int (round_even (a / pw 2 e)) * pw 2 e
           in if 971 \<le> e \<and> pw 2 1024 \<le> r then (if 0 < x then PInf else NInf)
              else Fin (if 0 < x then r else - r))"
proof (cases "x = 0")
  case False
  let ?e = "max (ilog 2 \<bar>x\<bar> - 52) (- 1074)"
  let ?m = "round_even (\<bar>x\<bar> / pw 2 ?e)"
  have "of_int ?m * pw 2 ?e < pw 2 1024" if "?e < 971"
  proof -
    have "of_int ?m * pw 2 ?e \<le> of_int (2 ^ 53) * pw 2 ?e"
      using round_even_ulps [of "\<bar>x\<bar>"] False
      by (intro mult_right_mono) (simp_all only: of_int_le_iff, simp_all)
    also have "\<dots> = pw 2 (53 + ?e)"
      by (simp add: pw_add) (simp add: pw_def)
    also have "\<dots> < pw 2 1024"
      using that by (intro pw_strict_mono) auto
    finally show ?thesis .
  qed
  then show ?thesis
    by (auto simp: fl_def Let_def not_le)
qed simp

text \<open>A number of the language: not a number, an infinity, or a double.\<close>

definition wf_num :: "jnum \<Rightarrow> bool" where
  "wf_num x = (case x of Fin q \<Rightarrow> is_double q | _ \<Rightarrow> True)"

lemma wf_fl [simp]: "wf_num (fl x)"
  using fl_double [of x] by (auto simp: wf_num_def split: jnum.splits)

subsection \<open>Arithmetic and comparison\<close>

definition num_neg :: "jnum \<Rightarrow> jnum" where
  "num_neg x = (case x of NaN \<Rightarrow> NaN | PInf \<Rightarrow> NInf | NInf \<Rightarrow> PInf | Fin q \<Rightarrow> Fin (- q))"

fun num_add :: "jnum \<Rightarrow> jnum \<Rightarrow> jnum" where
  "num_add (Fin a) (Fin b) = fl (a + b)"
| "num_add NaN _ = NaN"
| "num_add _ NaN = NaN"
| "num_add PInf NInf = NaN"
| "num_add NInf PInf = NaN"
| "num_add PInf _ = PInf"
| "num_add NInf _ = NInf"
| "num_add _ PInf = PInf"
| "num_add _ NInf = NInf"

definition num_sub :: "jnum \<Rightarrow> jnum \<Rightarrow> jnum" where
  "num_sub x y = num_add x (num_neg y)"

definition num_sgn :: "jnum \<Rightarrow> int" where
  "num_sgn x = (case x of NaN \<Rightarrow> 0 | PInf \<Rightarrow> 1 | NInf \<Rightarrow> - 1
     | Fin q \<Rightarrow> (if 0 < q then 1 else if q < 0 then - 1 else 0))"

definition num_mul :: "jnum \<Rightarrow> jnum \<Rightarrow> jnum" where
  "num_mul x y =
     (case (x, y) of
        (NaN, _) \<Rightarrow> NaN
      | (_, NaN) \<Rightarrow> NaN
      | (Fin a, Fin b) \<Rightarrow> fl (a * b)
      | _ \<Rightarrow> (let s = num_sgn x * num_sgn y
              in if s = 0 then NaN else if 0 < s then PInf else NInf))"

definition num_lt :: "jnum \<Rightarrow> jnum \<Rightarrow> bool" where
  "num_lt x y =
     (case (x, y) of
        (NaN, _) \<Rightarrow> False
      | (_, NaN) \<Rightarrow> False
      | (Fin a, Fin b) \<Rightarrow> a < b
      | (NInf, _) \<Rightarrow> y \<noteq> NInf
      | (PInf, _) \<Rightarrow> False
      | (_, PInf) \<Rightarrow> True
      | (_, NInf) \<Rightarrow> False)"

definition num_eq :: "jnum \<Rightarrow> jnum \<Rightarrow> bool" where
  "num_eq x y \<longleftrightarrow> x \<noteq> NaN \<and> x = y"

definition num_le :: "jnum \<Rightarrow> jnum \<Rightarrow> bool" where
  "num_le x y \<longleftrightarrow> num_lt x y \<or> num_eq x y"

definition num_truthy :: "jnum \<Rightarrow> bool" where
  "num_truthy x \<longleftrightarrow> x \<noteq> NaN \<and> x \<noteq> Fin 0"

definition is_finite :: "jnum \<Rightarrow> bool" where
  "is_finite x = (case x of Fin _ \<Rightarrow> True | _ \<Rightarrow> False)"

definition is_integer :: "jnum \<Rightarrow> bool" where
  "is_integer x = (case x of Fin q \<Rightarrow> q = of_int \<lfloor>q\<rfloor> | _ \<Rightarrow> False)"

abbreviation num_int :: "int \<Rightarrow> jnum" where
  "num_int i \<equiv> Fin (of_int i)"

text \<open>\<open>num_or0 x\<close> is the idiom \<open>x || 0\<close>.\<close>

definition num_or0 :: "jnum \<Rightarrow> jnum" where
  "num_or0 x = (if num_truthy x then x else Fin 0)"

lemma wf_num_neg [simp]: "wf_num x \<Longrightarrow> wf_num (num_neg x)"
  by (auto simp: wf_num_def num_neg_def is_double_uminus split: jnum.splits)

lemma wf_num_add [simp]: "wf_num (num_add x y)"
  by (cases "(x, y)" rule: num_add.cases) (simp_all, simp_all add: wf_num_def)

lemma wf_num_mul [simp]: "wf_num (num_mul x y)"
proof (cases x)
  case (Fin a)
  then show ?thesis
    by (cases y) (simp_all add: num_mul_def Let_def, simp_all add: wf_num_def)
qed (cases y; simp add: num_mul_def Let_def wf_num_def)+

lemma num_or0_not_NaN [simp]: "num_or0 x \<noteq> NaN"
  by (simp add: num_or0_def num_truthy_def)

lemma num_or0_idem [simp]: "num_or0 (num_or0 x) = num_or0 x"
  by (simp add: num_or0_def num_truthy_def)

lemma wf_num_or0 [simp]: "wf_num x \<Longrightarrow> wf_num (num_or0 x)"
  by (simp add: num_or0_def wf_num_def)

subsection \<open>Reading a number\<close>

text \<open>
  \<open>Number(s)\<close>: white space is stripped, the empty string is 0, an optional sign is
  followed by \<open>Infinity\<close> or by a decimal literal with a digit before or after the
  point, and an unsigned literal may be hexadecimal, octal or binary; anything
  else is not a number.
\<close>

definition dec_value :: "jstring \<Rightarrow> jstring \<Rightarrow> int \<Rightarrow> rat" where
  "dec_value i f e = of_nat (digits_val (i @ f)) * pw 10 (e - int (length f))"

definition parse_exponent :: "jstring \<Rightarrow> int option" where
  "parse_exponent s =
     (case s of
        [] \<Rightarrow> Some 0
      | c # t \<Rightarrow>
          if c = 101 \<or> c = 69 then
            (let (sg, d) = (case t of
                 [] \<Rightarrow> (1, [])
               | x # u \<Rightarrow> (if x = 43 then (1, u) else if x = 45 then (- 1, u) else (1, t)))
             in if d \<noteq> [] \<and> list_all is_digit d then Some (sg * int (digits_val d)) else None)
          else None)"

definition parse_decimal :: "jstring \<Rightarrow> rat option" where
  "parse_decimal s =
     (let i = takeWhile is_digit s; r = dropWhile is_digit s;
          (f, r') = (case r of
              [] \<Rightarrow> ([], [])
            | c # t \<Rightarrow> (if c = 46 then (takeWhile is_digit t, dropWhile is_digit t) else ([], r)))
      in if i = [] \<and> f = [] then None
         else map_option (dec_value i f) (parse_exponent r'))"

definition radix_digit :: "nat \<Rightarrow> nat \<Rightarrow> nat option" where
  "radix_digit b c =
     (let v = (if is_digit c then c - 48
               else if 97 \<le> c \<and> c \<le> 102 then c - 87
               else if 65 \<le> c \<and> c \<le> 70 then c - 55 else 99)
      in if v < b then Some v else None)"

definition parse_radix :: "nat \<Rightarrow> jstring \<Rightarrow> jnum" where
  "parse_radix b s =
     (if s \<noteq> [] \<and> list_all (\<lambda>c. radix_digit b c \<noteq> None) s
      then fl (of_nat (foldl (\<lambda>a c. b * a + the (radix_digit b c)) 0 s)) else NaN)"

definition parse_signed :: "jstring \<Rightarrow> jnum" where
  "parse_signed s =
     (let (neg, t) = (case s of
          [] \<Rightarrow> (False, [])
        | c # u \<Rightarrow> (if c = 45 then (True, u) else if c = 43 then (False, u) else (False, s)))
      in if t = js ''Infinity'' then (if neg then NInf else PInf)
         else (case parse_decimal t of
                 None \<Rightarrow> NaN
               | Some q \<Rightarrow> fl (if neg then - q else q)))"

definition Number_of_string :: "jstring \<Rightarrow> jnum" where
  "Number_of_string s0 =
     (let s = trim s0 in
      if s = [] then Fin 0
      else if starts_with s (js ''0x'') \<or> starts_with s (js ''0X'') then parse_radix 16 (drop 2 s)
      else if starts_with s (js ''0o'') \<or> starts_with s (js ''0O'') then parse_radix 8 (drop 2 s)
      else if starts_with s (js ''0b'') \<or> starts_with s (js ''0B'') then parse_radix 2 (drop 2 s)
      else parse_signed s)"

lemma wf_parse_signed [simp]: "wf_num (parse_signed s)"
  by (auto simp: parse_signed_def Let_def split: prod.splits option.splits) (auto simp: wf_num_def)

lemma wf_Number_of_string [simp]: "wf_num (Number_of_string s)"
  by (simp add: Number_of_string_def Let_def parse_radix_def)
     (simp add: wf_num_def)

lemma takeWhile_digits [simp]:
  "list_all is_digit d \<Longrightarrow> takeWhile is_digit (d @ r) = d @ takeWhile is_digit r"
  "list_all is_digit d \<Longrightarrow> dropWhile is_digit (d @ r) = dropWhile is_digit r"
  by (induction d) auto

lemma takeWhile_all_digits [simp]:
  "list_all is_digit d \<Longrightarrow> takeWhile is_digit d = d"
  "list_all is_digit d \<Longrightarrow> dropWhile is_digit d = []"
  by (induction d) auto

lemma parse_decimal_int:
  assumes "list_all is_digit d" and "d \<noteq> []"
  shows "parse_decimal d = Some (of_nat (digits_val d))"
  using assms by (simp add: parse_decimal_def dec_value_def parse_exponent_def)

lemma parse_decimal_frac:
  assumes "list_all is_digit i" and "list_all is_digit f" and "i \<noteq> []"
  shows "parse_decimal (i @ 46 # f) = Some (dec_value i f 0)"
  using assms by (simp add: parse_decimal_def parse_exponent_def is_digit_def [of 46])

lemma parse_decimal_exp:
  assumes "list_all is_digit i" and "list_all is_digit f" and "i \<noteq> []"
    and "list_all is_digit x" and "x \<noteq> []" and "sg = 43 \<or> sg = 45"
  shows "parse_decimal (i @ 46 # f @ 101 # sg # x) =
      Some (dec_value i f ((if sg = 45 then - 1 else 1) * int (digits_val x)))"
    and "parse_decimal (i @ 101 # sg # x) =
      Some (dec_value i [] ((if sg = 45 then - 1 else 1) * int (digits_val x)))"
  using assms
  by (auto simp: parse_decimal_def parse_exponent_def is_digit_def [of 46] is_digit_def [of 101])

subsection \<open>Printing a number\<close>

text \<open>
  \<open>shortest fuel k x\<close> looks for the least number of digits, from \<open>k\<close> on, with
  which a decimal \<open>s * 10 ^ (n - k)\<close> rounds to the double \<open>x\<close>, and returns the
  digits \<open>s\<close>, their number and the decimal point position \<open>n\<close>; of two candidates
  the closer one is taken.  An exact decimal expansion of a double has less than
  1400 digits, so the fuel of \<open>num_str\<close> is enough (lemma \<open>shortest_total\<close>).
\<close>

definition candidates :: "nat \<Rightarrow> rat \<Rightarrow> nat list" where
  "candidates k x =
     (let y = x * pw 10 (int k - (ilog 10 x + 1)); lo = nat \<lfloor>y\<rfloor>
      in if y - of_nat lo < 1 / 2 \<or> (y - of_nat lo = 1 / 2 \<and> even lo)
         then [lo, Suc lo] else [Suc lo, lo])"

fun shortest :: "nat \<Rightarrow> nat \<Rightarrow> rat \<Rightarrow> (nat \<times> nat) option" where
  "shortest 0 k x = None"
| "shortest (Suc fuel) k x =
     (case find (\<lambda>s. fl (of_nat s * pw 10 (ilog 10 x + 1 - int k)) = Fin x) (candidates k x) of
        Some s \<Rightarrow> Some (s, k)
      | None \<Rightarrow> shortest fuel (Suc k) x)"

definition zeros :: "int \<Rightarrow> jstring" where
  "zeros n = replicate (nat n) 48"

text \<open>
  \<open>format_digits d n\<close> prints the digit string \<open>d\<close> with the decimal point after the
  \<open>n\<close>-th digit, in the notation the language chooses for that position.
\<close>

definition format_digits :: "jstring \<Rightarrow> int \<Rightarrow> jstring" where
  "format_digits d n =
     (let k = int (length d); e = n - 1;
          ex = 101 # (if 0 \<le> e then 43 else 45) # nat_str (nat \<bar>e\<bar>)
      in if k \<le> n \<and> n \<le> 21 then d @ zeros (n - k)
         else if 0 < n \<and> n \<le> 21 then take (nat n) d @ 46 # drop (nat n) d
         else if - 6 < n \<and> n \<le> 0 then 48 # 46 # zeros (- n) @ d
         else if k = 1 then d @ ex
         else take 1 d @ 46 # drop 1 d @ ex)"

definition pos_str :: "rat \<Rightarrow> jstring" where
  "pos_str x =
     (case shortest 1400 1 x of
        None \<Rightarrow> []
      | Some (s, k) \<Rightarrow>
          (let d = nat_str s
           in format_digits (take k d) (ilog 10 x + 1 + (int (length d) - int k))))"

definition num_str :: "jnum \<Rightarrow> jstring" where
  "num_str x =
     (case x of
        NaN \<Rightarrow> js ''NaN''
      | PInf \<Rightarrow> js ''Infinity''
      | NInf \<Rightarrow> js ''-Infinity''
      | Fin q \<Rightarrow> (if q = 0 then js ''0'' else if q < 0 then 45 # pos_str (- q) else pos_str q))"

subsection \<open>Printing and reading agree\<close>

lemma digits_val_Cons_foldl:
  "foldl (\<lambda>a c. 10 * a + (c - 48)) n s = n * 10 ^ length s + digits_val s"
  unfolding digits_val_def
proof (induction s arbitrary: n)
  case (Cons c s)
  show ?case
    using Cons [of "10 * n + (c - 48)"] Cons [of "c - 48"] by (simp add: algebra_simps)
qed simp

lemma digits_val_append:
  "digits_val (s @ t) = digits_val s * 10 ^ length t + digits_val t"
  using digits_val_Cons_foldl [of "digits_val s" t] by (simp add: digits_val_def)

lemma digits_val_zeros [simp]: "digits_val (replicate j 48) = 0"
  by (induction j) (simp_all add: digits_val_def)

lemma list_all_zeros [simp]: "list_all is_digit (zeros j)"
  by (simp add: zeros_def list_all_iff is_digit_def)

lemma list_all_nat_str [simp]: "list_all is_digit (nat_str n)"
  using nat_str_digits by (simp add: list_all_iff)

lemma list_all_take [simp]: "list_all P d \<Longrightarrow> list_all P (take n d)"
  by (auto simp: list_all_iff dest: in_set_takeD)

lemma list_all_drop [simp]: "list_all P d \<Longrightarrow> list_all P (drop n d)"
  by (auto simp: list_all_iff dest: in_set_dropD)

lemma dec_value_split:
  "dec_value (take j d) (drop j d) e = of_nat (digits_val d) * pw 10 (e - int (length d - j))"
  by (simp add: dec_value_def)

lemma parse_format_digits:
  assumes d: "list_all is_digit d" "d \<noteq> []"
  shows "parse_decimal (format_digits d n) =
      Some (of_nat (digits_val d) * pw 10 (n - int (length d)))"
proof -
  let ?k = "int (length d)"
  let ?sg = "if 0 \<le> n - 1 then 43 else 45 :: nat"
  let ?x = "nat_str (nat \<bar>n - 1\<bar>)"
  have sg: "(if ?sg = 45 then - 1 else 1) * int (digits_val ?x) = n - 1" by simp
  consider (int) "?k \<le> n" "n \<le> 21" | (point) "0 < n" "n < ?k" "n \<le> 21"
    | (small) "- 6 < n" "n \<le> 0" | (exp1) "n \<le> - 6 \<or> 21 < n" "?k = 1"
    | (exp) "n \<le> - 6 \<or> 21 < n" "?k > 1"
    using d(2) by (cases d) fastforce+
  then show ?thesis
  proof cases
    case int
    then have "format_digits d n = d @ zeros (n - ?k)"
      by (simp add: format_digits_def)
    moreover have "(of_nat (digits_val (d @ zeros (n - ?k))) :: rat) = of_nat (digits_val d) * pw 10 (n - ?k)"
      using int by (simp add: digits_val_append zeros_def pw_def)
    ultimately show ?thesis
      using d parse_decimal_int [of "d @ zeros (n - ?k)"] by simp
  next
    case point
    then have "format_digits d n = take (nat n) d @ 46 # drop (nat n) d"
      by (simp add: format_digits_def)
    with point d show ?thesis
      by (simp add: parse_decimal_frac dec_value_split)
  next
    case small
    then have "format_digits d n = [48] @ 46 # (zeros (- n) @ d)"
      using d(2) by (simp add: format_digits_def) (cases d; simp)
    moreover have "dec_value [48] (zeros (- n) @ d) 0 = of_nat (digits_val d) * pw 10 (n - ?k)"
      using small digits_val_append [of "[48]" "zeros (- n) @ d"]
      by (simp add: dec_value_def digits_val_append zeros_def) (simp add: digits_val_def)
    ultimately show ?thesis
      using d parse_decimal_frac [of "[48]" "zeros (- n) @ d"] by (simp add: is_digit_def [of 48])
  next
    case exp1
    then have "format_digits d n = d @ 101 # ?sg # ?x"
      by (auto simp: format_digits_def Let_def)
    then show ?thesis
      using exp1 d sg parse_decimal_exp(2) [of d "[]" ?x ?sg]
      by (simp add: dec_value_def del: One_nat_def)
  next
    case exp
    then have f: "format_digits d n = take 1 d @ 46 # drop 1 d @ 101 # ?sg # ?x"
      by (auto simp: format_digits_def Let_def)
    have "parse_decimal (take 1 d @ 46 # drop 1 d @ 101 # ?sg # ?x) =
        Some (dec_value (take 1 d) (drop 1 d) (n - 1))"
      using d sg by (subst parse_decimal_exp(1)) auto
    moreover have "n - 1 - int (length d - 1) = n - ?k"
      using exp by simp
    ultimately show ?thesis
      by (simp only: f dec_value_split)
  qed
qed
lemma shortest_sound:
  "shortest fuel k x = Some (s, k') \<Longrightarrow>
     k \<le> k' \<and> s \<in> set (candidates k' x) \<and>
     fl (of_nat s * pw 10 (ilog 10 x + 1 - int k')) = Fin x"
proof (induction fuel arbitrary: k)
  case (Suc fuel)
  show ?case
  proof (cases "find (\<lambda>s. fl (of_nat s * pw 10 (ilog 10 x + 1 - int k)) = Fin x) (candidates k x)")
    case None
    with Suc show ?thesis by fastforce
  next
    case (Some a)
    with Suc.prems show ?thesis by (auto simp: find_Some_iff)
  qed
qed simp

lemma shortest_exists:
  assumes "is_double x" and "k \<le> j" and "j < k + fuel"
    and "x * pw 10 (int j - (ilog 10 x + 1)) = of_nat q"
  shows "\<exists>s k'. shortest fuel k x = Some (s, k')"
  using assms(2,3)
proof (induction fuel arbitrary: k)
  case (Suc fuel)
  let ?f = "find (\<lambda>s. fl (of_nat s * pw 10 (ilog 10 x + 1 - int k)) = Fin x) (candidates k x)"
  show ?case
  proof (cases "k = j")
    case True
    have "of_nat q * pw 10 (ilog 10 x + 1 - int j) = x"
      by (simp flip: assms(4) add: mult.assoc pw_add [symmetric])
    then have "fl (of_nat q * pw 10 (ilog 10 x + 1 - int k)) = Fin x"
      using assms(1) True by (simp add: is_double_def)
    moreover have "q \<in> set (candidates k x)"
      using True assms(4) by (simp add: candidates_def Let_def)
    ultimately have "?f \<noteq> None" by (auto simp: find_None_iff)
    then show ?thesis by auto
  next
    case False
    with Suc.prems have "\<exists>s k'. shortest fuel (Suc k) x = Some (s, k')"
      by (intro Suc.IH) auto
    then show ?thesis by (auto split: option.splits)
  qed
qed simp

lemma double_dyadic:
  assumes "is_double x" and "0 < x"
  obtains m e where "x = of_nat m * pw 2 e" and "- 1074 \<le> e" and "x < pw 2 1024"
proof -
  define e where "e = max (ilog 2 x - 52) (- 1074)"
  define m where "m = round_even (x / pw 2 e)"
  have x: "x = of_int m * pw 2 e" and b: "x < pw 2 1024"
    using assms fl_pos [OF assms(2) e_def refl] by (auto simp: m_def is_double_def split: if_splits)
  then have "0 < m"
    using assms(2) by (metis not_less of_int_le_0_iff pw_nonneg mult_nonpos_nonneg)
  then have "x = of_nat (nat m) * pw 2 e"
    using x by simp
  moreover have "- 1074 \<le> e" by (simp add: e_def)
  ultimately show thesis using b that by blast
qed

lemma pw_10: "pw 10 k = pw 2 k * pw 5 k"
  by (simp add: pw_powi flip: power_int_mult_distrib)

lemma shortest_total:
  assumes "is_double x" and "0 < x"
  shows "\<exists>s k. shortest 1400 1 x = Some (s, k)"
proof -
  obtain m e where x: "x = of_nat m * pw 2 e" and e: "- 1074 \<le> e" and b: "x < pw 2 1024"
    using double_dyadic assms by blast
  have lb: "pw 10 (ilog 10 x) \<le> x" "x < pw 10 (ilog 10 x + 1)"
    using ilog_bounds [of 10 x] assms(2) by auto
  have "pw 10 (ilog 10 x) < pw 10 309"
    using lb(1) b by (rule le_less_trans [THEN less_trans]) (simp add: pw_def)
  then have hi: "ilog 10 x < 309" by (simp add: pw_less_iff)
  have "1 \<le> m"
    using x assms(2) by (cases m) auto
  then have "pw 2 (- 1074) * 1 \<le> pw 2 e * of_nat m"
    using e by (intro mult_mono pw_mono) simp_all
  then have "pw 2 (- 1074) \<le> x"
    by (simp only: x mult.commute mult_1_right mult_1)
  also have "x < pw 10 (ilog 10 x + 1)" by (rule lb(2))
  finally have "pw 10 (- 324) < pw 10 (ilog 10 x + 1)"
    by (rule le_less_trans [rotated]) (simp add: pw_def)
  then have lo: "- 325 < ilog 10 x" by (simp add: pw_less_iff)
  define K :: nat where "K = 1074"
  define j where "j = nat (int K + (ilog 10 x + 1))"
  have j: "int j - (ilog 10 x + 1) = int K" "1 \<le> j" "j < 1 + 1400" and e: "0 \<le> e + int K"
    using lo hi e by (auto simp: j_def K_def)
  have "x * pw 10 (int K) = of_nat m * (pw 2 e * pw 2 (int K)) * pw 5 (int K)"
    by (simp only: x pw_10 mult.assoc)
  also have "\<dots> = of_nat (m * 2 ^ nat (e + int K) * 5 ^ K)"
  proof -
    have "pw 2 e * pw 2 (int K) = of_nat (2 ^ nat (e + int K))"
      using e by (simp only: pw_add [symmetric, OF pos2]) (simp add: pw_def)
    then show ?thesis by (simp add: pw_nat)
  qed
  finally show ?thesis
    using shortest_exists [of x 1 j 1400] j assms(1) by metis
qed

lemma candidates_bounds:
  assumes "0 < x" and "1 \<le> k" and "s \<in> set (candidates k x)"
  shows "10 ^ (k - 1) \<le> s \<and> s \<le> 10 ^ k"
proof -
  let ?y = "x * pw 10 (int k - (ilog 10 x + 1))"
  have lb: "pw 10 (ilog 10 x) \<le> x" "x < pw 10 (ilog 10 x + 1)"
    using ilog_bounds [of 10 x] assms(1) by auto
  have "pw 10 (ilog 10 x) * pw 10 (int k - (ilog 10 x + 1)) \<le> ?y"
    using lb(1) by (intro mult_right_mono) auto
  then have "pw 10 (int (k - 1)) \<le> ?y"
    using assms(2) by (simp add: pw_add [symmetric])
  then have "(10 ^ (k - 1) :: rat) \<le> ?y"
    by (simp only: pw_nat of_nat_numeral)
  then have lo: "10 ^ (k - 1) \<le> \<lfloor>?y\<rfloor>"
    by (simp add: le_floor_iff)
  have "?y < pw 10 (ilog 10 x + 1) * pw 10 (int k - (ilog 10 x + 1))"
    using lb(2) by (intro mult_strict_right_mono) auto
  then have "?y < pw 10 (int k)"
    by (simp add: pw_add [symmetric])
  then have "?y < 10 ^ k"
    by (simp only: pw_nat of_nat_numeral)
  then have hi: "\<lfloor>?y\<rfloor> < 10 ^ k"
    by (simp add: floor_less_iff)
  have "10 ^ (k - 1) \<le> nat \<lfloor>?y\<rfloor>" "nat \<lfloor>?y\<rfloor> < 10 ^ k"
    using lo hi by (simp_all add: le_nat_iff nat_less_iff)
  moreover have "s = nat \<lfloor>?y\<rfloor> \<or> s = Suc (nat \<lfloor>?y\<rfloor>)"
    using assms(3) unfolding candidates_def Let_def by (auto split: if_splits)
  ultimately show ?thesis
    by linarith
qed

lemma length_nat_str:
  "10 ^ (k - 1) \<le> s \<Longrightarrow> s < 10 ^ k \<Longrightarrow> 1 \<le> k \<Longrightarrow> length (nat_str s) = k"
proof (induction s arbitrary: k rule: nat_str.induct)
  case (1 s)
  show ?case
  proof (cases "s < 10")
    case True
    then have "(10::nat) ^ (k - 1) < 10 ^ 1"
      using "1.prems" by simp
    then have "k = 1"
      using "1.prems" by (subst (asm) power_strict_increasing_iff) auto
    with True show ?thesis by (simp add: nat_str.simps [of s])
  next
    case False
    then have "1 < k"
      using "1.prems" by (cases k; cases "k - 1") auto
    then obtain j where k: "k = Suc (Suc j)"
      by (metis One_nat_def Suc_lessE less_iff_Suc_add plus_nat.simps(2) plus_nat.simps(1))
    have "10 ^ j \<le> s div 10" "s div 10 < 10 ^ Suc j"
      using "1.prems" by (auto simp: k less_mult_imp_div_less mult.commute)
    then have "length (nat_str (s div 10)) = Suc j"
      using "1.IH" [of "Suc j"] False by simp
    with False show ?thesis by (simp add: nat_str.simps [of s] k)
  qed
qed

lemma take_nat_str_10: "1 \<le> k \<Longrightarrow> take k (nat_str (10 ^ k)) = nat_str (10 ^ (k - 1)) \<and>
    length (nat_str (10 ^ k)) = Suc k"
proof -
  assume k: "1 \<le> k"
  have len: "length (nat_str (10 ^ (k - 1))) = k"
    using k by (intro length_nat_str) auto
  have "\<not> (10::nat) ^ k < 10"
    using k by (cases k) auto
  moreover have "(10::nat) ^ k div 10 = 10 ^ (k - 1)"
    using k by (cases k) auto
  ultimately have "nat_str (10 ^ k) = nat_str (10 ^ (k - 1)) @ [48 + 10 ^ k mod 10]"
    by (metis nat_str.simps)
  with len show ?thesis by simp
qed

lemma parse_pos_str:
  assumes "is_double x" and "0 < x"
  shows "\<exists>q. parse_decimal (pos_str x) = Some q \<and> fl q = Fin x"
proof -
  obtain s k where sk: "shortest 1400 1 x = Some (s, k)"
    using shortest_total assms by blast
  let ?n = "ilog 10 x + 1"
  have k: "1 \<le> k" and c: "s \<in> set (candidates k x)" and f: "fl (of_nat s * pw 10 (?n - int k)) = Fin x"
    using shortest_sound [OF sk] by auto
  have b: "10 ^ (k - 1) \<le> s" "s \<le> 10 ^ k"
    using candidates_bounds [OF assms(2) k c] by auto
  show ?thesis
  proof (cases "s = 10 ^ k")
    case True
    let ?d = "nat_str (10 ^ (k - 1))"
    have len: "length ?d = k"
      using k by (intro length_nat_str) auto
    have "pos_str x = format_digits ?d (?n + 1)"
      using True take_nat_str_10 [OF k] by (simp add: pos_str_def sk add.commute del: One_nat_def)
    then have "parse_decimal (pos_str x) = Some (of_nat (10 ^ (k - 1)) * pw 10 (?n + 1 - int k))"
      using parse_format_digits [of ?d "?n + 1"] len by simp
    moreover have "of_nat (10 ^ (k - 1)) * pw 10 (?n + 1 - int k) = of_nat s * pw 10 (?n - int k)"
    proof -
      have "(of_nat (10 ^ (k - 1)) :: rat) = pw 10 (int (k - 1))"
        and s: "of_nat s = pw 10 (int k)"
        using True by (simp_all add: pw_nat)
      then have "of_nat (10 ^ (k - 1)) * pw 10 (?n + 1 - int k) = pw 10 (int (k - 1) + (?n + 1 - int k))"
        by (simp add: pw_add)
      also have "\<dots> = pw 10 (int k + (?n - int k))"
        using k by (simp add: algebra_simps)
      finally show ?thesis using s by (simp only: pw_add)
    qed
    ultimately show ?thesis using f by simp
  next
    case False
    then have len: "length (nat_str s) = k"
      using b k by (intro length_nat_str) auto
    then have "pos_str x = format_digits (nat_str s) ?n"
      by (simp add: pos_str_def sk del: One_nat_def)
    then have "parse_decimal (pos_str x) = Some (of_nat s * pw 10 (?n - int k))"
      using parse_format_digits [of "nat_str s" ?n] len by simp
    with f show ?thesis by simp
  qed
qed

lemma format_digits_chars:
  assumes "list_all is_digit d" and "d \<noteq> []"
  shows "list_all (\<lambda>c. is_digit c \<or> c = 46 \<or> c = 101 \<or> c = 43 \<or> c = 45) (format_digits d n)"
    and "\<exists>c t. format_digits d n = c # t \<and> is_digit c"
proof -
  have z: "list_all (\<lambda>c. is_digit c \<or> P c) (zeros j)" for j P
    by (simp add: zeros_def is_digit_def list_all_iff)
  have l: "list_all (\<lambda>c. is_digit c \<or> P c) s" if "list_all is_digit s" for s P
    using that by (simp add: list_all_iff)
  show "list_all (\<lambda>c. is_digit c \<or> c = 46 \<or> c = 101 \<or> c = 43 \<or> c = 45) (format_digits d n)"
    using assms by (simp add: format_digits_def Let_def z l is_digit_def [of 48])
  obtain c t where d: "d = c # t" "is_digit c"
    using assms by (cases d) auto
  show "\<exists>c t. format_digits d n = c # t \<and> is_digit c"
    using d by (auto simp: format_digits_def Let_def is_digit_def [of 48] take_Cons' )
qed

lemma pos_str_format:
  assumes "is_double x" and "0 < x"
  shows "\<exists>d n. pos_str x = format_digits d n \<and> list_all is_digit d \<and> d \<noteq> []"
proof -
  obtain s k where sk: "shortest 1400 1 x = Some (s, k)"
    using shortest_total assms by blast
  have "1 \<le> k" using shortest_sound [OF sk] by simp
  then show ?thesis
    using list_all_take [of is_digit "nat_str s" k]
    by (auto simp: pos_str_def sk Let_def simp del: One_nat_def)
qed

lemma Number_of_printed:
  assumes "list_all (\<lambda>c. is_digit c \<or> c = 46 \<or> c = 101 \<or> c = 43 \<or> c = 45) (c # t)"
    and "is_digit c \<or> c = 45"
  shows "Number_of_string (c # t) = parse_signed (c # t)"
proof -
  have "\<forall>a \<in> set (c # t). \<not> is_ws a"
    using assms(1) by (auto simp: list_all_iff is_ws_def is_digit_def)
  then have "trim (c # t) = c # t"
    by (simp add: trim_trimmed trimmed_def)
  then show ?thesis
    using assms by (cases t) (auto simp: Number_of_string_def starts_with_def js_simps is_digit_def)
qed

lemma parse_signed_digit:
  "is_digit c \<Longrightarrow> parse_decimal (c # t) = Some q \<Longrightarrow> parse_signed (c # t) = fl q"
  by (auto simp: parse_signed_def is_digit_def js_simps)

lemma parse_signed_minus:
  "is_digit c \<Longrightarrow> parse_decimal (c # t) = Some q \<Longrightarrow> parse_signed (45 # c # t) = fl (- q)"
  by (auto simp: parse_signed_def is_digit_def js_simps)

lemma pos_str_parts:
  assumes "is_double p" and "0 < p"
  shows "\<exists>c t r. pos_str p = c # t \<and> is_digit c \<and> parse_decimal (c # t) = Some r \<and> fl r = Fin p \<and>
      list_all (\<lambda>c. is_digit c \<or> c = 46 \<or> c = 101 \<or> c = 43 \<or> c = 45) (c # t)"
proof -
  obtain d n where d: "pos_str p = format_digits d n" "list_all is_digit d" "d \<noteq> []"
    using pos_str_format assms by blast
  obtain c t where c: "format_digits d n = c # t" "is_digit c"
    using format_digits_chars(2) [OF d(2,3)] by blast
  obtain r where r: "parse_decimal (pos_str p) = Some r" "fl r = Fin p"
    using parse_pos_str assms by blast
  have "list_all (\<lambda>c. is_digit c \<or> c = 46 \<or> c = 101 \<or> c = 43 \<or> c = 45) (c # t)"
    using format_digits_chars(1) [OF d(2,3), of n] by (simp only: c)
  with c r d show ?thesis by auto
qed

lemma Number_num_str: "wf_num x \<Longrightarrow> Number_of_string (num_str x) = x"
proof (cases x)
  case (Fin q)
  assume wf: "wf_num x"
  consider "q = 0" | "0 < q" | "q < 0" by linarith
  then show ?thesis
  proof cases
    case 1
    then show ?thesis
      by (simp add: Fin num_str_def Number_of_string_def trim_def is_ws_def starts_with_def js_simps
          parse_signed_def parse_decimal_def is_digit_def dec_value_def digits_val_def parse_exponent_def)
  next
    case 2
    then obtain c t r where "pos_str q = c # t" "is_digit c" "parse_decimal (c # t) = Some r" "fl r = Fin q"
      "list_all (\<lambda>c. is_digit c \<or> c = 46 \<or> c = 101 \<or> c = 43 \<or> c = 45) (c # t)"
      using pos_str_parts [of q] wf Fin by (auto simp: wf_num_def)
    with 2 Fin show ?thesis
      by (simp add: num_str_def Number_of_printed parse_signed_digit)
  next
    case 3
    then obtain c t r where p: "pos_str (- q) = c # t" "is_digit c" "parse_decimal (c # t) = Some r"
      "fl r = Fin (- q)" "list_all (\<lambda>c. is_digit c \<or> c = 46 \<or> c = 101 \<or> c = 43 \<or> c = 45) (c # t)"
      using pos_str_parts [of "- q"] wf Fin is_double_uminus by (auto simp: wf_num_def)
    have "fl (- r) = Fin q"
    proof -
      have "0 < r"
      proof (rule ccontr)
        assume "\<not> 0 < r"
        then consider "r = 0" | "r < 0" by linarith
        then show False
        proof cases
          case 2
          then obtain y where "fl (- r) = Fin y" "- q = - y"
            using p(4) by (auto simp: fl_neg split: jnum.splits)
          then show False using 3 2 fl_Fin_double [of "- r" y] by simp
        qed (use p(4) 3 in simp)
      qed
      then show ?thesis using p(4) by (simp add: fl_neg)
    qed
    with 3 Fin p show ?thesis
      by (simp add: num_str_def Number_of_printed parse_signed_minus)
  qed
qed (simp_all add: num_str_def Number_of_string_def trim_def is_ws_def starts_with_def js_simps
      parse_signed_def parse_decimal_def is_digit_def)
end
