(* ===== verification/JS_Json.thy ===== *)
theory JS_Json
  imports JS_Number
begin

text \<open>
  Dynamically typed values and their JSON text.  A value is \<open>undefined\<close>, \<open>null\<close>, a
  boolean, a number, a string, an array or a plain object; an object is the list
  of its own properties in the order in which the language enumerates them
  (integer keys ascending, then the others as they were added).  \<open>JSON_parse\<close> is
  \<open>JSON.parse\<close> with \<open>None\<close> for a thrown \<open>SyntaxError\<close>, \<open>JSON_stringify\<close> is
  \<open>JSON.stringify\<close>.
\<close>

datatype jsval =
    Undef
  | Null
  | Bool bool
  | Num jnum
  | Str jstring
  | Arr "jsval list"
  | Obj "(jstring \<times> jsval) list"

subsection \<open>Objects\<close>

definition key_index :: "jstring \<Rightarrow> nat option" where
  "key_index k =
     (if k \<noteq> [] \<and> list_all is_digit k \<and> (k = [48] \<or> hd k \<noteq> 48) \<and> digits_val k < 4294967295
      then Some (digits_val k) else None)"

text \<open>\<open>key_before k l\<close>: a new property \<open>k\<close> is enumerated before the property \<open>l\<close>.\<close>

definition key_before :: "jstring \<Rightarrow> jstring \<Rightarrow> bool" where
  "key_before k l =
     (case key_index k of
        None \<Rightarrow> False
      | Some i \<Rightarrow> (case key_index l of None \<Rightarrow> True | Some j \<Rightarrow> i < j))"

fun obj_insert :: "jstring \<Rightarrow> 'v \<Rightarrow> (jstring \<times> 'v) list \<Rightarrow> (jstring \<times> 'v) list" where
  "obj_insert k v [] = [(k, v)]"
| "obj_insert k v ((l, w) # ps) =
     (if key_before k l then (k, v) # (l, w) # ps else (l, w) # obj_insert k v ps)"

fun obj_replace :: "jstring \<Rightarrow> 'v \<Rightarrow> (jstring \<times> 'v) list \<Rightarrow> (jstring \<times> 'v) list" where
  "obj_replace k v [] = []"
| "obj_replace k v ((l, w) # ps) =
     (if k = l then (k, v) # ps else (l, w) # obj_replace k v ps)"

definition obj_put :: "jstring \<Rightarrow> 'v \<Rightarrow> (jstring \<times> 'v) list \<Rightarrow> (jstring \<times> 'v) list" where
  "obj_put k v ps = (if map_of ps k = None then obj_insert k v ps else obj_replace k v ps)"

definition obj_of_pairs :: "(jstring \<times> 'v) list \<Rightarrow> (jstring \<times> 'v) list" where
  "obj_of_pairs ps = foldl (\<lambda>o' (k, v). obj_put k v o') [] ps"

lemma map_of_obj_insert:
  "map_of ps k = None \<Longrightarrow> map_of (obj_insert k v ps) = (map_of ps)(k \<mapsto> v)"
  by (induction k v ps rule: obj_insert.induct) (auto simp: fun_eq_iff split: if_splits)

lemma map_of_obj_replace:
  "map_of ps k \<noteq> None \<Longrightarrow> map_of (obj_replace k v ps) = (map_of ps)(k \<mapsto> v)"
  by (induction k v ps rule: obj_replace.induct) (auto simp: fun_eq_iff split: if_splits)

lemma map_of_obj_put [simp]: "map_of (obj_put k v ps) = (map_of ps)(k \<mapsto> v)"
  by (simp add: obj_put_def map_of_obj_insert map_of_obj_replace)

lemma keys_obj_insert: "set (map fst (obj_insert k v ps)) = insert k (set (map fst ps))"
  by (induction k v ps rule: obj_insert.induct) auto

lemma keys_obj_replace: "map fst (obj_replace k v ps) = map fst ps"
  by (induction k v ps rule: obj_replace.induct) auto

lemma distinct_obj_insert:
  "k \<notin> set (map fst ps) \<Longrightarrow> distinct (map fst ps) \<Longrightarrow> distinct (map fst (obj_insert k v ps))"
proof (induction k v ps rule: obj_insert.induct)
  case (2 k v l w ps)
  then show ?case
    using keys_obj_insert [of k v ps] by auto
qed simp

lemma distinct_obj_put: "distinct (map fst ps) \<Longrightarrow> distinct (map fst (obj_put k v ps))"
  by (auto simp: obj_put_def keys_obj_replace map_of_eq_None_iff intro!: distinct_obj_insert)

lemma distinct_foldl_obj_put:
  "distinct (map fst acc) \<Longrightarrow> distinct (map fst (foldl (\<lambda>o' (k, v). obj_put k v o') acc ps))"
  by (induction ps arbitrary: acc) (auto simp: distinct_obj_put)

lemma distinct_obj_of_pairs [simp]: "distinct (map fst (obj_of_pairs ps))"
  by (simp add: obj_of_pairs_def distinct_foldl_obj_put)

lemma map_of_foldl_obj_put:
  "map_of (foldl (\<lambda>o' (k, v). obj_put k v o') acc ps) = map_of acc ++ map_of (rev ps)"
  by (induction ps arbitrary: acc) (auto simp: map_add_assoc map_add_upd_left fun_eq_iff map_add_def
      split: option.splits)

lemma map_of_obj_of_pairs: "map_of (obj_of_pairs ps) = map_of (rev ps)"
  by (simp add: obj_of_pairs_def map_of_foldl_obj_put)

subsection \<open>Conversions\<close>

text \<open>
  \<open>truthy v\<close> is the condition of an \<open>if\<close>; \<open>to_str v\<close> is \<open>String(v)\<close>, equal to
  \<open>v.toString()\<close> where that is defined; \<open>get_prop v k\<close> is \<open>v?.k\<close>; \<open>is_obj v\<close> is the test
  \<open>v && typeof v === 'object'\<close>, which arrays pass as well.
\<close>

fun truthy :: "jsval \<Rightarrow> bool" where
  "truthy Undef = False"
| "truthy Null = False"
| "truthy (Bool b) = b"
| "truthy (Num x) = num_truthy x"
| "truthy (Str s) = (s \<noteq> [])"
| "truthy (Arr _) = True"
| "truthy (Obj _) = True"

fun to_str :: "jsval \<Rightarrow> jstring" where
  "to_str Undef = js ''undefined''"
| "to_str Null = js ''null''"
| "to_str (Bool b) = (if b then js ''true'' else js ''false'')"
| "to_str (Num x) = num_str x"
| "to_str (Str s) = s"
| "to_str (Arr vs) =
     join [44] (map (\<lambda>v. if v = Undef \<or> v = Null then [] else to_str v) vs)"
| "to_str (Obj _) = js ''[object Object]''"

definition is_obj :: "jsval \<Rightarrow> bool" where
  "is_obj v = (case v of Arr _ \<Rightarrow> True | Obj _ \<Rightarrow> True | _ \<Rightarrow> False)"

definition get_prop :: "jsval \<Rightarrow> jstring \<Rightarrow> jsval" where
  "get_prop v k =
     (case v of
        Obj ps \<Rightarrow> (case map_of ps k of None \<Rightarrow> Undef | Some w \<Rightarrow> w)
      | _ \<Rightarrow> Undef)"

subsection \<open>Reading JSON text\<close>

fun skip_ws :: "jstring \<Rightarrow> jstring" where
  "skip_ws [] = []"
| "skip_ws (c # s) = (if c = 32 \<or> c = 9 \<or> c = 10 \<or> c = 13 then skip_ws s else c # s)"

definition hex4 :: "nat \<Rightarrow> nat \<Rightarrow> nat \<Rightarrow> nat \<Rightarrow> nat option" where
  "hex4 a b c d =
     (case (radix_digit 16 a, radix_digit 16 b, radix_digit 16 c, radix_digit 16 d) of
        (Some w, Some x, Some y, Some z) \<Rightarrow> Some (((w * 16 + x) * 16 + y) * 16 + z)
      | _ \<Rightarrow> None)"

definition unescape :: "nat \<Rightarrow> nat option" where
  "unescape c =
     (if c = 34 \<or> c = 92 \<or> c = 47 then Some c
      else if c = 98 then Some 8 else if c = 102 then Some 12 else if c = 110 then Some 10
      else if c = 114 then Some 13 else if c = 116 then Some 9 else None)"

text \<open>\<open>parse_chars s\<close> reads the characters of a string literal up to the closing quote.\<close>

fun parse_chars :: "jstring \<Rightarrow> (jstring \<times> jstring) option" where
  "parse_chars [] = None"
| "parse_chars (c # s) =
     (if c = 34 then Some ([], s)
      else if c < 32 then None
      else if c \<noteq> 92 then map_option (\<lambda>(t, r). (c # t, r)) (parse_chars s)
      else (case s of
              [] \<Rightarrow> None
            | e # s1 \<Rightarrow>
                if e = 117 then
                  (case s1 of
                     w # x # y # z # s2 \<Rightarrow>
                       (case hex4 w x y z of
                          None \<Rightarrow> None
                        | Some u \<Rightarrow> map_option (\<lambda>(t, r). (u # t, r)) (parse_chars s2))
                   | _ \<Rightarrow> None)
                else
                  (case unescape e of
                     None \<Rightarrow> None
                   | Some u \<Rightarrow> map_option (\<lambda>(t, r). (u # t, r)) (parse_chars s1))))"

text \<open>
  \<open>parse_num\<close> reads the longest number literal at the front of the text: an optional
  minus, an integer part with no leading zero, an optional fraction and an
  optional exponent.
\<close>

definition parse_num :: "jstring \<Rightarrow> (jnum \<times> jstring) option" where
  "parse_num s =
     (let (sg, s1) = (case s of c # t \<Rightarrow> (if c = 45 then ([45], t) else ([], s)) | [] \<Rightarrow> ([], s));
          i = (case s1 of c # t \<Rightarrow> (if c = 48 then [48] else takeWhile is_digit s1) | [] \<Rightarrow> []);
          s2 = drop (length i) s1;
          (f, s3) = (case s2 of
              c # t \<Rightarrow> (if c = 46 then (46 # takeWhile is_digit t, dropWhile is_digit t) else ([], s2))
            | [] \<Rightarrow> ([], s2));
          (x, s4) = (case s3 of
              c # t \<Rightarrow>
                (if c = 101 \<or> c = 69 then
                   (let (g, u) = (case t of
                        a # v \<Rightarrow> (if a = 43 \<or> a = 45 then ([a], v) else ([], t)) | [] \<Rightarrow> ([], t))
                    in (c # g @ takeWhile is_digit u, dropWhile is_digit u))
                 else ([], s3))
            | [] \<Rightarrow> ([], s3))
      in if i = [] \<or> f = [46] \<or> (x \<noteq> [] \<and> \<not> is_digit (last x)) then None
         else Some (parse_signed (sg @ i @ f @ x), s4))"

fun parse_value :: "nat \<Rightarrow> jstring \<Rightarrow> (jsval \<times> jstring) option"
  and parse_elems :: "nat \<Rightarrow> jstring \<Rightarrow> (jsval list \<times> jstring) option"
  and parse_members :: "nat \<Rightarrow> jstring \<Rightarrow> ((jstring \<times> jsval) list \<times> jstring) option" where
  "parse_value 0 s = None"
| "parse_value (Suc n) s =
     (case skip_ws s of
        [] \<Rightarrow> None
      | c # t \<Rightarrow>
          if c = 34 then map_option (\<lambda>(u, r). (Str u, r)) (parse_chars t)
          else if c = 91 then
            (case skip_ws t of
               [] \<Rightarrow> None
             | d # u \<Rightarrow> if d = 93 then Some (Arr [], u)
                        else map_option (\<lambda>(vs, r). (Arr vs, r)) (parse_elems n t))
          else if c = 123 then
            (case skip_ws t of
               [] \<Rightarrow> None
             | d # u \<Rightarrow> if d = 125 then Some (Obj [], u)
                        else map_option (\<lambda>(ps, r). (Obj (obj_of_pairs ps), r)) (parse_members n t))
          else if starts_with (c # t) (js ''null'') then Some (Null, drop 4 (c # t))
          else if starts_with (c # t) (js ''true'') then Some (Bool True, drop 4 (c # t))
          else if starts_with (c # t) (js ''false'') then Some (Bool False, drop 5 (c # t))
          else map_option (\<lambda>(x, r). (Num x, r)) (parse_num (c # t)))"
| "parse_elems 0 s = None"
| "parse_elems (Suc n) s =
     (case parse_value n s of
        None \<Rightarrow> None
      | Some (v, r) \<Rightarrow>
          (case skip_ws r of
             [] \<Rightarrow> None
           | d # u \<Rightarrow> if d = 93 then Some ([v], u)
                      else if d = 44 then map_option (\<lambda>(vs, w). (v # vs, w)) (parse_elems n u)
                      else None))"
| "parse_members 0 s = None"
| "parse_members (Suc n) s =
     (case skip_ws s of
        [] \<Rightarrow> None
      | c # t \<Rightarrow>
          if c \<noteq> 34 then None
          else (case parse_chars t of
                  None \<Rightarrow> None
                | Some (k, r) \<Rightarrow>
                    (case skip_ws r of
                       [] \<Rightarrow> None
                     | d # u \<Rightarrow>
                         if d \<noteq> 58 then None
                         else (case parse_value n u of
                                 None \<Rightarrow> None
                               | Some (v, w) \<Rightarrow>
                                   (case skip_ws w of
                                      [] \<Rightarrow> None
                                    | e # x \<Rightarrow>
                                        if e = 125 then Some ([(k, v)], x)
                                        else if e = 44 then
                                          map_option (\<lambda>(ps, y). ((k, v) # ps, y)) (parse_members n x)
                                        else None)))))"

definition JSON_parse :: "jstring \<Rightarrow> jsval option" where
  "JSON_parse s =
     (case parse_value (2 * length s + 2) s of
        Some (v, r) \<Rightarrow> (if skip_ws r = [] then Some v else None)
      | None \<Rightarrow> None)"

subsection \<open>Writing JSON text\<close>

text \<open>
  A string is written between quotes, with the short escapes where there are any,
  and with \<open>\u\<close> escapes for the other control characters and for a surrogate that
  is not part of a pair.
\<close>

definition is_high :: "nat \<Rightarrow> bool" where
  "is_high c \<longleftrightarrow> 55296 \<le> c \<and> c \<le> 56319"

definition is_low :: "nat \<Rightarrow> bool" where
  "is_low c \<longleftrightarrow> 56320 \<le> c \<and> c \<le> 57343"

definition hex_digit :: "nat \<Rightarrow> nat" where
  "hex_digit n = (if n < 10 then 48 + n else 87 + n)"

definition esc_unit :: "nat \<Rightarrow> jstring" where
  "esc_unit c =
     (if c = 8 then [92, 98] else if c = 9 then [92, 116] else if c = 10 then [92, 110]
      else if c = 12 then [92, 102] else if c = 13 then [92, 114]
      else if c = 34 then [92, 34] else if c = 92 then [92, 92]
      else if c < 32 \<or> is_high c \<or> is_low c
        then [92, 117, hex_digit (c div 4096), hex_digit (c div 256 mod 16),
              hex_digit (c div 16 mod 16), hex_digit (c mod 16)]
      else [c])"

fun quote_chars :: "jstring \<Rightarrow> jstring" where
  "quote_chars [] = []"
| "quote_chars [c] = esc_unit c"
| "quote_chars (c # d # s) =
     (if is_high c \<and> is_low d then c # d # quote_chars s else esc_unit c @ quote_chars (d # s))"

definition JSON_quote :: "jstring \<Rightarrow> jstring" where
  "JSON_quote s = 34 # quote_chars s @ [34]"

fun JSON_stringify :: "jsval \<Rightarrow> jstring option" where
  "JSON_stringify Undef = None"
| "JSON_stringify Null = Some (js ''null'')"
| "JSON_stringify (Bool b) = Some (if b then js ''true'' else js ''false'')"
| "JSON_stringify (Num x) = Some (if is_finite x then num_str x else js ''null'')"
| "JSON_stringify (Str s) = Some (JSON_quote s)"
| "JSON_stringify (Arr vs) =
     Some ([91] @ join [44] (map (\<lambda>v. case JSON_stringify v of None \<Rightarrow> js ''null'' | Some t \<Rightarrow> t) vs) @ [93])"
| "JSON_stringify (Obj ps) =
     Some ([123] @ join [44] (concat (map (\<lambda>p. case JSON_stringify (snd p) of
              None \<Rightarrow> [] | Some t \<Rightarrow> [JSON_quote (fst p) @ [58] @ t]) ps)) @ [125])"

lemma radix_hex_digit: "n < 16 \<Longrightarrow> radix_digit 16 (hex_digit n) = Some n"
  by (auto simp: radix_digit_def hex_digit_def is_digit_def)

lemma hex4_hex_digits:
  "c < 65536 \<Longrightarrow> hex4 (hex_digit (c div 4096)) (hex_digit (c div 256 mod 16))
     (hex_digit (c div 16 mod 16)) (hex_digit (c mod 16)) = Some c"
proof -
  assume c: "c < 65536"
  have e: "c div 256 = c div 16 div 16" "c div 4096 = c div 16 div 16 div 16"
    by (simp_all add: div_mult2_eq [symmetric])
  have "c div 4096 < 16" using c by simp
  moreover have "((c div 4096 * 16 + c div 256 mod 16) * 16 + c div 16 mod 16) * 16 + c mod 16 = c"
    unfolding e by (simp only: div_mult_mod_eq)
  ultimately show ?thesis
    by (simp add: hex4_def radix_hex_digit)
qed

lemma parse_chars_esc:
  "parse_chars (esc_unit c @ r) = map_option (\<lambda>(t, u). (c # t, u)) (parse_chars r)"
proof -
  consider "c \<in> {8, 9, 10, 12, 13, 34, 92}"
    | "c \<notin> {8, 9, 10, 12, 13, 34, 92}" "c < 32 \<or> is_high c \<or> is_low c"
    | "c \<notin> {8, 9, 10, 12, 13, 34, 92}" "\<not> (c < 32 \<or> is_high c \<or> is_low c)"
    by blast
  then show ?thesis
  proof cases
    case 1
    then show ?thesis
      by (auto simp: esc_unit_def unescape_def)
  next
    case 2
    then have "c < 65536" by (auto simp: is_high_def is_low_def)
    with 2 show ?thesis by (simp add: esc_unit_def hex4_hex_digits)
  next
    case 3
    then show ?thesis by (simp add: esc_unit_def)
  qed
qed

lemma parse_chars_plain:
  "32 \<le> c \<Longrightarrow> c \<noteq> 34 \<Longrightarrow> c \<noteq> 92 \<Longrightarrow>
     parse_chars (c # r) = map_option (\<lambda>(t, u). (c # t, u)) (parse_chars r)"
  by simp

declare parse_chars.simps(2) [simp del]

lemma parse_chars_quote: "parse_chars (quote_chars s @ 34 # r) = Some (s, r)"
proof (induction s rule: quote_chars.induct)
  case 1
  then show ?case by (simp add: parse_chars.simps(2))
next
  case (2 c)
  then show ?case by (simp add: parse_chars_esc parse_chars.simps(2))
next
  case (3 c d s)
  show ?case
  proof (cases "is_high c \<and> is_low d")
    case True
    then have "32 \<le> c" "c \<noteq> 34" "c \<noteq> 92" "32 \<le> d" "d \<noteq> 34" "d \<noteq> 92"
      by (auto simp: is_high_def is_low_def)
    with True "3.IH"(1) show ?thesis by (simp add: parse_chars_plain)
  next
    case False
    have "quote_chars (c # d # s) = esc_unit c @ quote_chars (d # s)"
      by (simp only: quote_chars.simps False if_False)
    with False "3.IH"(2) show ?thesis by (simp only: append_assoc parse_chars_esc) simp
  qed
qed

text \<open>\<open>num_stop r\<close>: a number literal in front of the text \<open>r\<close> ends there.\<close>

definition num_stop :: "jstring \<Rightarrow> bool" where
  "num_stop r = (case r of [] \<Rightarrow> True | c # _ \<Rightarrow> \<not> is_digit c \<and> c \<noteq> 46 \<and> c \<noteq> 101 \<and> c \<noteq> 69)"

definition num_shape :: "jstring \<Rightarrow> jstring \<Rightarrow> jstring \<Rightarrow> bool" where
  "num_shape i f x \<longleftrightarrow>
     (i = [48] \<or> (i \<noteq> [] \<and> list_all is_digit i \<and> hd i \<noteq> 48)) \<and>
     (f = [] \<or> (\<exists>g. f = 46 # g \<and> g \<noteq> [] \<and> list_all is_digit g)) \<and>
     (x = [] \<or> (\<exists>a u. x = 101 # a # u \<and> (a = 43 \<or> a = 45) \<and> u \<noteq> [] \<and> list_all is_digit u))"

lemma takeWhile_stop [simp]:
  "num_stop r \<Longrightarrow> takeWhile is_digit r = []" "num_stop r \<Longrightarrow> dropWhile is_digit r = r"
  by (auto simp: num_stop_def split: list.splits)

lemma parse_num_exp:
  assumes "num_shape i f x" and "num_stop r"
  shows "(case x @ r of
              c # t \<Rightarrow>
                (if c = 101 \<or> c = 69 then
                   (let (g, u) = (case t of
                        a # v \<Rightarrow> (if a = 43 \<or> a = 45 then ([a], v) else ([], t)) | [] \<Rightarrow> ([], t))
                    in (c # g @ takeWhile is_digit u, dropWhile is_digit u))
                 else ([], x @ r))
            | [] \<Rightarrow> ([], x @ r)) = (x, r)"
proof (cases "x = []")
  case True
  then show ?thesis using assms(2) by (cases r) (simp_all add: num_stop_def)
next
  case False
  then obtain a u where "x = 101 # a # u" "a = 43 \<or> a = 45" "u \<noteq> []" "list_all is_digit u"
    using assms(1) by (auto simp: num_shape_def)
  then show ?thesis using assms(2) by auto
qed

lemma parse_num_frac:
  assumes "num_shape i f x" and "num_stop r"
  shows "(case f @ x @ r of
              c # t \<Rightarrow> (if c = 46 then (46 # takeWhile is_digit t, dropWhile is_digit t) else ([], f @ x @ r))
            | [] \<Rightarrow> ([], f @ x @ r)) = (f, x @ r)"
proof -
  have "takeWhile is_digit (x @ r) = [] \<and> dropWhile is_digit (x @ r) = x @ r"
    using assms by (auto simp: num_shape_def is_digit_def [of 101])
  then show ?thesis
    using assms by (auto simp: num_shape_def num_stop_def split: list.splits)
qed

lemma parse_num_int:
  assumes "num_shape i f x" and "num_stop r"
  shows "(case i @ f @ x @ r of
      c # t \<Rightarrow> (if c = 48 then [48] else takeWhile is_digit (i @ f @ x @ r)) | [] \<Rightarrow> []) = i"
proof -
  have "takeWhile is_digit (f @ x @ r) = []"
    using assms by (auto simp: num_shape_def is_digit_def [of 101] is_digit_def [of 46])
  then show ?thesis
    using assms by (cases i) (auto simp: num_shape_def)
qed

lemma parse_num_slices:
  assumes sh: "num_shape i f x" and st: "num_stop r" and sg: "sg = [] \<or> sg = [45]"
  shows "parse_num (sg @ i @ f @ x @ r) = Some (parse_signed (sg @ i @ f @ x), r)"
proof -
  have i: "i \<noteq> []" "hd i \<noteq> 45"
    using sh by (cases i; auto simp: num_shape_def is_digit_def)+
  have s1: "(case sg @ i @ f @ x @ r of c # t \<Rightarrow> (if c = 45 then ([45], t) else ([], sg @ i @ f @ x @ r))
      | [] \<Rightarrow> ([], sg @ i @ f @ x @ r)) = (sg, i @ f @ x @ r)"
    using sg i by (cases i) auto
  have ok: "f \<noteq> [46]" "x = [] \<or> is_digit (last x)"
    using sh by (auto simp: num_shape_def list_all_iff)
  have dr: "drop (length i) (i @ f @ x @ r) = f @ x @ r" by simp
  show ?thesis
    unfolding parse_num_def s1 Let_def prod.case parse_num_int [OF sh st] dr
      parse_num_frac [OF sh st] parse_num_exp [OF sh st, unfolded Let_def]
    using i ok by auto
qed

lemma hd_nat_str: "0 < n \<Longrightarrow> hd (nat_str n) \<noteq> 48"
proof (induction n rule: nat_str.induct)
  case (1 n)
  then show ?case
    by (cases "n < 10") (simp_all add: nat_str.simps [of n] div_greater_zero_iff)
qed

lemma format_digits_shape:
  assumes "list_all is_digit d" and "d \<noteq> []" and "hd d \<noteq> 48"
  shows "\<exists>i f x. format_digits d n = i @ f @ x \<and> num_shape i f x"
proof -
  let ?k = "int (length d)"
  let ?x = "101 # (if 0 \<le> n - 1 then 43 else 45) # nat_str (nat \<bar>n - 1\<bar>)"
  have x: "\<exists>a u. ?x = 101 # a # u \<and> (a = 43 \<or> a = 45) \<and> u \<noteq> [] \<and> list_all is_digit u"
    by simp
  consider (int) "?k \<le> n" "n \<le> 21" | (point) "0 < n" "n < ?k" "n \<le> 21"
    | (small) "- 6 < n" "n \<le> 0" | (exp1) "n \<le> - 6 \<or> 21 < n" "?k = 1"
    | (exp) "n \<le> - 6 \<or> 21 < n" "?k > 1"
    using assms(2) by (cases d) fastforce+
  then show ?thesis
  proof cases
    case int
    then have "format_digits d n = (d @ zeros (n - ?k)) @ [] @ []"
      by (simp add: format_digits_def)
    moreover have "num_shape (d @ zeros (n - ?k)) [] []"
      using assms by (simp add: num_shape_def)
    ultimately show ?thesis by blast
  next
    case point
    then have "format_digits d n = take (nat n) d @ (46 # drop (nat n) d) @ []"
      by (simp add: format_digits_def)
    moreover have "num_shape (take (nat n) d) (46 # drop (nat n) d) []"
      using assms point by (simp add: num_shape_def hd_take)
    ultimately show ?thesis by blast
  next
    case small
    then have "format_digits d n = [48] @ (46 # zeros (- n) @ d) @ []"
      using assms(2) by (simp add: format_digits_def) (cases d; simp)
    moreover have "num_shape [48] (46 # zeros (- n) @ d) []"
      using assms by (simp add: num_shape_def)
    ultimately show ?thesis by blast
  next
    case exp1
    then have "format_digits d n = d @ [] @ ?x"
      by (auto simp: format_digits_def Let_def)
    moreover have "num_shape d [] ?x"
      using assms x by (simp add: num_shape_def)
    ultimately show ?thesis by blast
  next
    case exp
    then have "format_digits d n = take 1 d @ (46 # drop 1 d) @ ?x"
      by (auto simp: format_digits_def Let_def)
    moreover have "num_shape (take 1 d) (46 # drop 1 d) ?x"
      using assms exp x by (simp add: num_shape_def hd_take)
    ultimately show ?thesis by blast
  qed
qed

lemma pos_str_shape:
  assumes "is_double x" and "0 < x"
  shows "\<exists>i f e. pos_str x = i @ f @ e \<and> num_shape i f e"
proof -
  obtain s k where sk: "shortest 1400 1 x = Some (s, k)"
    using shortest_total assms by blast
  have k: "1 \<le> k" and c: "s \<in> set (candidates k x)"
    using shortest_sound [OF sk] by auto
  have "0 < s"
    using candidates_bounds [OF assms(2) k c] by (metis gr0I not_one_le_zero one_le_power one_le_numeral order.trans)
  then have "hd (take k (nat_str s)) \<noteq> 48"
    using k by (simp add: hd_take hd_nat_str)
  moreover have "list_all is_digit (take k (nat_str s))" "take k (nat_str s) \<noteq> []"
    using k by auto
  ultimately show ?thesis
    using format_digits_shape
    by (simp add: pos_str_def sk Let_def del: One_nat_def)
qed

lemma parse_signed_num_str:
  assumes "wf_num x"
  shows "parse_signed (num_str x) = x"
proof (cases x)
  case (Fin q)
  have "Number_of_string (num_str x) = x"
    using assms by (rule Number_num_str)
  moreover have "Number_of_string (num_str x) = parse_signed (num_str x)"
  proof -
    consider "q = 0" | "0 < q" | "q < 0" by linarith
    then show ?thesis
    proof cases
      case 1
      then show ?thesis
        using Number_of_printed [of 48 "[]"] by (simp add: Fin num_str_def js_simps is_digit_def)
    next
      case 2
      then show ?thesis
        using pos_str_parts [of q] assms Fin Number_of_printed
        by (auto simp: num_str_def wf_num_def)
    next
      case 3
      then show ?thesis
        using pos_str_parts [of "- q"] assms Fin Number_of_printed [of 45] is_double_uminus
        by (auto simp: num_str_def wf_num_def)
    qed
  qed
  ultimately show ?thesis by simp
qed (simp_all add: num_str_def parse_signed_def js_simps parse_decimal_def is_digit_def)

lemma parse_num_num_str:
  assumes "wf_num x" and "is_finite x" and "num_stop r"
  shows "parse_num (num_str x @ r) = Some (x, r)"
proof -
  obtain q where q: "x = Fin q" using assms(2) by (cases x) (auto simp: is_finite_def)
  have "\<exists>sg i f e. num_str x = sg @ i @ f @ e \<and> num_shape i f e \<and> (sg = [] \<or> sg = [45])"
  proof -
    consider "q = 0" | "0 < q" | "q < 0" by linarith
    then show ?thesis
    proof cases
      case 1
      then have "num_str x = [] @ [48] @ [] @ []" by (simp add: q num_str_def js_simps)
      moreover have "num_shape [48] [] []" by (simp add: num_shape_def)
      ultimately show ?thesis by blast
    next
      case 2
      then show ?thesis
        using pos_str_shape [of q] assms(1) by (fastforce simp: q num_str_def wf_num_def)
    next
      case 3
      then obtain i f e where "pos_str (- q) = i @ f @ e" "num_shape i f e"
        using pos_str_shape [of "- q"] assms(1) is_double_uminus by (fastforce simp: q wf_num_def)
      with 3 have "num_str x = [45] @ i @ f @ e" by (simp add: q num_str_def)
      with \<open>num_shape i f e\<close> show ?thesis by blast
    qed
  qed
  then obtain sg i f e where s: "num_str x = sg @ i @ f @ e" and "num_shape i f e" "sg = [] \<or> sg = [45]"
    by blast
  with assms(3) have "parse_num (num_str x @ r) = Some (parse_signed (num_str x), r)"
    by (simp add: parse_num_slices)
  with assms(1) show ?thesis by (simp add: parse_signed_num_str)
qed
subsection \<open>A value and its text\<close>

text \<open>
  \<open>json_ok v\<close>: the value survives a trip through its JSON text, that is, it has no
  \<open>undefined\<close> and no number that is not finite, and its objects list their
  properties in enumeration order.
\<close>

fun json_ok :: "jsval \<Rightarrow> bool" where
  "json_ok Undef = False"
| "json_ok (Num x) = (wf_num x \<and> is_finite x)"
| "json_ok (Arr vs) = list_all json_ok vs"
| "json_ok (Obj ps) = (obj_of_pairs (map (\<lambda>p. (fst p, ())) ps) = map (\<lambda>p. (fst p, ())) ps \<and>
     list_all (\<lambda>p. json_ok (snd p)) ps)"
| "json_ok _ = True"

definition json_text :: "jsval \<Rightarrow> jstring" where
  "json_text v = (case JSON_stringify v of None \<Rightarrow> [] | Some t \<Rightarrow> t)"

lemma json_ok_stringify: "json_ok v \<Longrightarrow> JSON_stringify v = Some (json_text v)"
  by (cases v) (simp_all add: json_text_def)

lemma json_text_Arr:
  assumes "list_all json_ok vs"
  shows "json_text (Arr vs) = [91] @ join [44] (map json_text vs) @ [93]"
proof -
  have "map (\<lambda>v. case JSON_stringify v of None \<Rightarrow> js ''null'' | Some t \<Rightarrow> t) vs = map json_text vs"
    using assms by (induction vs) (auto simp: json_ok_stringify)
  then show ?thesis
    by (simp only: json_text_def [of "Arr vs"] JSON_stringify.simps option.case)
qed

lemma json_text_Obj:
  assumes "list_all (\<lambda>p. json_ok (snd p)) ps"
  shows "json_text (Obj ps) =
     [123] @ join [44] (map (\<lambda>p. JSON_quote (fst p) @ [58] @ json_text (snd p)) ps) @ [125]"
proof -
  have "concat (map (\<lambda>p. case JSON_stringify (snd p) of
              None \<Rightarrow> [] | Some t \<Rightarrow> [JSON_quote (fst p) @ [58] @ t]) ps) =
      map (\<lambda>p. JSON_quote (fst p) @ [58] @ json_text (snd p)) ps"
    using assms by (induction ps) (auto simp: json_ok_stringify)
  then show ?thesis
    by (simp only: json_text_def [of "Obj ps"] JSON_stringify.simps option.case)
qed

text \<open>A JSON text starts with a character that is neither white space nor a closing bracket.\<close>

lemma num_str_hd: "wf_num x \<Longrightarrow> is_finite x \<Longrightarrow> \<exists>c t. num_str x = c # t \<and> (is_digit c \<or> c = 45)"
proof (cases x)
  case (Fin q)
  assume "wf_num x"
  then have d: "is_double q" "is_double (- q)"
    using Fin is_double_uminus by (auto simp: wf_num_def)
  consider "q = 0" | "0 < q" | "q < 0" by linarith
  then show ?thesis
  proof cases
    case 2
    then show ?thesis
      using pos_str_parts [of q] d Fin by (auto simp: num_str_def)
  qed (simp_all add: Fin num_str_def js_simps is_digit_def)
qed (simp_all add: is_finite_def)

lemma json_text_hd:
  assumes "json_ok v"
  shows "\<exists>c t. json_text v = c # t \<and> c \<noteq> 32 \<and> c \<noteq> 9 \<and> c \<noteq> 10 \<and> c \<noteq> 13 \<and> c \<noteq> 93 \<and> c \<noteq> 125"
proof (cases v)
  case (Num x)
  then show ?thesis
    using num_str_hd [of x] assms by (auto simp: json_text_def is_digit_def)
qed (use assms in \<open>simp_all add: json_text_def JSON_quote_def js_simps\<close>)

lemma skip_ws_id: "c \<noteq> 32 \<Longrightarrow> c \<noteq> 9 \<Longrightarrow> c \<noteq> 10 \<Longrightarrow> c \<noteq> 13 \<Longrightarrow> skip_ws (c # s) = c # s"
  by simp

lemma skip_ws_text: "json_ok v \<Longrightarrow> skip_ws (json_text v @ r) = json_text v @ r"
  using json_text_hd [of v] by auto

lemma join_length: "xs \<noteq> [] \<Longrightarrow> length (join [c] (x # xs)) = length x + 1 + length (join [c] xs)"
  by (simp add: join_Cons)

text \<open>The three parsers on printed text, with the fuel that suffices.\<close>

lemma parse_elems_text:
  assumes "vs \<noteq> []" and "list_all json_ok vs"
    and "\<And>v n r. v \<in> set vs \<Longrightarrow> 2 * length (json_text v) + 1 \<le> n \<Longrightarrow> num_stop r \<Longrightarrow>
        parse_value n (json_text v @ r) = Some (v, r)"
    and "2 * length (join [44] (map json_text vs)) + 2 \<le> n"
  shows "parse_elems n (join [44] (map json_text vs) @ 93 # r) = Some (vs, r)"
  using assms
proof (induction vs arbitrary: n)
  case (Cons v vs)
  obtain m where n: "n = Suc m" using Cons.prems(4) by (cases n) auto
  have stop: "num_stop (93 # r)" "num_stop (44 # s)" for s
    by (simp_all add: num_stop_def is_digit_def)
  show ?case
  proof (cases "vs = []")
    case True
    have "parse_value m (json_text v @ 93 # r) = Some (v, 93 # r)"
      using Cons.prems(4) True n stop by (intro Cons.prems(3)) auto
    then show ?thesis by (simp add: True n)
  next
    case False
    let ?rest = "join [44] (map json_text vs) @ 93 # r"
    have len: "length (join [44] (map json_text (v # vs))) =
        length (json_text v) + 1 + length (join [44] (map json_text vs))"
      using False by (simp add: join_Cons)
    have "parse_value m (json_text v @ 44 # ?rest) = Some (v, 44 # ?rest)"
      using Cons.prems(4) len n stop by (intro Cons.prems(3)) auto
    moreover have "parse_elems m ?rest = Some (vs, r)"
      using Cons.prems len n False by (intro Cons.IH) auto
    ultimately show ?thesis
      using False by (simp add: n join_Cons)
  qed
qed simp

lemma parse_members_text:
  assumes "ps \<noteq> []" and "list_all (\<lambda>p. json_ok (snd p)) ps"
    and "\<And>p n r. p \<in> set ps \<Longrightarrow> 2 * length (json_text (snd p)) + 1 \<le> n \<Longrightarrow> num_stop r \<Longrightarrow>
        parse_value n (json_text (snd p) @ r) = Some (snd p, r)"
    and "2 * length (join [44] (map (\<lambda>p. JSON_quote (fst p) @ [58] @ json_text (snd p)) ps)) + 2 \<le> n"
  shows "parse_members n (join [44] (map (\<lambda>p. JSON_quote (fst p) @ [58] @ json_text (snd p)) ps) @ 125 # r) =
      Some (ps, r)"
  using assms
proof (induction ps arbitrary: n)
  case (Cons p ps)
  let ?t = "\<lambda>p. JSON_quote (fst p) @ [58] @ json_text (snd p)"
  obtain m where n: "n = Suc m" using Cons.prems(4) by (cases n) auto
  have stop: "num_stop (125 # r)" "num_stop (44 # s)" for s
    by (simp_all add: num_stop_def is_digit_def)
  have pc: "parse_chars (quote_chars (fst p) @ 34 # 58 # s) = Some (fst p, 58 # s)" for s
    by (rule parse_chars_quote)
  show ?case
  proof (cases "ps = []")
    case True
    have "parse_value m (json_text (snd p) @ 125 # r) = Some (snd p, 125 # r)"
      using Cons.prems(4) True n stop by (intro Cons.prems(3)) auto
    then show ?thesis by (simp add: True n JSON_quote_def pc)
  next
    case False
    let ?rest = "join [44] (map ?t ps) @ 125 # r"
    have len: "length (join [44] (map ?t (p # ps))) = length (?t p) + 1 + length (join [44] (map ?t ps))"
      using False by (simp add: join_Cons)
    have "parse_value m (json_text (snd p) @ 44 # ?rest) = Some (snd p, 44 # ?rest)"
      using Cons.prems(4) len n stop by (intro Cons.prems(3)) auto
    moreover have "parse_members m ?rest = Some (ps, r)"
      using Cons.prems len n False by (intro Cons.IH) auto
    ultimately show ?thesis
      using False by (simp add: n join_Cons JSON_quote_def pc)
  qed
qed simp

text \<open>The enumeration order of an object does not depend on the values.\<close>

lemma key_insert_map:
  "map (\<lambda>p. (fst p, ())) (obj_insert k v ps) = obj_insert k () (map (\<lambda>p. (fst p, ())) ps)"
  by (induction k v ps rule: obj_insert.induct) auto

lemma obj_insert_cong:
  assumes "map fst (obj_insert k v ps) = map fst ps @ [k]"
  shows "obj_insert k v ps = ps @ [(k, v)]"
  using assms
proof (induction k v ps rule: obj_insert.induct)
  case (2 k v l w ps)
  show ?case
  proof (cases "key_before k l")
    case True
    with "2.prems" have "k = l" by simp
    with True show ?thesis by (auto simp: key_before_def split: option.splits)
  next
    case False
    with 2 show ?thesis by simp
  qed
qed simp

lemma keys_obj_put_unit:
  "map (\<lambda>p. (fst p, ())) (obj_put k v ps) = obj_put k () (map (\<lambda>p. (fst p, ())) ps)"
proof -
  have e: "map_of (map (\<lambda>p. (fst p, ())) ps) k = None \<longleftrightarrow> map_of ps k = None"
    by (simp add: map_of_eq_None_iff image_image)
  have "map (\<lambda>p. (fst p, ())) (obj_replace k v ps) = obj_replace k () (map (\<lambda>p. (fst p, ())) ps)"
    by (induction k v ps rule: obj_replace.induct) auto
  with e show ?thesis by (simp add: obj_put_def key_insert_map)
qed

lemma keys_obj_of_pairs_unit:
  "map (\<lambda>p. (fst p, ())) (obj_of_pairs ps) = obj_of_pairs (map (\<lambda>p. (fst p, ())) ps)"
proof -
  have "map (\<lambda>p. (fst p, ())) (foldl (\<lambda>o' (k, v). obj_put k v o') acc ps) =
      foldl (\<lambda>o' (k, v). obj_put k v o') (map (\<lambda>p. (fst p, ())) acc) (map (\<lambda>p. (fst p, ())) ps)" for acc
    by (induction ps arbitrary: acc) (auto simp: keys_obj_put_unit split: prod.splits)
  from this [of "[]"] show ?thesis by (simp add: obj_of_pairs_def)
qed

lemma map_of_rev: "distinct (map fst ps) \<Longrightarrow> map_of (rev ps) = map_of ps"
  by (rule map_of_eqI) (auto simp: rev_map [symmetric] intro: map_of_eq_Some_iff [THEN iffD2])

lemma map_of_keys_eq:
  "map_of ps = map_of qs \<Longrightarrow> map fst ps = map fst qs \<Longrightarrow> distinct (map fst qs) \<Longrightarrow> ps = qs"
proof (induction ps arbitrary: qs)
  case (Cons p ps)
  then obtain q rs where qs: "qs = q # rs" by (cases qs) auto
  have f: "fst p = fst q" and k: "map fst ps = map fst rs" and d: "fst q \<notin> set (map fst rs)"
    using Cons.prems by (auto simp: qs)
  have "snd p = snd q"
    using Cons.prems(1) f by (metis fun_upd_same map_of.simps(2) option.inject qs)
  moreover have "map_of ps = map_of rs"
  proof
    fix x
    show "map_of ps x = map_of rs x"
    proof (cases "x = fst q")
      case True
      then show ?thesis using d k by (metis map_of_eq_None_iff set_map)
    next
      case False
      then show ?thesis using Cons.prems(1) f by (simp add: qs fun_eq_iff) metis
    qed
  qed
  ultimately show ?case
    using Cons.IH [of rs] Cons.prems k f by (auto simp: qs prod_eq_iff)
qed simp

lemma obj_of_pairs_canonical:
  assumes "obj_of_pairs (map (\<lambda>p. (fst p, ())) ps) = map (\<lambda>p. (fst p, ())) ps"
  shows "obj_of_pairs ps = ps"
proof -
  have u: "map (\<lambda>p. (fst p, ())) (obj_of_pairs ps) = map (\<lambda>p. (fst p, ())) ps"
    using assms by (simp only: keys_obj_of_pairs_unit)
  have "map fst (map (\<lambda>p. (fst p, ())) (obj_of_pairs ps)) = map fst (map (\<lambda>p. (fst p, ())) ps)"
    by (simp only: u)
  then have keys: "map fst (obj_of_pairs ps) = map fst ps"
    by (simp add: comp_def)
  have d: "distinct (map fst ps)"
    using distinct_obj_of_pairs [of ps] by (simp only: keys)
  then have "map_of (obj_of_pairs ps) = map_of ps"
    by (simp add: map_of_obj_of_pairs map_of_rev)
  then show ?thesis
    using keys d by (rule map_of_keys_eq)
qed

lemma parse_value_text:
  "json_ok v \<Longrightarrow> 2 * length (json_text v) + 1 \<le> n \<Longrightarrow> num_stop r \<Longrightarrow>
     parse_value n (json_text v @ r) = Some (v, r)"
proof (induction v arbitrary: n r)
  case (Num x)
  obtain m where n: "n = Suc m" using Num.prems(2) by (cases n) auto
  obtain c t where ct: "num_str x = c # t" "is_digit c \<or> c = 45"
    using num_str_hd [of x] Num.prems(1) by auto
  have "parse_num (c # t @ r) = Some (x, r)"
    using parse_num_num_str [of x r] Num.prems ct by simp
  with ct Num.prems(1) show ?case
    by (auto simp: n json_text_def is_digit_def starts_with_def js_simps)
next
  case (Str s)
  then obtain m where "n = Suc m" by (cases n) auto
  then show ?case by (simp add: json_text_def JSON_quote_def parse_chars_quote)
next
  case (Arr vs)
  have ok: "list_all json_ok vs" using Arr.prems(1) by simp
  obtain m where n: "n = Suc m" using Arr.prems(2) by (cases n) auto
  show ?case
  proof (cases "vs = []")
    case True
    then show ?thesis by (simp add: n json_text_def)
  next
    case False
    let ?j = "join [44] (map json_text vs)"
    have "parse_elems m (?j @ 93 # r) = Some (vs, r)"
      using Arr.prems(2) n False ok
      by (intro parse_elems_text Arr.IH) (auto simp: json_text_Arr list_all_iff)
    moreover obtain v ws where vs: "vs = v # ws" using False by (cases vs) auto
    obtain c t where ct: "json_text v = c # t" "c \<noteq> 32" "c \<noteq> 9" "c \<noteq> 10" "c \<noteq> 13" "c \<noteq> 93"
      using json_text_hd [of v] ok vs by auto
    have "\<exists>u. ?j @ 93 # r = c # u"
      using vs ct(1) by (cases ws) auto
    then have "skip_ws (?j @ 93 # r) = ?j @ 93 # r" "\<exists>u. ?j @ 93 # r = c # u"
      using ct by auto
    ultimately show ?thesis
      using ct ok by (auto simp: n json_text_Arr)
  qed
next
  case (Obj ps)
  have ok: "list_all (\<lambda>p. json_ok (snd p)) ps" and can: "obj_of_pairs ps = ps"
    using Obj.prems(1) obj_of_pairs_canonical by auto
  obtain m where n: "n = Suc m" using Obj.prems(2) by (cases n) auto
  show ?case
  proof (cases "ps = []")
    case True
    then show ?thesis by (simp add: n json_text_def)
  next
    case False
    let ?j = "join [44] (map (\<lambda>p. JSON_quote (fst p) @ [58] @ json_text (snd p)) ps)"
    have "parse_members m (?j @ 125 # r) = Some (ps, r)"
      using Obj.prems(2) n False ok
      by (intro parse_members_text Obj.IH) (auto simp: json_text_Obj list_all_iff snds.simps)
    moreover obtain p qs where ps: "ps = p # qs" using False by (cases ps) auto
    have "\<exists>u. ?j @ 125 # r = 34 # u"
      using ps by (cases qs) (auto simp: JSON_quote_def)
    then have "skip_ws (?j @ 125 # r) = ?j @ 125 # r" "\<exists>u. ?j @ 125 # r = 34 # u"
      by auto
    ultimately show ?thesis
      using ok can by (auto simp: n json_text_Obj)
  qed
next
  case Null
  then obtain m where "n = Suc m" by (cases n) auto
  then show ?case by (simp add: json_text_def js_simps starts_with_def)
next
  case (Bool b)
  then obtain m where "n = Suc m" by (cases n) auto
  then show ?case by (cases b) (simp_all add: json_text_def js_simps starts_with_def)
qed simp

lemma JSON_parse_stringify:
  assumes "json_ok v"
  shows "JSON_stringify v = Some (json_text v) \<and> JSON_parse (json_text v) = Some v"
proof -
  have "parse_value (2 * length (json_text v) + 2) (json_text v @ []) = Some (v, [])"
    using assms by (intro parse_value_text) (auto simp: num_stop_def)
  then show ?thesis
    using assms by (simp add: json_ok_stringify JSON_parse_def)
qed

subsection \<open>Enumeration order\<close>

text \<open>\<open>in_order ps\<close>: the properties are in the order in which they are enumerated.\<close>

definition in_order :: "(jstring \<times> 'v) list \<Rightarrow> bool" where
  "in_order ps \<longleftrightarrow> distinct (map fst ps) \<and> sorted_wrt (\<lambda>p q. \<not> key_before (fst q) (fst p)) ps"

lemma key_before_trans: "key_before k l \<Longrightarrow> key_before l m \<Longrightarrow> key_before k m"
  by (auto simp: key_before_def split: option.splits)

lemma key_before_irrefl: "\<not> key_before k k"
  by (simp add: key_before_def split: option.splits)

lemma obj_insert_last: "\<forall>q \<in> set ps. \<not> key_before k (fst q) \<Longrightarrow> obj_insert k v ps = ps @ [(k, v)]"
  by (induction k v ps rule: obj_insert.induct) auto

lemma in_order_insert:
  assumes "in_order ps" and "k \<notin> fst ` set ps"
  shows "in_order (obj_insert k v ps)"
proof -
  have "sorted_wrt (\<lambda>p q. \<not> key_before (fst q) (fst p)) ps \<Longrightarrow>
      sorted_wrt (\<lambda>p q. \<not> key_before (fst q) (fst p)) (obj_insert k v ps)"
  proof (induction k v ps rule: obj_insert.induct)
    case (2 k v l w ps)
    have s: "fst ` set (obj_insert k v ps) = insert k (fst ` set ps)"
      using keys_obj_insert [of k v ps] by simp
    have "\<forall>q \<in> set (obj_insert k v ps). \<not> key_before (fst q) l" if "\<not> key_before k l"
      using 2(2) that s by (metis (no_types, lifting) fst_conv image_iff insertE sorted_wrt.simps(2))
    moreover have "\<not> key_before l k" "\<forall>q \<in> set ps. \<not> key_before (fst q) k" if "key_before k l"
      using 2(2) that key_before_trans [of _ k l] key_before_irrefl [of l] key_before_trans [of l k l] by auto
    ultimately show ?case using 2 by auto
  qed simp
  then show ?thesis
    using assms distinct_obj_insert [of k ps v] by (simp add: in_order_def)
qed

lemma in_order_keys:
  "in_order ps \<longleftrightarrow> distinct (map fst ps) \<and> sorted_wrt (\<lambda>k l. \<not> key_before l k) (map fst ps)"
  by (simp add: in_order_def sorted_wrt_map)

lemma in_order_replace: "in_order ps \<Longrightarrow> in_order (obj_replace k v ps)"
  by (simp only: in_order_keys keys_obj_replace)

lemma in_order_put: "in_order ps \<Longrightarrow> in_order (obj_put k v ps)"
  by (simp add: obj_put_def in_order_insert in_order_replace map_of_eq_None_iff)

lemma in_order_obj_of_pairs: "in_order (obj_of_pairs ps)"
proof -
  have "in_order acc \<Longrightarrow> in_order (foldl (\<lambda>o' (k, v). obj_put k v o') acc ps)" for acc
    by (induction ps arbitrary: acc) (auto simp: in_order_put)
  then show ?thesis by (simp add: obj_of_pairs_def in_order_def)
qed

lemma obj_of_pairs_in_order: "in_order ps \<Longrightarrow> obj_of_pairs ps = ps"
proof (induction ps rule: rev_induct)
  case (snoc p ps)
  then have "in_order ps" "fst p \<notin> fst ` set ps" "\<forall>q \<in> set ps. \<not> key_before (fst p) (fst q)"
    by (auto simp: in_order_def sorted_wrt_append)
  then show ?case
    using snoc.IH obj_insert_last [of ps "fst p" "snd p"]
    by (cases p) (simp add: obj_of_pairs_def obj_put_def map_of_eq_None_iff)
qed (simp add: obj_of_pairs_def)

lemma json_ok_Obj: "json_ok (Obj ps) \<longleftrightarrow> in_order ps \<and> list_all (\<lambda>p. json_ok (snd p)) ps"
proof -
  let ?u = "map (\<lambda>p. (fst p, ())) ps"
  have "in_order ps = in_order ?u"
    by (simp add: in_order_def comp_def sorted_wrt_map)
  then show ?thesis
    using in_order_obj_of_pairs [of ?u] obj_of_pairs_in_order [of ?u] by auto
qed

lemma set_obj_put: "set (obj_put k v ps) \<subseteq> insert (k, v) (set ps)"
proof -
  have "set (obj_insert k v ps) \<subseteq> insert (k, v) (set ps)"
    by (induction k v ps rule: obj_insert.induct) auto
  moreover have "set (obj_replace k v ps) \<subseteq> insert (k, v) (set ps)"
    by (induction k v ps rule: obj_replace.induct) auto
  ultimately show ?thesis by (simp add: obj_put_def)
qed

lemma json_ok_put: "json_ok (Obj ps) \<Longrightarrow> json_ok v \<Longrightarrow> json_ok (Obj (obj_put k v ps))"
  using set_obj_put [of k v ps] unfolding json_ok_Obj by (auto simp: in_order_put list_all_iff)

end
