(* ===== verification/HttpStatusRules.thy ===== *)
theory HttpStatusRules
  imports JS_Json
begin

text \<open>
  \<open>lib/http-status-code-rules.ts\<close>: the rule strings with which an administrator
  selects HTTP status codes (\<open>"401, 500-503"\<close>).  The text is split at commas, each
  segment is a code or a range of codes, and the ranges are sorted and merged into
  a normal form.  The lemmas show that the normal form is sorted, separated and in
  bounds, that it covers exactly the codes of the segments, and that it parses to
  itself.
\<close>

subsection \<open>Definitions\<close>

record StatusCodeRange =
  range_start :: nat
  range_end :: nat

record ParsedHttpStatusCodeRules =
  ok :: bool
  ranges :: "StatusCodeRange list"
  tokens :: "jstring list"
  normalized :: jstring
  invalidTokens :: "jstring list"

definition isNumber :: "jstring \<Rightarrow> bool" where
  "isNumber s \<longleftrightarrow> s \<noteq> [] \<and> list_all is_digit s"

text \<open>
  \<open>Number.parseInt\<close> of a string of digits is read exactly: rounding to a double only
  moves values beyond \<open>2 ^ 53\<close>, and keeps them there or makes them infinite, which
  the bound rejects either way.
\<close>

definition isValidCode :: "nat \<Rightarrow> bool" where
  "isValidCode code \<longleftrightarrow> 100 \<le> code \<and> code \<le> 599"

definition parseToken :: "jstring \<Rightarrow> StatusCodeRange option" where
  "parseToken token =
     (let cleaned = filter (\<lambda>c. \<not> is_ws c) (trim token) in
      if cleaned = [] then None
      else if str_includes cleaned [45] then
        (let parts = split_chr 45 cleaned; a = parts ! 0; b = parts ! 1 in
         if \<not> isNumber a \<or> \<not> isNumber b then None
         else
           (let s = digits_val a; e = digits_val b in
            if \<not> isValidCode s \<or> \<not> isValidCode e \<or> e < s then None
            else Some \<lparr>range_start = s, range_end = e\<rparr>))
      else if \<not> isNumber cleaned then None
      else
        (let code = digits_val cleaned in
         if \<not> isValidCode code then None
         else Some \<lparr>range_start = code, range_end = code\<rparr>))"

definition range_le :: "StatusCodeRange \<Rightarrow> StatusCodeRange \<Rightarrow> bool" where
  "range_le a b \<longleftrightarrow>
     (if range_start a \<noteq> range_start b then range_start a \<le> range_start b
      else range_end a \<le> range_end b)"

definition merge_step :: "StatusCodeRange list \<Rightarrow> StatusCodeRange \<Rightarrow> StatusCodeRange list" where
  "merge_step merged current =
     (if merged = [] \<or> range_end (last merged) + 1 < range_start current
      then merged @ [current]
      else butlast merged @
        [(last merged)\<lparr>range_end := max (range_end (last merged)) (range_end current)\<rparr>])"

definition mergeRanges :: "StatusCodeRange list \<Rightarrow> StatusCodeRange list" where
  "mergeRanges rs = (if rs = [] then [] else foldl merge_step [] (sort_by range_le rs))"

definition range_token :: "StatusCodeRange \<Rightarrow> jstring" where
  "range_token r =
     (if range_start r = range_end r then nat_str (range_start r)
      else nat_str (range_start r) @ [45] @ nat_str (range_end r))"

definition rule_segments :: "jstring \<Rightarrow> jstring list" where
  "rule_segments raw =
     filter nonempty (map trim (split_chr 44 (map (\<lambda>c. if c = 65292 then 44 else c) raw)))"

definition raw_rules :: "jsval \<Rightarrow> jstring" where
  "raw_rules input = trim (if input = Undef \<or> input = Null then [] else to_str input)"

definition parseHttpStatusCodeRules :: "jsval \<Rightarrow> ParsedHttpStatusCodeRules" where
  "parseHttpStatusCodeRules input =
     (let raw = raw_rules input in
      if raw = [] then
        \<lparr>ok = True, ranges = [], tokens = [], normalized = [], invalidTokens = []\<rparr>
      else
        (let segments = rule_segments raw;
             invalid = filter (\<lambda>s. parseToken s = None) segments;
             rs = List.map_filter parseToken segments
         in if invalid \<noteq> [] then
              \<lparr>ok = False, ranges = [], tokens = [], normalized = raw, invalidTokens = invalid\<rparr>
            else
              (let merged = mergeRanges rs; ts = map range_token merged
               in \<lparr>ok = True, ranges = merged, tokens = ts, normalized = join [44] ts,
                   invalidTokens = []\<rparr>)))"

subsection \<open>Merging\<close>

text \<open>
  \<open>separated\<close> is the normal form: ascending ranges with a gap between neighbours;
  \<open>covers rs c\<close> says that a list of ranges contains the code \<open>c\<close>.
\<close>

definition separated :: "StatusCodeRange list \<Rightarrow> bool" where
  "separated rs \<longleftrightarrow> sorted_wrt (\<lambda>a b. range_end a + 1 < range_start b) rs"

definition covers :: "StatusCodeRange list \<Rightarrow> nat \<Rightarrow> bool" where
  "covers rs c \<longleftrightarrow> (\<exists>r \<in> set rs. range_start r \<le> c \<and> c \<le> range_end r)"

definition in_bounds :: "StatusCodeRange \<Rightarrow> bool" where
  "in_bounds r \<longleftrightarrow> 100 \<le> range_start r \<and> range_start r \<le> range_end r \<and> range_end r \<le> 599"

lemma range_le_total: "range_le a b \<or> range_le b a"
  by (auto simp: range_le_def)

lemma range_le_trans: "range_le a b \<Longrightarrow> range_le b c \<Longrightarrow> range_le a c"
  by (auto simp: range_le_def split: if_splits)

lemma range_le_start: "range_le a b \<Longrightarrow> range_start a \<le> range_start b"
  by (auto simp: range_le_def split: if_splits)

lemma sorted_ranges: "sorted_wrt range_le (sort_by range_le rs)"
  by (rule sorted_sort_by) (use range_le_total range_le_trans in blast)+

lemma separated_snoc:
  "separated (rs @ [r]) \<longleftrightarrow> separated rs \<and> (\<forall>a \<in> set rs. range_end a + 1 < range_start r)"
  by (auto simp: separated_def sorted_wrt_append)

text \<open>One step of the reduction: the range is absorbed by the last one or appended.\<close>

lemma merge_step_separated:
  assumes "separated m" and "\<forall>r \<in> set m. range_start r \<le> range_start x \<and> range_start r \<le> range_end r"
  shows "separated (merge_step m x)"
proof (cases m rule: rev_cases)
  case (snoc m' l)
  show ?thesis
  proof (cases "range_end l + 1 < range_start x")
    case True
    have "range_end a + 1 < range_start x" if "a \<in> set m'" for a
    proof -
      have "range_end a + 1 < range_start l"
        using assms(1) that snoc by (simp add: separated_snoc)
      also have "\<dots> \<le> range_start x" using assms(2) snoc by simp
      finally show ?thesis .
    qed
    then have "\<forall>a \<in> set m. range_end a + 1 < range_start x"
      using True snoc by auto
    moreover have "merge_step m x = m @ [x]"
      using True snoc by (simp add: merge_step_def)
    ultimately show ?thesis
      using assms(1) by (simp add: separated_snoc)
  next
    case False
    with assms(1) snoc show ?thesis
      by (simp add: merge_step_def separated_snoc)
  qed
qed (simp add: merge_step_def separated_def)

lemma merge_step_covers:
  assumes "\<forall>r \<in> set m. range_start r \<le> range_start x \<and> range_start r \<le> range_end r"
    and "range_start x \<le> range_end x"
  shows "covers (merge_step m x) c \<longleftrightarrow> covers m c \<or> covers [x] c"
proof (cases m rule: rev_cases)
  case (snoc m' l)
  have "range_start l \<le> range_start x" "range_start l \<le> range_end l"
    using assms(1) snoc by auto
  with assms(2) snoc show ?thesis
    by (auto simp: merge_step_def covers_def)
qed (simp add: merge_step_def covers_def)

lemma merge_step_bounds:
  assumes "\<forall>r \<in> set m. P r" and "P x"
    and "\<And>r. r \<in> set m \<Longrightarrow> P (r\<lparr>range_end := max (range_end r) (range_end x)\<rparr>)"
  shows "\<forall>r \<in> set (merge_step m x). P r"
  using assms by (cases m rule: rev_cases) (auto simp: merge_step_def)

lemma fold_merge:
  assumes "sorted_wrt (\<lambda>a b. range_start a \<le> range_start b) xs"
    and "\<forall>x \<in> set xs. in_bounds x" and "\<forall>r \<in> set m. in_bounds r"
    and "\<forall>r \<in> set m. \<forall>x \<in> set xs. range_start r \<le> range_start x" and "separated m"
  shows "separated (foldl merge_step m xs) \<and> (\<forall>r \<in> set (foldl merge_step m xs). in_bounds r) \<and>
     (\<forall>c. covers (foldl merge_step m xs) c \<longleftrightarrow> covers m c \<or> covers xs c)"
  using assms
proof (induction xs arbitrary: m)
  case Nil
  then show ?case by (simp add: covers_def)
next
  case (Cons x xs)
  let ?m = "merge_step m x"
  have pre: "\<forall>r \<in> set m. range_start r \<le> range_start x \<and> range_start r \<le> range_end r"
    using Cons.prems by (auto simp: in_bounds_def)
  have x: "range_start x \<le> range_end x" using Cons.prems by (auto simp: in_bounds_def)
  have b: "\<forall>r \<in> set ?m. in_bounds r"
    using Cons.prems by (intro merge_step_bounds) (auto simp: in_bounds_def)
  have le: "\<forall>r \<in> set ?m. \<forall>y \<in> set xs. range_start r \<le> range_start y"
    using Cons.prems by (intro merge_step_bounds) auto
  have s: "separated ?m" using Cons.prems(5) pre by (rule merge_step_separated)
  have "covers ?m c \<longleftrightarrow> covers m c \<or> covers [x] c" for c
    using pre x by (rule merge_step_covers)
  with Cons.IH [of ?m] Cons.prems b le s show ?case
    by (auto simp: covers_def)
qed

lemma mergeRanges_correct:
  assumes "\<forall>r \<in> set rs. in_bounds r"
  shows "separated (mergeRanges rs) \<and> (\<forall>r \<in> set (mergeRanges rs). in_bounds r) \<and>
     (\<forall>c. covers (mergeRanges rs) c \<longleftrightarrow> covers rs c)"
proof -
  have "sorted_wrt (\<lambda>a b. range_start a \<le> range_start b) (sort_by range_le rs)"
    using sorted_ranges by (rule sorted_wrt_mono_rel [rotated]) (rule range_le_start)
  then show ?thesis
    using assms fold_merge [of "sort_by range_le rs" "[]"]
    by (auto simp: mergeRanges_def covers_def separated_def)
qed

lemma merge_separated: "separated (m @ xs) \<Longrightarrow> foldl merge_step m xs = m @ xs"
proof (induction xs arbitrary: m)
  case (Cons x xs)
  have "merge_step m x = m @ [x]"
    using Cons.prems by (cases m rule: rev_cases) (auto simp: merge_step_def separated_def sorted_wrt_append)
  with Cons show ?case by simp
qed simp

lemma separated_range_le:
  assumes "separated rs" and "\<forall>r \<in> set rs. in_bounds r"
  shows "sorted_wrt range_le rs"
  using assms by (induction rs) (fastforce simp: separated_def range_le_def in_bounds_def)+

lemma mergeRanges_id:
  assumes "separated rs" and "\<forall>r \<in> set rs. in_bounds r"
  shows "mergeRanges rs = rs"
  using assms merge_separated [of "[]" rs]
  by (simp add: mergeRanges_def sort_by_sorted separated_range_le)

subsection \<open>Tokens\<close>

lemma isNumber_nat_str [simp]: "isNumber (nat_str n)"
  using nat_str_digits by (simp add: isNumber_def list_all_iff)

lemma filter_no_ws: "\<forall>c \<in> set s. \<not> is_ws c \<Longrightarrow> filter (\<lambda>c. \<not> is_ws c) (trim s) = s"
  by (simp add: trim_no_ws filter_id_conv)

lemma nat_str_no_dash: "45 \<notin> set (nat_str n)"
  using nat_str_digits [of n] by (auto simp: is_digit_def)

lemma range_token_chars: "\<forall>c \<in> set (range_token r). is_digit c \<or> c = 45"
  using nat_str_digits by (auto simp: range_token_def)

lemma range_token_no_ws: "\<forall>c \<in> set (range_token r). \<not> is_ws c"
  using range_token_chars [of r] by (auto simp: is_ws_def is_digit_def)

lemma range_token_not_Nil [simp]: "range_token r \<noteq> []"
  by (simp add: range_token_def)

lemma trim_range_token [simp]: "trim (range_token r) = range_token r"
  using range_token_no_ws by (rule trim_no_ws)

lemma parseToken_range_token:
  assumes "in_bounds r"
  shows "parseToken (range_token r) = Some r"
proof -
  let ?s = "range_start r" and ?e = "range_end r"
  have v: "isValidCode ?s" "isValidCode ?e" "\<not> ?e < ?s"
    using assms by (auto simp: in_bounds_def isValidCode_def)
  have c: "filter (\<lambda>c. \<not> is_ws c) (trim (range_token r)) = range_token r"
    using range_token_no_ws by (rule filter_no_ws)
  have r: "r = \<lparr>range_start = ?s, range_end = ?e\<rparr>" by simp
  show ?thesis
  proof (cases "?s = ?e")
    case True
    have "\<not> str_includes (nat_str ?s) [45]"
      using nat_str_no_dash [of ?s] by (auto simp: str_includes_iff)
    with c v True show ?thesis
      by (subst (2) r) (simp add: parseToken_def range_token_def Let_def)
  next
    case False
    have "split_chr 45 (nat_str ?s @ 45 # nat_str ?e) = [nat_str ?s, nat_str ?e]"
      by (simp add: split_chr_append split_chr_free nat_str_no_dash)
    moreover have "str_includes (nat_str ?s @ 45 # nat_str ?e) [45]"
      by (auto simp: str_includes_iff)
    ultimately show ?thesis
      using c v False by (simp add: parseToken_def range_token_def Let_def)
  qed
qed

lemma parseToken_bounds: "parseToken t = Some r \<Longrightarrow> in_bounds r"
  by (auto simp: parseToken_def Let_def in_bounds_def isValidCode_def split: if_splits)

lemma map_filter_bounds: "r \<in> set (List.map_filter parseToken ss) \<Longrightarrow> in_bounds r"
  by (auto simp: List.map_filter_def parseToken_bounds)

lemma covers_map_filter:
  "covers (List.map_filter parseToken ss) c \<longleftrightarrow>
     (\<exists>s \<in> set ss. \<exists>r. parseToken s = Some r \<and> range_start r \<le> c \<and> c \<le> range_end r)"
  by (force simp: covers_def List.map_filter_def)

text \<open>Segments of a printed rule list: splitting undoes the join.\<close>

lemma rule_segments_tokens:
  assumes "rs \<noteq> []"
  shows "rule_segments (join [44] (map range_token rs)) = map range_token rs"
proof -
  let ?ts = "map range_token rs"
  have f: "\<forall>x \<in> set ?ts. 44 \<notin> set x" and g: "\<forall>x \<in> set ?ts. 65292 \<notin> set x"
    using range_token_chars by (force simp: is_digit_def)+
  have m: "map (\<lambda>c. if c = 65292 then 44 else c) (join [44] ts) = join [44] ts"
    if "\<forall>x \<in> set ts. 65292 \<notin> set x" for ts :: "jstring list"
    using that by (induction "[44 :: nat]" ts rule: join.induct) (auto intro!: map_idI)
  have "split_chr 44 (join [44] ?ts) = ?ts"
    using f assms by (intro split_chr_join) auto
  then show ?thesis
    by (simp add: rule_segments_def m [OF g] comp_def filter_id_conv)
qed

lemma trimmed_join_tokens: "rs \<noteq> [] \<Longrightarrow> trim (join [44] (map range_token rs)) = join [44] (map range_token rs)"
proof -
  have "\<forall>c \<in> set (join [44] ts). \<not> is_ws c" if "\<forall>t \<in> set ts. \<forall>c \<in> set t. \<not> is_ws c"
    for ts :: "jstring list"
    using that by (induction "[44 :: nat]" ts rule: join.induct) (auto simp: is_ws_def [of 44])
  from this [of "map range_token rs"] have "\<forall>c \<in> set (join [44] (map range_token rs)). \<not> is_ws c"
    using range_token_no_ws by auto
  then show ?thesis
    by (rule trim_no_ws)
qed

lemma join_tokens_not_Nil: "rs \<noteq> [] \<Longrightarrow> join [44] (map range_token rs) \<noteq> []"
  by (simp add: join_eq_Nil map_eq_Cons_conv)

lemma map_filter_tokens:
  "\<forall>r \<in> set rs. in_bounds r \<Longrightarrow> List.map_filter parseToken (map range_token rs) = rs"
  by (induction rs) (simp_all add: parseToken_range_token List.map_filter_simps)

lemma parse_normal_form:
  assumes "separated rs" and "\<forall>r \<in> set rs. in_bounds r"
  shows "parseHttpStatusCodeRules (Str (join [44] (map range_token rs))) =
     \<lparr>ok = True, ranges = rs, tokens = map range_token rs,
      normalized = join [44] (map range_token rs), invalidTokens = []\<rparr>"
proof (cases "rs = []")
  case True
  then show ?thesis by (simp add: parseHttpStatusCodeRules_def raw_rules_def)
next
  case False
  have "filter (\<lambda>s. parseToken s = None) (map range_token rs) = []"
    using assms(2) by (auto simp: filter_empty_conv parseToken_range_token)
  with False assms show ?thesis
    by (simp add: parseHttpStatusCodeRules_def raw_rules_def Let_def trimmed_join_tokens rule_segments_tokens
        join_tokens_not_Nil map_filter_tokens mergeRanges_id)
qed

subsection \<open>Properties\<close>

lemma parse_ok_valid: "ok (parseHttpStatusCodeRules input) \<Longrightarrow> invalidTokens (parseHttpStatusCodeRules input) = []"
  by (simp add: parseHttpStatusCodeRules_def Let_def split: if_splits)

lemma parse_ok_ranges:
  assumes "ok (parseHttpStatusCodeRules input)"
  shows "separated (ranges (parseHttpStatusCodeRules input)) \<and>
    (\<forall>r \<in> set (ranges (parseHttpStatusCodeRules input)). in_bounds r) \<and>
    tokens (parseHttpStatusCodeRules input) = map range_token (ranges (parseHttpStatusCodeRules input)) \<and>
    normalized (parseHttpStatusCodeRules input) = join [44] (tokens (parseHttpStatusCodeRules input)) \<and>
    (\<forall>c. covers (ranges (parseHttpStatusCodeRules input)) c \<longleftrightarrow>
       covers (List.map_filter parseToken (rule_segments (raw_rules input))) c)"
proof (cases "raw_rules input = []")
  case True
  then show ?thesis
    by (simp add: parseHttpStatusCodeRules_def Let_def separated_def covers_def
        rule_segments_def List.map_filter_simps)
next
  case False
  let ?rs = "List.map_filter parseToken (rule_segments (raw_rules input))"
  have "separated (mergeRanges ?rs) \<and> (\<forall>r \<in> set (mergeRanges ?rs). in_bounds r) \<and>
     (\<forall>c. covers (mergeRanges ?rs) c \<longleftrightarrow> covers ?rs c)"
    using map_filter_bounds by (intro mergeRanges_correct) blast
  with False assms show ?thesis
    by (auto simp: parseHttpStatusCodeRules_def Let_def split: if_splits)
qed

text \<open>
  C13: a rule string that is accepted is returned as a normal form.  Its ranges are
  ascending with a gap between neighbours, every range is non-empty and lies in
  100..599, there are no invalid tokens, and the normalized text is the list of
  the printed ranges.
\<close>

theorem rules_normal_form:
  assumes "ok (parseHttpStatusCodeRules input)"
  shows "sorted_wrt (\<lambda>a b. range_end a + 1 < range_start b) (ranges (parseHttpStatusCodeRules input)) \<and>
    (\<forall>r \<in> set (ranges (parseHttpStatusCodeRules input)).
      100 \<le> range_start r \<and> range_start r \<le> range_end r \<and> range_end r \<le> 599) \<and>
    invalidTokens (parseHttpStatusCodeRules input) = [] \<and>
    tokens (parseHttpStatusCodeRules input) = map range_token (ranges (parseHttpStatusCodeRules input)) \<and>
    normalized (parseHttpStatusCodeRules input) = join [44] (tokens (parseHttpStatusCodeRules input))"
  using parse_ok_ranges [OF assms] parse_ok_valid [OF assms] by (simp add: separated_def in_bounds_def)

theorem rules_normal_form_witness:
  "ok (parseHttpStatusCodeRules (Str (js ''502-599, 401,500-503''))) \<and>
   ranges (parseHttpStatusCodeRules (Str (js ''502-599, 401,500-503''))) =
     [\<lparr>range_start = 401, range_end = 401\<rparr>, \<lparr>range_start = 500, range_end = 599\<rparr>] \<and>
   normalized (parseHttpStatusCodeRules (Str (js ''502-599, 401,500-503''))) =
     join [44] (tokens (parseHttpStatusCodeRules (Str (js ''502-599, 401,500-503''))))"
proof -
  have h: "ok (parseHttpStatusCodeRules (Str (js ''502-599, 401,500-503'')))" by code_simp
  have r: "ranges (parseHttpStatusCodeRules (Str (js ''502-599, 401,500-503''))) =
     [\<lparr>range_start = 401, range_end = 401\<rparr>, \<lparr>range_start = 500, range_end = 599\<rparr>]" by code_simp
  show ?thesis using h r rules_normal_form [OF h] by blast
qed

text \<open>
  C14: an accepted rule string selects exactly the codes that one of its comma
  separated segments selects; sorting and merging lose and add nothing.
\<close>

theorem rules_cover:
  assumes "ok (parseHttpStatusCodeRules input)"
  shows "(\<exists>r \<in> set (ranges (parseHttpStatusCodeRules input)). range_start r \<le> c \<and> c \<le> range_end r) \<longleftrightarrow>
    (\<exists>s \<in> set (rule_segments (raw_rules input)). \<exists>r. parseToken s = Some r \<and> range_start r \<le> c \<and> c \<le> range_end r)"
  using parse_ok_ranges [OF assms] by (simp add: covers_map_filter [symmetric]) (simp add: covers_def)

theorem rules_cover_witness:
  "ok (parseHttpStatusCodeRules (Str (js ''429,500-503''))) \<and>
   (\<exists>r \<in> set (ranges (parseHttpStatusCodeRules (Str (js ''429,500-503'')))). range_start r \<le> 502 \<and> 502 \<le> range_end r)"
proof -
  have h: "ok (parseHttpStatusCodeRules (Str (js ''429,500-503'')))" by code_simp
  have "parseToken (js ''500-503'') = Some \<lparr>range_start = 500, range_end = 503\<rparr>" by code_simp
  moreover have "rule_segments (raw_rules (Str (js ''429,500-503''))) = [js ''429'', js ''500-503'']"
    by code_simp
  ultimately show ?thesis using h rules_cover [OF h, of 502] by auto
qed

text \<open>
  C24: the normalized text of an accepted rule string is accepted again and gives
  back the same result, so saving and reloading the setting changes nothing.
\<close>

theorem rules_normalized_roundtrip:
  assumes "ok (parseHttpStatusCodeRules input)"
  shows "parseHttpStatusCodeRules (Str (normalized (parseHttpStatusCodeRules input))) =
    parseHttpStatusCodeRules input"
proof -
  let ?p = "parseHttpStatusCodeRules input"
  have i: "invalidTokens ?p = []"
    using assms by (rule parse_ok_valid)
  have "?p = \<lparr>ok = True, ranges = ranges ?p, tokens = map range_token (ranges ?p),
      normalized = join [44] (map range_token (ranges ?p)), invalidTokens = []\<rparr>"
    using parse_ok_ranges [OF assms] assms i by simp
  then show ?thesis
    using parse_ok_ranges [OF assms] parse_normal_form [of "ranges ?p"] by (metis (no_types))
qed

theorem rules_normalized_roundtrip_witness:
  "ok (parseHttpStatusCodeRules (Str (js '' 500 - 502 ,503,404''))) \<and>
   normalized (parseHttpStatusCodeRules (Str (js '' 500 - 502 ,503,404''))) = js ''404,500-503'' \<and>
   parseHttpStatusCodeRules (Str (js ''404,500-503'')) =
     parseHttpStatusCodeRules (Str (js '' 500 - 502 ,503,404''))"
proof -
  have h: "ok (parseHttpStatusCodeRules (Str (js '' 500 - 502 ,503,404'')))" by code_simp
  have n: "normalized (parseHttpStatusCodeRules (Str (js '' 500 - 502 ,503,404''))) = js ''404,500-503''"
    by code_simp
  show ?thesis using h n rules_normalized_roundtrip [OF h] by simp
qed

subsection \<open>What is accepted\<close>

text \<open>
  The rules of the language, blanks removed: \<open>rule_text w m n\<close> says that \<open>w\<close> denotes the
  codes from \<open>m\<close> to \<open>n\<close>.  What follows a second dash is of no account.
\<close>

definition code_text :: "jstring \<Rightarrow> nat \<Rightarrow> bool" where
  "code_text w n \<longleftrightarrow> w \<noteq> [] \<and> (\<forall>c \<in> set w. 48 \<le> c \<and> c \<le> 57) \<and> digits_val w = n \<and> 100 \<le> n \<and> n \<le> 599"

inductive rule_text :: "jstring \<Rightarrow> nat \<Rightarrow> nat \<Rightarrow> bool" where
  single: "code_text w n \<Longrightarrow> rule_text w n n"
| range: "code_text a m \<Longrightarrow> code_text b n \<Longrightarrow> m \<le> n \<Longrightarrow> rule_text (a @ [45] @ b) m n"
| trailing: "code_text a m \<Longrightarrow> code_text b n \<Longrightarrow> m \<le> n \<Longrightarrow> rule_text (a @ [45] @ b @ [45] @ rest) m n"

definition without_blanks :: "jstring \<Rightarrow> jstring" where
  "without_blanks s = filter (\<lambda>c. \<not> is_ws c) s"

lemma trim_blanks: "filter (\<lambda>c. \<not> is_ws c) (trim s) = without_blanks s"
proof -
  have d: "filter (\<lambda>c. \<not> is_ws c) (dropWhile is_ws t) = filter (\<lambda>c. \<not> is_ws c) t" for t by (induction t) simp_all
  have "rev (filter (\<lambda>c. \<not> is_ws c) (rev (dropWhile is_ws (rev t)))) = rev (filter (\<lambda>c. \<not> is_ws c) t)" for t
    unfolding rev_filter using d [of "rev t"] by (simp add: rev_filter)
  then show ?thesis using d [of s] by (simp add: trim_def without_blanks_def)
qed

lemma code_text_iff: "code_text w n \<longleftrightarrow> isNumber w \<and> digits_val w = n \<and> isValidCode n"
  by (auto simp: code_text_def isNumber_def isValidCode_def list_all_iff is_digit_def)

lemma code_no_dash: "code_text w n \<Longrightarrow> 45 \<notin> set w"
  by (auto simp: code_text_def)

lemma dash_split:
  assumes "str_includes w [45]"
  obtains a b rest where "split_chr 45 w = a # b # rest" and "45 \<notin> set a" and "45 \<notin> set b" and "w = join [45] (a # b # rest)"
proof -
  have "split_chr 45 w \<noteq> [w]" using assms by (auto simp: split_chr_free_iff str_includes_iff)
  moreover have "join [45] (split_chr 45 w) = w" by simp
  ultimately obtain a b rest where s: "split_chr 45 w = a # b # rest"
    by (metis join.simps(2) list.exhaust split_chr_not_Nil)
  have "w = join [45] (a # b # rest)" using join_split_chr [of 45 w] unfolding s by (rule sym)
  moreover have "45 \<notin> set a" "45 \<notin> set b" using split_chr_parts [of _ 45 w] unfolding s by simp_all
  ultimately show thesis using that s by blast
qed

lemma rule_text_sound:
  assumes "rule_text (without_blanks s) m n"
  shows "parseToken s = Some \<lparr>range_start = m, range_end = n\<rparr>"
  using assms
proof cases
  case single
  then have "\<not> str_includes (without_blanks s) [45]" "without_blanks s \<noteq> []"
    using code_no_dash by (auto simp: str_includes_iff code_text_def)
  then show ?thesis using single by (simp add: parseToken_def trim_blanks code_text_iff Let_def)
next
  case (range a b)
  then have "split_chr 45 (without_blanks s) = [a, b]" "str_includes (without_blanks s) [45]"
    using code_no_dash [of a m] code_no_dash [of b n] by (auto simp: split_chr_append split_chr_free str_includes_iff)
  then show ?thesis using range by (auto simp: parseToken_def trim_blanks code_text_iff Let_def)
next
  case (trailing a b rest)
  then have "split_chr 45 (without_blanks s) = a # b # split_chr 45 rest" "str_includes (without_blanks s) [45]"
    using code_no_dash [of a m] code_no_dash [of b n] by (auto simp: split_chr_append str_includes_iff)
  then show ?thesis using trailing by (auto simp: parseToken_def trim_blanks code_text_iff Let_def)
qed

lemma rule_text_complete:
  assumes "parseToken s = Some \<lparr>range_start = m, range_end = n\<rparr>"
  shows "rule_text (without_blanks s) m n"
proof (cases "str_includes (without_blanks s) [45]")
  case False
  then show ?thesis
    using assms by (auto simp: parseToken_def trim_blanks Let_def code_text_iff split: if_splits intro!: single)
next
  case True
  then obtain a b rest where w: "split_chr 45 (without_blanks s) = a # b # rest" "without_blanks s = join [45] (a # b # rest)"
    by (rule dash_split)
  have c: "code_text a m" "code_text b n" "m \<le> n"
    using assms True w(1) by (auto simp: parseToken_def trim_blanks Let_def code_text_iff split: if_splits)
  show ?thesis
    using rule_text.range [OF c] rule_text.trailing [OF c] w(2) by (cases rest) simp_all
qed

lemma accepted_iff: "parseToken s = None \<longleftrightarrow> \<not> (\<exists>m n. rule_text (without_blanks s) m n)"
proof
  assume "parseToken s = None"
  then show "\<not> (\<exists>m n. rule_text (without_blanks s) m n)" using rule_text_sound by fastforce
next
  assume n: "\<not> (\<exists>m n. rule_text (without_blanks s) m n)"
  show "parseToken s = None"
  proof (rule ccontr)
    assume "parseToken s \<noteq> None"
    then obtain r where "parseToken s = Some r" by blast
    then show False using rule_text_complete [of s "range_start r" "range_end r"] n by simp
  qed
qed

text \<open>
  C25: a rule string is rejected exactly when one of its segments, blanks removed, is
  neither a code between 100 and 599 nor two such codes in order with a dash between
  them (text from a second dash on is ignored); the result then names those segments
  in order, selects no code, and keeps the trimmed input as its text.
\<close>

theorem rules_rejected:
  "(ok (parseHttpStatusCodeRules input) \<longleftrightarrow>
     (\<forall>s \<in> set (rule_segments (raw_rules input)). \<exists>m n. rule_text (without_blanks s) m n)) \<and>
   invalidTokens (parseHttpStatusCodeRules input) =
     filter (\<lambda>s. \<not> (\<exists>m n. rule_text (without_blanks s) m n)) (rule_segments (raw_rules input)) \<and>
   (\<not> ok (parseHttpStatusCodeRules input) \<longrightarrow>
     ranges (parseHttpStatusCodeRules input) = [] \<and> tokens (parseHttpStatusCodeRules input) = [] \<and>
     normalized (parseHttpStatusCodeRules input) = raw_rules input)"
proof -
  have a: "(\<exists>m n. rule_text (without_blanks s) m n) = (parseToken s \<noteq> None)" for s using accepted_iff [of s] by auto
  show ?thesis
    unfolding a not_not
    by (cases "raw_rules input = []") (auto simp: parseHttpStatusCodeRules_def Let_def filter_empty_conv rule_segments_def)
qed

theorem rules_rejected_witness:
  "\<not> ok (parseHttpStatusCodeRules (Str (js ''404,600,abc''))) \<and>
   \<not> (\<exists>m n. rule_text (without_blanks (js ''600'')) m n) \<and>
   ranges (parseHttpStatusCodeRules (Str (js ''404,600,abc''))) = []"
proof -
  let ?p = "parseHttpStatusCodeRules (Str (js ''404,600,abc''))"
  have h: "\<not> ok ?p" by code_simp
  have "invalidTokens ?p = [js ''600'', js ''abc'']" by code_simp
  then have "js ''600'' \<in> set (filter (\<lambda>s. \<not> (\<exists>m n. rule_text (without_blanks s) m n)) (rule_segments (raw_rules (Str (js ''404,600,abc'')))))"
    using rules_rejected [of "Str (js ''404,600,abc'')"] by auto
  then show ?thesis using h rules_rejected [of "Str (js ''404,600,abc'')"] by auto
qed

text \<open>
  A segment with more than one dash is accepted: only its first two parts are read,
  and what follows the second dash is ignored.
\<close>

lemma parseToken_ignores_rest:
  "parseToken (js ''200-299-abc'') = Some \<lparr>range_start = 200, range_end = 299\<rparr>"
  by code_simp

end
