(* ===== verification/JS_Regex.thy ===== *)
theory JS_Regex
  imports JS_Strings
begin

text \<open>
  The regular expressions of the source, with the backtracking semantics of the
  language.  \<open>ms r st\<close> lists, in the order in which the matcher tries them, every
  way in which the expression \<open>r\<close> can match from the state \<open>st\<close>; the match that
  \<open>exec\<close> reports is the first one.  A state is the text behind (reversed), the
  text ahead, and the captured groups.  A greedy repetition tries one more
  iteration first, does not accept an iteration that consumes nothing, and
  forgets at each iteration what the groups inside it captured before.
\<close>

named_theorems full_simps \<open>evaluation of an expression between \<^verbatim>\<open>^\<close> and \<^verbatim>\<open>$\<close>\<close>

type_synonym caps = "nat \<rightharpoonup> jstring"
type_synonym rstate = "jstring \<times> jstring \<times> caps"

datatype re =
    Eps
  | Cls "nat \<Rightarrow> bool"
  | Seq re re
  | Alt re re
  | Star re
  | Opt re
  | Grp nat re
  | BRef nat
  | Bol
  | Eol
  | WordB

definition is_word :: "nat \<Rightarrow> bool" where
  "is_word c \<longleftrightarrow> is_digit c \<or> (65 \<le> c \<and> c \<le> 90) \<or> (97 \<le> c \<and> c \<le> 122) \<or> c = 95"

definition word_at :: "jstring \<Rightarrow> bool" where
  "word_at s = (case s of [] \<Rightarrow> False | c # _ \<Rightarrow> is_word c)"

primrec groups :: "re \<Rightarrow> nat list" where
  "groups Eps = []"
| "groups (Cls p) = []"
| "groups (Seq a b) = groups a @ groups b"
| "groups (Alt a b) = groups a @ groups b"
| "groups (Star a) = groups a"
| "groups (Opt a) = groups a"
| "groups (Grp i a) = i # groups a"
| "groups (BRef i) = []"
| "groups Bol = []"
| "groups Eol = []"
| "groups WordB = []"

definition forget :: "nat list \<Rightarrow> rstate \<Rightarrow> rstate" where
  "forget gs st = (case st of (pre, s, c) \<Rightarrow> (pre, s, foldl (\<lambda>m i. m(i := None)) c gs))"

definition ahead :: "rstate \<Rightarrow> jstring" where
  "ahead st = fst (snd st)"

text \<open>
  \<open>iter n f st\<close>: at most \<open>n\<close> greedy iterations of the matcher \<open>f\<close>.  Each iteration
  consumes at least one code unit, so as many iterations as there are code units
  ahead are enough.
\<close>

primrec iter :: "nat \<Rightarrow> (rstate \<Rightarrow> rstate list) \<Rightarrow> rstate \<Rightarrow> rstate list" where
  "iter 0 f st = [st]"
| "iter (Suc n) f st =
     concat (map (\<lambda>st'. if length (ahead st') < length (ahead st) then iter n f st' else []) (f st)) @ [st]"

primrec ms :: "re \<Rightarrow> rstate \<Rightarrow> rstate list" where
  "ms Eps st = [st]"
| "ms (Cls p) st =
     (case st of (pre, s, c) \<Rightarrow>
        (case s of [] \<Rightarrow> [] | x # t \<Rightarrow> if p x then [(x # pre, t, c)] else []))"
| "ms (Seq a b) st = concat (map (ms b) (ms a st))"
| "ms (Alt a b) st = ms a st @ ms b st"
| "ms (Star a) st = iter (length (ahead st)) (\<lambda>u. ms a (forget (groups a) u)) st"
| "ms (Opt a) st =
     filter (\<lambda>u. length (ahead u) < length (ahead st)) (ms a (forget (groups a) st)) @ [st]"
| "ms (Grp i a) st =
     map (\<lambda>(pre, s, c). (pre, s, c(i \<mapsto> take (length (ahead st) - length s) (ahead st)))) (ms a st)"
| "ms (BRef i) st =
     (case st of (pre, s, c) \<Rightarrow>
        (case c i of
           None \<Rightarrow> [st]
         | Some w \<Rightarrow> if prefix w s then [(rev w @ pre, drop (length w) s, c)] else []))"
| "ms Bol st = (if fst st = [] then [st] else [])"
| "ms Eol st = (if ahead st = [] then [st] else [])"
| "ms WordB st = (if word_at (fst st) \<noteq> word_at (ahead st) then [st] else [])"

text \<open>Derived expressions: one or more, a literal string, a choice of several.\<close>

definition Plus :: "re \<Rightarrow> re" where
  "Plus r = Seq r (Star r)"

definition Chr :: "nat \<Rightarrow> re" where
  "Chr c = Cls (\<lambda>x. x = c)"

fun Lit :: "jstring \<Rightarrow> re" where
  "Lit [] = Eps"
| "Lit (c # s) = Seq (Chr c) (Lit s)"

fun Seqs :: "re list \<Rightarrow> re" where
  "Seqs [] = Eps"
| "Seqs [r] = r"
| "Seqs (r # rs) = Seq r (Seqs rs)"

fun Alts :: "re list \<Rightarrow> re" where
  "Alts [] = Cls (\<lambda>_. False)"
| "Alts [r] = r"
| "Alts (r # rs) = Alt r (Alts rs)"

text \<open>
  \<open>match_at r pre s\<close> is the first match from the position between \<open>pre\<close> and \<open>s\<close>: the
  captures, with group 0 the whole match, and the text on both sides of its end.
  \<open>exec_from\<close> moves the start to the right until there is a match (\<open>exec\<close> from
  \<open>lastIndex\<close>), \<open>re_test\<close> is \<open>test\<close> and \<open>re_match\<close> is \<open>s.match(r)\<close> without the
  global flag.
\<close>

definition match_at :: "re \<Rightarrow> jstring \<Rightarrow> jstring \<Rightarrow> rstate option" where
  "match_at r pre s =
     (case ms (Grp 0 r) (pre, s, Map.empty) of [] \<Rightarrow> None | st # _ \<Rightarrow> Some st)"

fun exec_from :: "re \<Rightarrow> jstring \<Rightarrow> jstring \<Rightarrow> rstate option" where
  "exec_from r pre [] = match_at r pre []"
| "exec_from r pre (x # s) =
     (case match_at r pre (x # s) of None \<Rightarrow> exec_from r (x # pre) s | Some st \<Rightarrow> Some st)"

definition re_match :: "re \<Rightarrow> jstring \<Rightarrow> caps option" where
  "re_match r s = map_option (\<lambda>st. snd (snd st)) (exec_from r [] s)"

definition re_test :: "re \<Rightarrow> jstring \<Rightarrow> bool" where
  "re_test r s = (exec_from r [] s \<noteq> None)"

text \<open>
  \<open>exec_all n r pre s\<close> is the loop \<open>while ((m = re.exec(s)) !== null)\<close> of a global
  expression: it continues behind each match, and \<open>None\<close> is the loop that does not
  end because a match is empty.
\<close>

fun exec_all :: "nat \<Rightarrow> re \<Rightarrow> jstring \<Rightarrow> jstring \<Rightarrow> caps list option" where
  "exec_all 0 r pre s = None"
| "exec_all (Suc n) r pre s =
     (case exec_from r pre s of
        None \<Rightarrow> Some []
      | Some (pre', s', c) \<Rightarrow>
          if c 0 = Some [] then None else map_option (\<lambda>cs. c # cs) (exec_all n r pre' s'))"

definition re_exec_all :: "re \<Rightarrow> jstring \<Rightarrow> caps list option" where
  "re_exec_all r s = exec_all (Suc (length s)) r [] s"

text \<open>
  \<open>re_split r s\<close> is \<open>s.split(r)\<close> for an expression without groups that does not match
  the empty string: the text is cut where a match starts, from left to right.
\<close>

fun split_from :: "nat \<Rightarrow> re \<Rightarrow> jstring \<Rightarrow> jstring \<Rightarrow> jstring \<Rightarrow> jstring list" where
  "split_from 0 r pre cur s = [cur @ s]"
| "split_from (Suc n) r pre cur s =
     (case s of
        [] \<Rightarrow> [cur]
      | x # s1 \<Rightarrow>
          (case match_at r pre s of
             Some (pre', s', c) \<Rightarrow>
               if length s' < length s then cur # split_from n r pre' [] s'
               else split_from n r (x # pre) (cur @ [x]) s1
           | None \<Rightarrow> split_from n r (x # pre) (cur @ [x]) s1))"

definition re_split :: "re \<Rightarrow> jstring \<Rightarrow> jstring list" where
  "re_split r s = split_from (Suc (length s)) r [] [] s"

text \<open>
  \<open>re_replace r w s\<close> is \<open>s.replace(r, w)\<close> with the global flag, for an expression that does
  not match the empty string and a replacement without \<open>$\<close>.
\<close>

fun replace_from :: "nat \<Rightarrow> re \<Rightarrow> jstring \<Rightarrow> jstring \<Rightarrow> jstring \<Rightarrow> jstring" where
  "replace_from 0 r w pre s = s"
| "replace_from (Suc n) r w pre s =
     (case s of
        [] \<Rightarrow> []
      | x # s1 \<Rightarrow>
          (case match_at r pre s of
             Some (pre', s', c) \<Rightarrow>
               if length s' < length s then w @ replace_from n r w pre' s'
               else x # replace_from n r w (x # pre) s1
           | None \<Rightarrow> x # replace_from n r w (x # pre) s1))"

definition re_replace :: "re \<Rightarrow> jstring \<Rightarrow> jstring \<Rightarrow> jstring" where
  "re_replace r w s = replace_from (length s) r w [] s"

text \<open>Classes: a digit, white space, any code unit, and the dot of an expression with no \<open>s\<close> flag.\<close>

definition any_unit :: "nat \<Rightarrow> bool" where
  "any_unit c = True"

definition no_newline :: "nat \<Rightarrow> bool" where
  "no_newline c \<longleftrightarrow> c \<noteq> 10 \<and> c \<noteq> 13 \<and> c \<noteq> 8232 \<and> c \<noteq> 8233"

subsection \<open>Matching lemmas\<close>

lemma ahead_simp [simp]: "ahead (pre, s, c) = s"
  by (simp add: ahead_def)

lemma forget_Nil [simp]: "forget [] st = st"
  by (simp add: forget_def split: prod.splits)

lemma ms_Chr [simp]:
  "ms (Chr d) (pre, s, c) = (case s of [] \<Rightarrow> [] | x # t \<Rightarrow> if x = d then [(x # pre, t, c)] else [])"
  by (simp add: Chr_def)

lemma ms_Lit:
  "ms (Lit w) (pre, s, c) = (if prefix w s then [(rev w @ pre, drop (length w) s, c)] else [])"
proof (induction w arbitrary: pre s)
  case (Cons x w)
  then show ?case by (cases s) auto
qed simp

lemma ms_Lit_append [simp]: "ms (Lit w) (pre, w @ s, c) = [(rev w @ pre, s, c)]"
  by (simp add: ms_Lit)

lemma ms_Seq_single: "ms a st = [st'] \<Longrightarrow> ms (Seq a b) st = ms b st'"
  by simp

lemma groups_Lit [simp]: "groups (Lit w) = []"
  by (induction w) (simp_all add: Chr_def)

text \<open>A greedy repetition of a class: every prefix of the run, the longest first.\<close>

definition runs :: "nat \<Rightarrow> rstate \<Rightarrow> rstate list" where
  "runs n st = (case st of (pre, s, c) \<Rightarrow>
     map (\<lambda>k. (rev (take k s) @ pre, drop k s, c)) (rev [0..<Suc n]))"

lemma runs_0 [simp]: "runs 0 st = [st]"
  by (cases st) (simp add: runs_def)

lemma runs_Suc: "runs (Suc n) (pre, x # s, c) = runs n (x # pre, s, c) @ [(pre, x # s, c)]"
proof -
  have "rev [0..<Suc (Suc n)] = map Suc (rev [0..<Suc n]) @ [0]"
    by (simp only: rev_map [symmetric] map_Suc_upt upt_conv_Cons [of 0 "Suc (Suc n)"] zero_less_Suc if_True)
       (simp add: upt_conv_Cons del: upt_Suc)
  then show ?thesis
    by (simp add: runs_def comp_def del: upt_Suc)
qed

lemma iter_Cls:
  "length s \<le> n \<Longrightarrow> iter n (\<lambda>u. ms (Cls p) u) (pre, s, c) = runs (length (takeWhile p s)) (pre, s, c)"
proof (induction n arbitrary: pre s)
  case (Suc n)
  then show ?case by (cases s) (simp_all add: runs_Suc)
qed simp

lemma ms_Star_Cls: "ms (Star (Cls p)) (pre, s, c) = runs (length (takeWhile p s)) (pre, s, c)"
  using iter_Cls [of s "length s" p pre c] by simp

lemma ms_Plus_Cls:
  "ms (Plus (Cls p)) (pre, s, c) =
     (case s of [] \<Rightarrow> [] | x # t \<Rightarrow> if p x then runs (length (takeWhile p t)) (x # pre, t, c) else [])"
  by (simp add: Plus_def ms_Star_Cls del: ms.simps(5) split: list.splits)

declare ms.simps(5) [simp del]

subsection \<open>Anchored expressions\<close>

lemma match_at_Bol: "pre \<noteq> [] \<Longrightarrow> match_at (Seq Bol r) pre s = None"
  by (simp add: match_at_def)

lemma exec_from_Bol: "pre \<noteq> [] \<Longrightarrow> exec_from (Seq Bol r) pre s = None"
  by (induction s arbitrary: pre) (simp_all add: match_at_Bol)

lemma exec_from_Bol_start: "exec_from (Seq Bol r) [] s = match_at (Seq Bol r) [] s"
  by (cases s) (auto simp: exec_from_Bol split: option.splits)

text \<open>
  The ways in which an expression matches the whole text, and the captures of the
  first of them: \<open>full r s\<close> is what an expression between \<open>^\<close> and \<open>$\<close> sees.
\<close>

definition full :: "re \<Rightarrow> rstate \<Rightarrow> caps list" where
  "full r st = map (\<lambda>u. snd (snd u)) (filter (\<lambda>u. ahead u = []) (ms r st))"

lemma concat_Eol: "concat (map (ms Eol) sts) = filter (\<lambda>u. ahead u = []) sts"
  by (induction sts) auto

lemma ms_anchored:
  "ms (Grp 0 (Seq Bol (Seq r Eol))) ([], s, c) =
     map (\<lambda>u. (fst u, [], (snd (snd u))(0 \<mapsto> s))) (filter (\<lambda>u. ahead u = []) (ms r ([], s, c)))"
proof -
  have "ms (Seq Bol (Seq r Eol)) ([], s, c) = filter (\<lambda>u. ahead u = []) (ms r ([], s, c))"
    by (simp only: ms.simps fst_conv if_True list.map concat.simps append_Nil2 concat_Eol refl)
  then show ?thesis
    by (auto simp del: ms.simps(3) simp: ahead_def)
qed

lemma re_match_anchored:
  "re_match (Seq Bol (Seq r Eol)) s =
     (case full r ([], s, Map.empty) of [] \<Rightarrow> None | c # _ \<Rightarrow> Some (c(0 \<mapsto> s)))"
  by (cases "filter (\<lambda>u. ahead u = []) (ms r ([], s, Map.empty))")
     (simp_all add: re_match_def exec_from_Bol_start match_at_def ms_anchored full_def del: ms.simps)

subsection \<open>Consumption\<close>

text \<open>\<open>min_len r\<close> is a number of code units that every match of \<open>r\<close> consumes at least.\<close>

primrec min_len :: "re \<Rightarrow> nat" where
  "min_len Eps = 0"
| "min_len (Cls p) = 1"
| "min_len (Seq a b) = min_len a + min_len b"
| "min_len (Alt a b) = min (min_len a) (min_len b)"
| "min_len (Star a) = 0"
| "min_len (Opt a) = 0"
| "min_len (Grp i a) = min_len a"
| "min_len (BRef i) = 0"
| "min_len Bol = 0"
| "min_len Eol = 0"
| "min_len WordB = 0"

text \<open>\<open>over P r\<close>: what \<open>r\<close> consumes is text of \<open>P\<close>.\<close>

primrec over :: "(nat \<Rightarrow> bool) \<Rightarrow> re \<Rightarrow> bool" where
  "over P Eps = True"
| "over P (Cls p) = (\<forall>c. p c \<longrightarrow> P c)"
| "over P (Seq a b) = (over P a \<and> over P b)"
| "over P (Alt a b) = (over P a \<and> over P b)"
| "over P (Star a) = over P a"
| "over P (Opt a) = over P a"
| "over P (Grp i a) = over P a"
| "over P (BRef i) = (\<forall>c. P c)"
| "over P Bol = True"
| "over P Eol = True"
| "over P WordB = True"

text \<open>\<open>eats P n st st'\<close>: between the two states lies a text of \<open>P\<close> of at least \<open>n\<close> units.\<close>

definition eats :: "(nat \<Rightarrow> bool) \<Rightarrow> nat \<Rightarrow> rstate \<Rightarrow> rstate \<Rightarrow> bool" where
  "eats P n st st' \<longleftrightarrow> (\<exists>u. ahead st = u @ ahead st' \<and> n \<le> length u \<and> list_all P u)"

lemma eats_refl [simp]: "eats P 0 st st"
  by (simp add: eats_def)

lemma eats_trans: "eats P n st st' \<Longrightarrow> eats P k st' st'' \<Longrightarrow> eats P (n + k) st st''"
  unfolding eats_def by (metis add_mono append.assoc length_append list_all_append)

lemma eats_weaken: "eats P n st st' \<Longrightarrow> k \<le> n \<Longrightarrow> eats P k st st'"
  unfolding eats_def using le_trans by blast

lemma ahead_forget [simp]: "ahead (forget gs st) = ahead st"
  by (simp add: forget_def ahead_def split: prod.splits)

lemma eats_forget [simp]: "eats P n (forget gs st) st' = eats P n st st'"
  by (simp add: eats_def)

lemma eats_iter:
  assumes "\<And>st st'. st' \<in> set (f st) \<Longrightarrow> eats P 0 st st'"
  shows "st' \<in> set (iter n f st) \<Longrightarrow> eats P 0 st st'"
proof (induction n arbitrary: st)
  case (Suc n)
  then consider "st' = st" | u where "u \<in> set (f st)" "st' \<in> set (iter n f u)"
    by (auto split: if_splits)
  then show ?case
  proof cases
    case 2
    then show ?thesis using assms [of u st] Suc.IH [of u] eats_trans [of P 0 st u 0 st'] by simp
  qed simp
qed simp

lemma ms_eats: "st' \<in> set (ms r st) \<Longrightarrow> over P r \<Longrightarrow> eats P (min_len r) st st'"
proof (induction r arbitrary: st st')
  case (Cls p)
  then show ?case
    by (cases st) (auto simp: eats_def split: list.splits if_splits)
next
  case (Seq a b)
  obtain u where "u \<in> set (ms a st)" "st' \<in> set (ms b u)" using Seq.prems(1) by auto
  then have "eats P (min_len a) st u" "eats P (min_len b) u st'"
    using Seq.IH(1) [of u st] Seq.IH(2) [of st' u] Seq.prems(2) by simp_all
  then show ?case by (simp add: eats_trans)
next
  case (Alt a b)
  have "eats P (min_len a) st st' \<or> eats P (min_len b) st st'"
    using Alt.IH(1) [of st' st] Alt.IH(2) [of st' st] Alt.prems by auto
  then show ?case by (auto intro: eats_weaken)
next
  case (Star a)
  have "eats P 0 u u'" if "u' \<in> set (ms a (forget (groups a) u))" for u u'
    using Star.IH [OF that] Star.prems(2) eats_weaken [of P "min_len a" u u' 0] by simp
  then show ?case
    using Star.prems(1) eats_iter [of "\<lambda>u. ms a (forget (groups a) u)" P st' _ st] by (simp add: ms.simps(5))
next
  case (Opt a)
  show ?case
    using Opt.prems Opt.IH [of st' "forget (groups a) st"] eats_weaken [of P "min_len a" st st' 0] by auto
next
  case (Grp i a)
  obtain pre s c where "(pre, s, c) \<in> set (ms a st)" "ahead st' = s" using Grp.prems(1) by auto
  then show ?case
    using Grp.IH [of "(pre, s, c)" st] Grp.prems(2) by (simp add: eats_def)
next
  case (BRef i)
  then show ?case
    by (cases st) (auto simp: eats_def list_all_iff prefix_def split: option.splits if_splits)
qed (auto split: if_splits)

lemma over_True: "over (\<lambda>_. True) r"
  by (induction r) simp_all

lemma ms_min_len: "st' \<in> set (ms r st) \<Longrightarrow> length (ahead st') + min_len r \<le> length (ahead st)"
  using ms_eats [OF _ over_True, of st' r st] by (auto simp: eats_def)

lemma ms_suffix: "st' \<in> set (ms r st) \<Longrightarrow> suffix (ahead st') (ahead st)"
  using ms_eats [OF _ over_True, of st' r st] by (auto simp: eats_def suffix_def)

subsection \<open>The loop over all matches ends\<close>

lemma match_at_len:
  assumes "match_at r pre s = Some (pre', s', c)"
  shows "length s' + min_len r \<le> length s" and "c 0 = Some (take (length s - length s') s)"
proof -
  obtain st sts where ms: "ms r (pre, s, Map.empty) = st # sts"
    using assms by (cases "ms r (pre, s, Map.empty)") (simp_all add: match_at_def)
  obtain d where st: "st = (pre', s', d)" and c: "c = d(0 \<mapsto> take (length s - length s') s)"
    using assms ms by (cases st) (simp add: match_at_def)
  have d: "(pre', s', d) \<in> set (ms r (pre, s, Map.empty))"
    by (simp add: ms st)
  show "length s' + min_len r \<le> length s" using ms_min_len [OF d] by simp
  show "c 0 = Some (take (length s - length s') s)" by (simp add: c)
qed

lemma exec_from_len:
  assumes "exec_from r pre s = Some (pre', s', c)" and "0 < min_len r"
  shows "length s' < length s \<and> c 0 \<noteq> Some []"
  using assms
proof (induction s arbitrary: pre)
  case Nil
  then show ?case using match_at_len(1) [of r pre "[]" pre' s' c] by simp
next
  case (Cons x s)
  show ?case
  proof (cases "match_at r pre (x # s)")
    case None
    then have "length s' < length s \<and> c 0 \<noteq> Some []"
      using Cons.IH [of "x # pre"] Cons.prems by simp
    then show ?thesis by simp
  next
    case (Some st)
    then have "match_at r pre (x # s) = Some (pre', s', c)" using Cons.prems by simp
    then show ?thesis using match_at_len [of r pre "x # s" pre' s' c] Cons.prems(2) by auto
  qed
qed

lemma exec_all_total:
  assumes "0 < min_len r"
  shows "length s < n \<Longrightarrow> \<exists>cs. exec_all n r pre s = Some cs"
proof (induction n arbitrary: pre s)
  case (Suc n)
  show ?case
  proof (cases "exec_from r pre s")
    case (Some st)
    obtain pre' s' c where st: "st = (pre', s', c)" by (cases st)
    have "length s' < length s" "c 0 \<noteq> Some []"
      using exec_from_len [of r pre s pre' s' c] Some assms by (auto simp: st)
    then show ?thesis using Suc.IH [of s' pre'] Suc.prems Some by (auto simp: st)
  qed simp
qed simp

lemma re_exec_all_total: "0 < min_len r \<Longrightarrow> \<exists>cs. re_exec_all r s = Some cs"
  by (simp add: re_exec_all_def exec_all_total del: exec_all.simps)

subsection \<open>Evaluating anchored expressions\<close>

lemma full_Seq: "full (Seq a b) st = concat (map (full b) (ms a st))"
  by (simp add: full_def [abs_def] filter_concat map_concat comp_def)

lemma concat_concat_map: "concat (concat (map (\<lambda>x. map f (g x)) xs)) = concat (map (\<lambda>x. concat (map f (g x))) xs)"
  by (induction xs) simp_all

lemma full_assoc [full_simps]: "full (Seq (Seq a b) r) st = full (Seq a (Seq b r)) st"
  by (simp add: full_Seq full_Seq [abs_def] map_concat concat_concat_map comp_def)

lemma full_assoc2 [full_simps]: "full (Seq a (Seq (Seq b c) r)) st = full (Seq a (Seq b (Seq c r))) st"
  by (simp add: full_Seq full_Seq [abs_def] map_concat concat_concat_map comp_def)

lemma full_Eps_Seq [full_simps]: "full (Seq Eps r) st = full r st"
  by (simp add: full_Seq)

lemma full_Alt_Seq [full_simps]: "full (Seq (Alt a b) r) st = full (Seq a r) st @ full (Seq b r) st"
  by (simp add: full_Seq)

lemma full_Grp_Alt_Seq [full_simps]:
  "full (Seq (Grp i (Alt a b)) r) st = full (Seq (Grp i a) r) st @ full (Seq (Grp i b) r) st"
  by (simp add: full_Seq)

lemma full_Lit_Seq [full_simps]:
  "full (Seq (Lit []) r) st = full r st"
  "full (Seq (Lit (c # w)) r) (pre, [], m) = []"
  "full (Seq (Lit (c # w)) r) (pre, x # s, m) = (if x = c then full (Seq (Lit w) r) (x # pre, s, m) else [])"
  by (simp_all add: full_Seq)

lemma full_Chr_Seq [full_simps]:
  "full (Seq (Chr c) r) (pre, [], m) = []"
  "full (Seq (Chr c) r) (pre, x # s, m) = (if x = c then full r (x # pre, s, m) else [])"
  by (simp_all add: full_Seq)

lemma full_Lit [full_simps]: "full (Lit w) (pre, s, m) = (if s = w then [m] else [])"
  by (auto simp: full_def ms_Lit prefix_def)

lemma full_Grp_Lit_Seq [full_simps]:
  "full (Seq (Grp i (Lit w)) r) (pre, s, m) =
     (if prefix w s then full r (rev w @ pre, drop (length w) s, m(i \<mapsto> w)) else [])"
  by (auto simp: full_Seq ms_Lit prefix_def)

lemma full_BRef_Seq [full_simps]:
  "m i = Some w \<Longrightarrow> full (Seq (BRef i) r) (pre, s, m) =
     (if prefix w s then full r (rev w @ pre, drop (length w) s, m) else [])"
  by (simp add: full_Seq)

lemma ms_Seq_Eps: "ms (Seq a Eps) = ms a"
proof
  fix st
  have "concat (map (ms Eps) sts) = sts" for sts by (induction sts) simp_all
  then show "ms (Seq a Eps) st = ms a st" by simp
qed

lemma full_drop_Eps: "full (Seq a (Seq b Eps)) st = full (Seq a b) st" "full (Seq a Eps) st = full a st"
  by (simp_all only: full_def ms_Seq_Eps ms.simps(3))

text \<open>One or more units of a class, captured: every prefix of the run, the longest first.\<close>

lemma ms_Plus_runs:
  assumes "list_all P u" and "u \<noteq> []" and "takeWhile P v = []"
  shows "ms (Plus (Cls P)) (pre, u @ v, m) =
     map (\<lambda>k. (rev (take k (u @ v)) @ pre, drop k (u @ v), m)) (rev [1..<Suc (length u)])"
proof -
  obtain x w where u: "u = x # w" using assms(2) by (cases u) auto
  have "takeWhile P (w @ v) = w"
    using assms(1,3) by (simp add: u takeWhile_append list_all_iff)
  then have "ms (Plus (Cls P)) (pre, u @ v, m) = runs (length w) (x # pre, w @ v, m)"
    using assms(1) by (simp add: u ms_Plus_Cls)
  also have "\<dots> = map (\<lambda>k. (rev (take k (u @ v)) @ pre, drop k (u @ v), m)) (map Suc (rev [0..<Suc (length w)]))"
    by (simp add: runs_def u comp_def del: upt_Suc)
  also have "map Suc (rev [0..<Suc (length w)]) = rev [1..<Suc (length u)]"
    by (simp only: rev_map [symmetric] map_Suc_upt u list.size) simp
  finally show ?thesis .
qed

lemma full_Grp_Plus_Seq:
  assumes "list_all P u" and "u \<noteq> []" and "takeWhile P v = []"
  shows "full (Seq (Grp i (Plus (Cls P))) r) (pre, u @ v, m) =
     concat (map (\<lambda>k. full r (rev (take k (u @ v)) @ pre, drop k (u @ v), m(i \<mapsto> take k (u @ v))))
       (rev [1..<Suc (length u)]))"
proof -
  have "map (\<lambda>(pre', s, c). (pre', s, c(i \<mapsto> take (length (u @ v) - length s) (u @ v))))
      (ms (Plus (Cls P)) (pre, u @ v, m)) =
     map (\<lambda>k. (rev (take k (u @ v)) @ pre, drop k (u @ v), m(i \<mapsto> take k (u @ v)))) (rev [1..<Suc (length u)])"
    unfolding ms_Plus_runs [OF assms] map_map
    by (rule map_cong) (auto simp del: upt_Suc)
  then show ?thesis by (simp add: full_Seq comp_def del: upt_Suc)
qed

lemma concat_one:
  assumes "distinct ks" and "k \<in> set ks" and "\<And>j. j \<in> set ks \<Longrightarrow> j \<noteq> k \<Longrightarrow> f j = []"
  shows "concat (map f ks) = f k"
proof -
  obtain us vs where ks: "ks = us @ k # vs" and d: "k \<notin> set us" "k \<notin> set vs"
    using assms(1,2) by (metis distinct.simps(2) distinct_append split_list not_distinct_conv_prefix)
  have "concat (map f us) = []" "concat (map f vs) = []"
    using assms(3) d by (auto simp: ks)
  then show ?thesis by (simp only: ks map_append concat_append list.map concat.simps append_Nil append_Nil2)
qed

lemma full_token [full_simps]:
  assumes "list_all P u" and "u \<noteq> []" and "\<not> P c"
  shows "full (Seq (Grp i (Plus (Cls P))) (Seq (Lit (c # w)) r)) (pre, u @ c # s, m) =
     full (Seq (Lit w) r) (c # rev u @ pre, s, m(i \<mapsto> u))"
proof -
  let ?f = "\<lambda>k. full (Seq (Lit (c # w)) r)
      (rev (take k (u @ c # s)) @ pre, drop k (u @ c # s), m(i \<mapsto> take k (u @ c # s)))"
  have "concat (map ?f (rev [1..<Suc (length u)])) = ?f (length u)"
  proof (rule concat_one)
    fix j assume j: "j \<in> set (rev [1..<Suc (length u)])" "j \<noteq> length u"
    then have "j < length u" by auto
    then have "drop j (u @ c # s) = u ! j # drop (Suc j) (u @ c # s)" "u ! j \<noteq> c"
      using assms(1,3) by (auto simp: Cons_nth_drop_Suc [symmetric] nth_append list_all_length simp del: drop_append)
    then show "?f j = []" by (simp add: full_simps)
  qed (use assms(2) in \<open>auto simp: Suc_le_eq\<close>)
  then show ?thesis
    using full_Grp_Plus_Seq [OF assms(1,2), of "c # s"] assms(3) by (simp add: full_simps del: upt_Suc)
qed

lemma full_token_last [full_simps]:
  assumes "list_all P u" and "u \<noteq> []" and "\<not> P c"
  shows "full (Seq (Grp i (Plus (Cls P))) (Lit (c # w))) (pre, u @ c # s, m) =
     (if s = w then [m(i \<mapsto> u)] else [])"
  using full_token [OF assms, of i w Eps pre s m] by (simp add: full_drop_Eps full_simps)

lemma full_token_stop [full_simps]:
  assumes "list_all P u" and "u \<noteq> []" and "\<not> P c"
  shows "full (Seq (Grp i (Plus (Cls P))) (Seq (Lit (c # w)) r)) (pre, u, m) = []"
proof -
  have "full (Seq (Lit (c # w)) r) (pre', drop k u, m') = []" for k pre' m'
  proof (cases "k < length u")
    case True
    then have "drop k u = u ! k # drop (Suc k) u" "u ! k \<noteq> c"
      using assms(1,3) by (auto simp: Cons_nth_drop_Suc [symmetric] list_all_length)
    then show ?thesis by (simp add: full_simps)
  qed (simp add: full_simps)
  then show ?thesis
    using full_Grp_Plus_Seq [OF assms(1,2), of "[]"] by simp
qed

lemma full_Plus_end [full_simps]:
  assumes "list_all P u" and "u \<noteq> []"
  shows "full (Grp i (Plus (Cls P))) (pre, u, m) = [m(i \<mapsto> u)]"
proof -
  have "full (Seq (Grp i (Plus (Cls P))) Eps) (pre, u, m) = [m(i \<mapsto> u)]"
  proof -
    let ?f = "\<lambda>k. full Eps (rev (take k u) @ pre, drop k u, m(i \<mapsto> take k u))"
    have "concat (map ?f (rev [1..<Suc (length u)])) = ?f (length u)"
      by (rule concat_one) (use assms(2) in \<open>auto simp: full_def Suc_le_eq\<close>)
    then show ?thesis
      using full_Grp_Plus_Seq [OF assms, of "[]"] by (simp add: full_def del: upt_Suc)
  qed
  then show ?thesis by (simp only: full_drop_Eps)
qed

declare Lit.simps [simp del]

lemma re_test_Cls: "re_test (Cls p) s \<longleftrightarrow> (\<exists>c \<in> set s. p c)"
proof -
  have "exec_from (Cls p) pre s \<noteq> None \<longleftrightarrow> (\<exists>c \<in> set s. p c)" for pre
    by (induction s arbitrary: pre) (auto simp: match_at_def split: option.splits)
  then show ?thesis by (simp add: re_test_def)
qed

end
