(* ===== verification/BillingExpr.thy ===== *)
theory BillingExpr
  imports JS_Json JS_Regex
begin

text \<open>
  \<open>features/pricing/lib/billing-expr.ts\<close>: the billing expressions of dynamic
  pricing.  A billing expression is a price expression over token counts, in tiers
  (\<open>len <= 200000 ? tier("base", p * 3 + c * 15) : tier(...)\<close>), multiplied by request rules
  (\<open>(header("x") == "y" ? 2 : 1)\<close>).  The source reads both parts with regular
  expressions and writes them again from the editor's state.  This theory holds
  the data, the readers and the writers; \<open>BillingRules\<close> proves them against each
  other.
\<close>

subsection \<open>Variable registry\<close>

record BillingVar =
  bv_key :: jstring
  bv_field :: "jstring option"
  bv_tierField :: "jstring option"
  bv_label :: jstring
  bv_shortLabel :: jstring
  bv_side :: jstring
  bv_isBase :: bool
  bv_isConditionOnly :: bool
  bv_group :: "jstring option"

definition BILLING_VARS :: "BillingVar list" where
  "BILLING_VARS = [
    \<lparr>bv_key = js ''p'', bv_field = Some (js ''inputPrice''), bv_tierField = Some (js ''input_unit_cost''),
     bv_label = js ''Input price'', bv_shortLabel = js ''Input'', bv_side = js ''input'',
     bv_isBase = True, bv_isConditionOnly = False, bv_group = None\<rparr>,
    \<lparr>bv_key = js ''c'', bv_field = Some (js ''outputPrice''), bv_tierField = Some (js ''output_unit_cost''),
     bv_label = js ''Completion price'', bv_shortLabel = js ''Output'', bv_side = js ''output'',
     bv_isBase = True, bv_isConditionOnly = False, bv_group = None\<rparr>,
    \<lparr>bv_key = js ''len'', bv_field = None, bv_tierField = None,
     bv_label = js ''Input length'', bv_shortLabel = js ''Length'', bv_side = js ''condition'',
     bv_isBase = False, bv_isConditionOnly = True, bv_group = None\<rparr>,
    \<lparr>bv_key = js ''cr'', bv_field = Some (js ''cacheReadPrice''), bv_tierField = Some (js ''cache_read_unit_cost''),
     bv_label = js ''Cache read price'', bv_shortLabel = js ''Cache Read'', bv_side = js ''input'',
     bv_isBase = False, bv_isConditionOnly = False, bv_group = Some (js ''cache'')\<rparr>,
    \<lparr>bv_key = js ''cc'', bv_field = Some (js ''cacheCreatePrice''), bv_tierField = Some (js ''cache_create_unit_cost''),
     bv_label = js ''Cache create price'', bv_shortLabel = js ''Cache Write'', bv_side = js ''input'',
     bv_isBase = False, bv_isConditionOnly = False, bv_group = Some (js ''cache'')\<rparr>,
    \<lparr>bv_key = js ''cc1h'', bv_field = Some (js ''cacheCreate1hPrice''), bv_tierField = Some (js ''cache_create_1h_unit_cost''),
     bv_label = js ''Cache create (1h) price'', bv_shortLabel = js ''Cache Write (1h)'', bv_side = js ''input'',
     bv_isBase = False, bv_isConditionOnly = False, bv_group = Some (js ''cache'')\<rparr>,
    \<lparr>bv_key = js ''img'', bv_field = Some (js ''imagePrice''), bv_tierField = Some (js ''image_unit_cost''),
     bv_label = js ''Image input price'', bv_shortLabel = js ''Image In'', bv_side = js ''input'',
     bv_isBase = False, bv_isConditionOnly = False, bv_group = Some (js ''media'')\<rparr>,
    \<lparr>bv_key = js ''img_o'', bv_field = Some (js ''imageOutputPrice''), bv_tierField = Some (js ''image_output_unit_cost''),
     bv_label = js ''Image output price'', bv_shortLabel = js ''Image Out'', bv_side = js ''output'',
     bv_isBase = False, bv_isConditionOnly = False, bv_group = Some (js ''media'')\<rparr>,
    \<lparr>bv_key = js ''ai'', bv_field = Some (js ''audioInputPrice''), bv_tierField = Some (js ''audio_input_unit_cost''),
     bv_label = js ''Audio input price'', bv_shortLabel = js ''Audio In'', bv_side = js ''input'',
     bv_isBase = False, bv_isConditionOnly = False, bv_group = Some (js ''media'')\<rparr>,
    \<lparr>bv_key = js ''ao'', bv_field = Some (js ''audioOutputPrice''), bv_tierField = Some (js ''audio_output_unit_cost''),
     bv_label = js ''Audio output price'', bv_shortLabel = js ''Audio Out'', bv_side = js ''output'',
     bv_isBase = False, bv_isConditionOnly = False, bv_group = Some (js ''media'')\<rparr>]"

definition BILLING_PRICING_VARS :: "BillingVar list" where
  "BILLING_PRICING_VARS = filter (\<lambda>v. \<not> bv_isConditionOnly v) BILLING_VARS"

definition BILLING_CONDITION_VARS :: "jstring list" where
  "BILLING_CONDITION_VARS =
     map bv_key (filter (\<lambda>v. bv_isBase v \<or> bv_isConditionOnly v) BILLING_VARS)"

definition BILLING_VAR_KEY_TO_FIELD :: "(jstring \<times> jstring) list" where
  "BILLING_VAR_KEY_TO_FIELD =
     obj_of_pairs (map (\<lambda>v. (bv_key v, opt_str (bv_field v))) BILLING_PRICING_VARS)"

definition BILLING_EXTRA_VARS :: "BillingVar list" where
  "BILLING_EXTRA_VARS = filter (\<lambda>v. \<not> bv_isBase v \<and> \<not> bv_isConditionOnly v) BILLING_VARS"

definition BILLING_CACHE_VAR_MAP :: "(jstring \<times> jstring) list" where
  "BILLING_CACHE_VAR_MAP = map (\<lambda>v. (opt_str (bv_tierField v), bv_key v)) BILLING_EXTRA_VARS"

subsection \<open>Expressions shared by the readers\<close>

definition num_cls :: "nat \<Rightarrow> bool" where
  "num_cls c \<longleftrightarrow> is_digit c \<or> c = 46 \<or> c = 101 \<or> c = 69 \<or> c = 43 \<or> c = 45"

definition cond_num_cls :: "nat \<Rightarrow> bool" where
  "cond_num_cls c \<longleftrightarrow> is_digit c \<or> c = 46 \<or> c = 101 \<or> c = 69 \<or> c = 43"

definition no_quote :: "nat \<Rightarrow> bool" where
  "no_quote c \<longleftrightarrow> c \<noteq> 34"

abbreviation ws_star :: re where
  "ws_star \<equiv> Star (Cls is_ws)"

definition BILLING_VAR_REGEX :: re where
  "BILLING_VAR_REGEX =
     Seqs [WordB, Grp 1 (Alts (map (\<lambda>v. Lit (bv_key v)) BILLING_PRICING_VARS)),
           ws_star, Chr 42, ws_star, Grp 2 (Plus (Cls num_cls))]"

definition NUMERIC_LITERAL_REGEX :: re where
  "NUMERIC_LITERAL_REGEX =
     Seq Bol (Seq (Seqs [Opt (Chr 45),
        Alt (Seqs [Plus (Cls is_digit), Opt (Chr 46), Star (Cls is_digit)])
            (Seq (Chr 46) (Plus (Cls is_digit))),
        Opt (Seqs [Cls (\<lambda>c. c = 101 \<or> c = 69), Opt (Cls (\<lambda>c. c = 43 \<or> c = 45)), Plus (Cls is_digit)])])
      Eol)"

definition is_numeric_literal :: "jstring \<Rightarrow> bool" where
  "is_numeric_literal s = re_test NUMERIC_LITERAL_REGEX s"

subsection \<open>Request rule data\<close>

definition SOURCE_PARAM :: jstring where "SOURCE_PARAM = js ''param''"
definition SOURCE_HEADER :: jstring where "SOURCE_HEADER = js ''header''"
definition SOURCE_TIME :: jstring where "SOURCE_TIME = js ''time''"
definition MATCH_EQ :: jstring where "MATCH_EQ = js ''eq''"
definition MATCH_CONTAINS :: jstring where "MATCH_CONTAINS = js ''contains''"
definition MATCH_GT :: jstring where "MATCH_GT = js ''gt''"
definition MATCH_GTE :: jstring where "MATCH_GTE = js ''gte''"
definition MATCH_LT :: jstring where "MATCH_LT = js ''lt''"
definition MATCH_LTE :: jstring where "MATCH_LTE = js ''lte''"
definition MATCH_EXISTS :: jstring where "MATCH_EXISTS = js ''exists''"
definition MATCH_RANGE :: jstring where "MATCH_RANGE = js ''range''"

lemmas rule_consts = SOURCE_PARAM_def SOURCE_HEADER_def SOURCE_TIME_def MATCH_EQ_def
  MATCH_CONTAINS_def MATCH_GT_def MATCH_GTE_def MATCH_LT_def MATCH_LTE_def MATCH_EXISTS_def
  MATCH_RANGE_def

definition TIME_FUNCS :: "jstring list" where
  "TIME_FUNCS = [js ''hour'', js ''minute'', js ''weekday'', js ''month'', js ''day'']"

definition COMMON_TIMEZONES :: "(jstring \<times> jstring) list" where
  "COMMON_TIMEZONES = [
     (js ''Asia/Shanghai'', js ''UTC+8 Shanghai (Asia/Shanghai)''),
     (js ''UTC'', js ''UTC''),
     (js ''America/New_York'', js ''UTC-5 New York (America/New_York)''),
     (js ''America/Los_Angeles'', js ''UTC-8 Los Angeles (America/Los_Angeles)''),
     (js ''America/Chicago'', js ''UTC-6 Chicago (America/Chicago)''),
     (js ''Europe/London'', js ''UTC+0 London (Europe/London)''),
     (js ''Europe/Berlin'', js ''UTC+1 Berlin (Europe/Berlin)''),
     (js ''Asia/Tokyo'', js ''UTC+9 Tokyo (Asia/Tokyo)''),
     (js ''Asia/Singapore'', js ''UTC+8 Singapore (Asia/Singapore)''),
     (js ''Asia/Seoul'', js ''UTC+9 Seoul (Asia/Seoul)''),
     (js ''Australia/Sydney'', js ''UTC+10 Sydney (Australia/Sydney)'')]"

record ParamHeaderCondition =
  ph_source :: jstring
  ph_path :: jstring
  ph_mode :: jstring
  ph_value :: jstring

record TimeCondition =
  tc_timeFunc :: jstring
  tc_timezone :: jstring
  tc_mode :: jstring
  tc_value :: jstring
  tc_rangeStart :: jstring
  tc_rangeEnd :: jstring

datatype RequestCondition = PHCond ParamHeaderCondition | TimeCond TimeCondition

record RequestRuleGroup =
  rg_conditions :: "RequestCondition list"
  rg_multiplier :: jstring

record TierCondition =
  tier_var :: jstring
  tier_op :: jstring
  tier_value :: jnum

record ParsedTier =
  pt_label :: jstring
  pt_conditions :: "TierCondition list"
  pt_fields :: "(jstring \<times> jnum) list"

text \<open>\<open>JSON.parse\<close> throws; the readers that do not catch it return \<open>Inl SyntaxError\<close>.\<close>

datatype exn = SyntaxError

subsection \<open>Tier parser\<close>

definition VERSION_REGEX :: re where
  "VERSION_REGEX =
     Seq Bol (Seq (Seqs [Chr 118, Grp 1 (Plus (Cls is_digit)), Chr 58, Grp 2 (Star (Cls any_unit))]) Eol)"

definition stripExprVersion :: "jstring \<Rightarrow> jnum \<times> jstring" where
  "stripExprVersion exprStr =
     (if exprStr = [] then (Fin 1, [])
      else (case re_match VERSION_REGEX exprStr of
              Some m \<Rightarrow> (Number_of_string (opt_str (m 1)), opt_str (m 2))
            | None \<Rightarrow> (Fin 1, exprStr)))"

definition add_coeff :: "(jstring \<times> jnum) list \<Rightarrow> caps \<Rightarrow> (jstring \<times> jnum) list" where
  "add_coeff coeffs m =
     (let k = opt_str (m 1) in
      if map_of coeffs k \<noteq> None then coeffs
      else obj_put k (Number_of_string (opt_str (m 2))) coeffs)"

definition parseTierBody :: "jstring \<Rightarrow> (jstring \<times> jnum) list option" where
  "parseTierBody bodyStr =
     map_option (\<lambda>matches.
       (let coeffs = foldl add_coeff [] matches in
        map (\<lambda>(varName, field).
            (field, (case map_of coeffs varName of None \<Rightarrow> Fin 0 | Some x \<Rightarrow> num_or0 x)))
          BILLING_VAR_KEY_TO_FIELD))
     (re_exec_all BILLING_VAR_REGEX bodyStr)"

definition cond_var_re :: re where
  "cond_var_re = Alts [Lit (js ''p''), Lit (js ''c''), Lit (js ''len'')]"

definition cond_op_re :: re where
  "cond_op_re = Alts [Lit (js ''<''), Lit (js ''<=''), Lit (js ''>''), Lit (js ''>='')]"

definition cond_item_re :: re where
  "cond_item_re = Seqs [cond_var_re, ws_star, cond_op_re, ws_star, Plus (Cls cond_num_cls)]"

definition cond_group_re :: re where
  "cond_group_re =
     Grp 1 (Seq cond_item_re (Star (Seqs [ws_star, Lit (js ''&&''), ws_star, cond_item_re])))"

definition tier_re :: re where
  "tier_re =
     Seqs [Opt (Seqs [cond_group_re, ws_star, Chr 63, ws_star]), Lit (js ''tier(\"''),
           Grp 2 (Star (Cls no_quote)), Lit (js ''\",''), ws_star,
           Grp 3 (Plus (Cls (\<lambda>c. c \<noteq> 41))), Chr 41]"

definition and_split_re :: re where
  "and_split_re = Seqs [ws_star, Lit (js ''&&''), ws_star]"

definition cond_part_re :: re where
  "cond_part_re =
     Seq Bol (Seq (Seqs [Grp 1 cond_var_re, ws_star, Grp 2 cond_op_re, ws_star,
       Grp 3 (Plus (Cls cond_num_cls))]) Eol)"

definition parse_cond_part :: "jstring \<Rightarrow> TierCondition option" where
  "parse_cond_part cp =
     map_option (\<lambda>cm. \<lparr>tier_var = opt_str (cm 1), tier_op = opt_str (cm 2),
         tier_value = Number_of_string (opt_str (cm 3))\<rparr>)
       (re_match cond_part_re (trim cp))"

definition parse_conditions :: "jstring \<Rightarrow> TierCondition list" where
  "parse_conditions condStr =
     (if condStr = [] then []
      else List.map_filter parse_cond_part (re_split and_split_re condStr))"

definition tier_of_match :: "caps \<Rightarrow> ParsedTier option" where
  "tier_of_match m =
     map_option (\<lambda>fields. \<lparr>pt_label = opt_str (m 2), pt_conditions = parse_conditions (opt_str (m 1)),
         pt_fields = fields\<rparr>)
       (parseTierBody (opt_str (m 3)))"

text \<open>\<open>None\<close> is a loop over matches that does not end.\<close>

definition parseTiersFromExpr :: "jstring \<Rightarrow> ParsedTier list option" where
  "parseTiersFromExpr exprStr =
     (if exprStr = [] then Some []
      else (case re_exec_all tier_re (snd (stripExprVersion exprStr)) of
              None \<Rightarrow> None
            | Some matches \<Rightarrow> those (map tier_of_match matches)))"

text \<open>
  Labels are compared without spaces, case and the style of their comparison signs
  (\<open>\<le>\<close> is unit 8804, \<open>\<ge>\<close> is 8805, the full-width signs are 65308, 65309 and 65310).
  \<open>lower\<close> is \<open>toLowerCase\<close>.
\<close>

definition sign_re :: "nat \<Rightarrow> nat \<Rightarrow> nat \<Rightarrow> re" where
  "sign_re plain_sign eq_sign wide_sign =
     Alts [Seq (Chr plain_sign) (Opt (Cls (\<lambda>c. c = 61 \<or> c = 65309))), Chr eq_sign,
           Seq (Chr wide_sign) (Opt (Cls (\<lambda>c. c = 61 \<or> c = 65309)))]"

definition normalizeTierLabel :: "(jstring \<Rightarrow> jstring) \<Rightarrow> jstring option \<Rightarrow> jstring" where
  "normalizeTierLabel lower label =
     (if \<not> truthy_opt label then []
      else lower (re_replace (Plus (Cls is_ws)) []
             (re_replace (sign_re 62 8805 65310) (js ''>'')
               (re_replace (sign_re 60 8804 65308) (js ''<'') (opt_str label)))))"

subsection \<open>Request rule parser\<close>

text \<open>
  The two splitters of the source are the same loop with another separator: the
  parenthesis depth is counted, and a separator at depth 0 ends a part.
\<close>

definition depth_step :: "nat \<Rightarrow> int \<Rightarrow> int" where
  "depth_step c d = (if c = 40 then d + 1 else if c = 41 then d - 1 else d)"

function split_top :: "jstring \<Rightarrow> int \<Rightarrow> jstring \<Rightarrow> jstring \<Rightarrow> jstring list" where
  "split_top sep depth cur [] = [trim cur]"
| "split_top sep depth cur (x # s) =
     (let depth' = depth_step x depth in
      if depth' = 0 \<and> prefix sep (x # s)
      then trim cur # split_top sep depth' [] (drop (length sep - 1) s)
      else split_top sep depth' (cur @ [x]) s)"
  by pat_completeness auto
termination by (relation "measure (\<lambda>(sep, depth, cur, s). length s)") auto

definition splitTopLevelMultiply :: "jstring \<Rightarrow> jstring list" where
  "splitTopLevelMultiply expr = filter nonempty (split_top (js '' * '') 0 [] expr)"

definition splitTopLevelAnd :: "jstring \<Rightarrow> jstring list" where
  "splitTopLevelAnd expr = filter nonempty (split_top (js '' && '') 0 [] expr)"

definition parseExprLiteral :: "jstring \<Rightarrow> jsval" where
  "parseExprLiteral raw =
     (let t = trim raw in
      if t = js ''true'' \<or> t = js ''false'' then Str t
      else if is_numeric_literal t then Str t
      else (case JSON_parse t of Some v \<Rightarrow> v | None \<Rightarrow> Null))"

definition time_func_re :: re where
  "time_func_re = Alts (map Lit TIME_FUNCS)"

definition quoted_re :: "nat \<Rightarrow> re" where
  "quoted_re i = Seqs [Lit (js ''(\"''), Grp i (Plus (Cls no_quote)), Lit (js ''\")'')]"

definition time_range_re :: re where
  "time_range_re =
     Seqs [Grp 1 time_func_re, quoted_re 2, Lit (js '' >= ''), Grp 3 (Plus (Cls num_cls)),
           Lit (js '' || ''), BRef 1, Lit (js ''(\"''), BRef 2, Lit (js ''\") < ''),
           Grp 4 (Plus (Cls num_cls))]"

definition time_cmp_re :: re where
  "time_cmp_re =
     Seqs [Grp 1 time_func_re, quoted_re 2, Lit (js '' ''),
           Grp 3 (Alts [Lit (js ''==''), Lit (js ''>=''), Lit (js ''<'')]), Lit (js '' ''),
           Grp 4 (Plus (Cls num_cls))]"

definition anchored :: "re \<Rightarrow> re" where
  "anchored r = Seq Bol (Seq r Eol)"

definition time_range_cond :: "caps \<Rightarrow> RequestCondition" where
  "time_range_cond m =
     TimeCond \<lparr>tc_timeFunc = opt_str (m 1), tc_timezone = opt_str (m 2), tc_mode = MATCH_RANGE,
       tc_value = [], tc_rangeStart = opt_str (m 3), tc_rangeEnd = opt_str (m 4)\<rparr>"

definition time_op_mode :: "jstring \<Rightarrow> jstring" where
  "time_op_mode p =
     (if p = js ''=='' then MATCH_EQ else if p = js ''>='' then MATCH_GTE
      else if p = js ''<'' then MATCH_LT else MATCH_EQ)"

definition tryParseTimeCondition :: "jstring \<Rightarrow> RequestCondition option" where
  "tryParseTimeCondition expr =
     (case re_match (anchored time_range_re) expr of
        Some m \<Rightarrow> Some (time_range_cond m)
      | None \<Rightarrow>
     (case re_match (anchored (Seqs [Lit (js ''(''), time_range_re, Lit (js '')'')])) expr of
        Some m \<Rightarrow> Some (time_range_cond m)
      | None \<Rightarrow>
     (case re_match (anchored time_cmp_re) expr of
        Some m \<Rightarrow> Some (TimeCond \<lparr>tc_timeFunc = opt_str (m 1), tc_timezone = opt_str (m 2),
          tc_mode = time_op_mode (opt_str (m 3)), tc_value = opt_str (m 4),
          tc_rangeStart = [], tc_rangeEnd = []\<rparr>)
      | None \<Rightarrow> None)))"

definition string_lit_re :: "nat \<Rightarrow> re" where
  "string_lit_re i =
     Grp i (Seqs [Chr 34, Star (Alt (Cls (\<lambda>c. c \<noteq> 34 \<and> c \<noteq> 92)) (Seq (Chr 92) (Cls no_newline))), Chr 34])"

definition header_exists_re :: re where
  "header_exists_re = Seqs [Lit (js ''header''), quoted_re 1, Lit (js '' != \"\"'')]"

definition param_exists_re :: re where
  "param_exists_re = Seqs [Lit (js ''param''), quoted_re 1, Lit (js '' != nil'')]"

definition header_has_re :: re where
  "header_has_re =
     Seqs [Lit (js ''has(header''), quoted_re 1, Lit (js '', ''), string_lit_re 2, Lit (js '')'')]"

definition param_has_re :: re where
  "param_has_re =
     Seqs [Lit (js ''param''), quoted_re 1, Lit (js '' != nil && has(param''), quoted_re 2,
           Lit (js '', ''), string_lit_re 3, Lit (js '')'')]"

definition param_cmp_re :: re where
  "param_cmp_re =
     Seqs [Lit (js ''param''), quoted_re 1, Lit (js '' != nil && param''), quoted_re 2, Lit (js '' ''),
           Grp 3 (Alts [Lit (js ''>''), Lit (js ''>=''), Lit (js ''<''), Lit (js ''<='')]), Lit (js '' ''),
           Grp 4 (Plus (Cls num_cls))]"

definition eq_re :: re where
  "eq_re =
     Seqs [Grp 1 (Alts [Lit SOURCE_PARAM, Lit SOURCE_HEADER]), quoted_re 2, Lit (js '' == ''),
           Grp 3 (Plus (Cls no_newline))]"

definition param_op_mode :: "jstring \<Rightarrow> jstring" where
  "param_op_mode p =
     (if p = js ''>'' then MATCH_GT else if p = js ''>='' then MATCH_GTE
      else if p = js ''<'' then MATCH_LT else MATCH_LTE)"

definition ph_cond :: "jstring \<Rightarrow> jstring \<Rightarrow> jstring \<Rightarrow> jstring \<Rightarrow> RequestCondition" where
  "ph_cond source path mode value' =
     PHCond \<lparr>ph_source = source, ph_path = path, ph_mode = mode, ph_value = value'\<rparr>"

text \<open>
  The \<open>contains\<close> branches call \<open>JSON.parse\<close> outside any \<open>try\<close>: a literal that the
  expression accepts and JSON does not (\<open>"\q"\<close>) throws.
\<close>

definition contains_cond :: "jstring \<Rightarrow> jstring \<Rightarrow> jstring \<Rightarrow> exn + RequestCondition option" where
  "contains_cond source path lit =
     (case JSON_parse lit of
        None \<Rightarrow> Inl SyntaxError
      | Some v \<Rightarrow> Inr (Some (ph_cond source path MATCH_CONTAINS (to_str v))))"

definition eq_cond :: "caps \<Rightarrow> RequestCondition option" where
  "eq_cond m =
     (let v = parseExprLiteral (opt_str (m 3)) in
      if v = Null then None
      else Some (ph_cond (opt_str (m 1)) (opt_str (m 2)) MATCH_EQ (to_str v)))"

definition same_path :: "caps option \<Rightarrow> caps option" where
  "same_path m = (case m of Some c \<Rightarrow> if c 1 = c 2 then Some c else None | None \<Rightarrow> None)"

definition tryParseRequestCondition :: "jstring \<Rightarrow> exn + RequestCondition option" where
  "tryParseRequestCondition expr =
     (case tryParseTimeCondition expr of Some tc \<Rightarrow> Inr (Some tc) | None \<Rightarrow>
     (case re_match (anchored header_exists_re) expr of
        Some m \<Rightarrow> Inr (Some (ph_cond SOURCE_HEADER (opt_str (m 1)) MATCH_EXISTS []))
      | None \<Rightarrow>
     (case re_match (anchored param_exists_re) expr of
        Some m \<Rightarrow> Inr (Some (ph_cond SOURCE_PARAM (opt_str (m 1)) MATCH_EXISTS []))
      | None \<Rightarrow>
     (case re_match (anchored header_has_re) expr of
        Some m \<Rightarrow> contains_cond SOURCE_HEADER (opt_str (m 1)) (opt_str (m 2))
      | None \<Rightarrow>
     (case same_path (re_match (anchored param_has_re) expr) of
        Some m \<Rightarrow> contains_cond SOURCE_PARAM (opt_str (m 1)) (opt_str (m 3))
      | None \<Rightarrow>
     (case same_path (re_match (anchored param_cmp_re) expr) of
        Some m \<Rightarrow> Inr (Some (ph_cond SOURCE_PARAM (opt_str (m 1)) (param_op_mode (opt_str (m 3)))
          (opt_str (m 4))))
      | None \<Rightarrow>
     (case re_match (anchored eq_re) expr of
        Some m \<Rightarrow> Inr (eq_cond m)
      | None \<Rightarrow> Inr None)))))))"

definition rule_group_re :: re where
  "rule_group_re =
     Seqs [Chr 40, Grp 1 (Plus (Cls any_unit)), Lit (js '' ? ''), Grp 2 (Plus (Cls num_cls)), Lit (js '' : 1)'')]"

text \<open>
  A loop that reads every part and gives up on the first that is not readable, as the
  two readers below have it: an exception passes through.
\<close>

fun read_all :: "('a \<Rightarrow> exn + 'b option) \<Rightarrow> 'a list \<Rightarrow> exn + 'b list option" where
  "read_all f [] = Inr (Some [])"
| "read_all f (x # xs) =
     (case f x of
        Inl e \<Rightarrow> Inl e
      | Inr None \<Rightarrow> Inr None
      | Inr (Some y) \<Rightarrow>
          (case read_all f xs of
             Inl e \<Rightarrow> Inl e
           | Inr None \<Rightarrow> Inr None
           | Inr (Some ys) \<Rightarrow> Inr (Some (y # ys))))"

definition tryParseRuleGroupFactor :: "jstring \<Rightarrow> exn + RequestRuleGroup option" where
  "tryParseRuleGroupFactor part =
     (case re_match (anchored rule_group_re) part of
        None \<Rightarrow> Inr None
      | Some m \<Rightarrow>
          (case read_all (\<lambda>ap. tryParseRequestCondition (trim ap)) (splitTopLevelAnd (opt_str (m 1))) of
             Inl e \<Rightarrow> Inl e
           | Inr None \<Rightarrow> Inr None
           | Inr (Some conditions) \<Rightarrow>
               if conditions = [] then Inr None
               else Inr (Some \<lparr>rg_conditions = conditions, rg_multiplier = opt_str (m 2)\<rparr>)))"

definition tryParseRequestRuleExpr :: "jstring \<Rightarrow> exn + RequestRuleGroup list option" where
  "tryParseRequestRuleExpr expr =
     (let t = trim expr in
      if t = [] then Inr (Some [])
      else read_all tryParseRuleGroupFactor (splitTopLevelMultiply t))"

subsection \<open>Combine and split\<close>

fun depth_scan :: "int \<Rightarrow> jstring \<Rightarrow> bool" where
  "depth_scan d [] = (d = 0)"
| "depth_scan d (x # s) =
     (let d' = depth_step x d in if d' = 0 \<and> s \<noteq> [] then False else depth_scan d' s)"

definition hasFullOuterParens :: "jstring \<Rightarrow> bool" where
  "hasFullOuterParens expr =
     (if \<not> starts_with expr (js ''('') \<or> \<not> ends_with expr (js '')'') then False
      else depth_scan 0 expr)"

lemma trim_length: "length (trim s) \<le> length s"
  unfolding trim_def by (metis length_dropWhile_le length_rev le_trans)

function unwrap_loop :: "jstring \<Rightarrow> jstring" where
  "unwrap_loop current =
     (if hasFullOuterParens current then unwrap_loop (trim (butlast (tl current))) else current)"
  by pat_completeness auto
termination
proof (relation "measure length")
  fix current assume "hasFullOuterParens current"
  then have "current \<noteq> []"
    by (auto simp: hasFullOuterParens_def starts_with_def js_simps split: if_splits)
  then show "(trim (butlast (tl current)), current) \<in> measure length"
    using trim_length [of "butlast (tl current)"] by (cases current) auto
qed simp

declare unwrap_loop.simps [simp del]

definition unwrapOuterParens :: "jstring \<Rightarrow> jstring" where
  "unwrapOuterParens expr = unwrap_loop (trim expr)"

text \<open>\<open>is_rule_part part\<close>: \<open>parsed && parsed.length > 0\<close>.\<close>

definition is_rule_part :: "jstring \<Rightarrow> exn + bool" where
  "is_rule_part part =
     (case tryParseRequestRuleExpr part of
        Inl e \<Rightarrow> Inl e
      | Inr None \<Rightarrow> Inr False
      | Inr (Some gs) \<Rightarrow> Inr (gs \<noteq> []))"

fun partition_parts :: "jstring list \<Rightarrow> exn + (jstring list \<times> jstring list)" where
  "partition_parts [] = Inr ([], [])"
| "partition_parts (part # ps) =
     (case is_rule_part part of
        Inl e \<Rightarrow> Inl e
      | Inr b \<Rightarrow>
          (case partition_parts ps of
             Inl e \<Rightarrow> Inl e
           | Inr (rs, bs) \<Rightarrow> Inr (if b then (part # rs, bs) else (rs, part # bs))))"

definition splitBillingExprAndRequestRules :: "jstring \<Rightarrow> exn + jstring \<times> jstring" where
  "splitBillingExprAndRequestRules expr =
     (let t = trim expr in
      if t = [] then Inr ([], [])
      else
        (let parts = splitTopLevelMultiply t in
         if length parts \<le> 1 then Inr (t, [])
         else
           (case partition_parts parts of
              Inl e \<Rightarrow> Inl e
            | Inr (ruleParts, baseParts) \<Rightarrow>
                if length ruleParts = 0 \<or> length baseParts \<noteq> 1 then Inr (t, [])
                else Inr (unwrapOuterParens (baseParts ! 0), join (js '' * '') ruleParts))))"

definition combineBillingExpr :: "jstring \<Rightarrow> jstring \<Rightarrow> jstring" where
  "combineBillingExpr baseExpr requestRuleExpr =
     (let base = trim baseExpr; rules = trim requestRuleExpr in
      if base = [] then []
      else if rules = [] then base
      else js ''('' @ base @ js '') * '' @ rules)"

subsection \<open>Editor\<close>

definition createEmptyCondition :: ParamHeaderCondition where
  "createEmptyCondition = \<lparr>ph_source = SOURCE_PARAM, ph_path = [], ph_mode = MATCH_EQ, ph_value = []\<rparr>"

definition createEmptyTimeCondition :: TimeCondition where
  "createEmptyTimeCondition =
     \<lparr>tc_timeFunc = js ''hour'', tc_timezone = js ''Asia/Shanghai'', tc_mode = MATCH_GTE, tc_value = [],
      tc_rangeStart = [], tc_rangeEnd = []\<rparr>"

definition createEmptyRuleGroup :: RequestRuleGroup where
  "createEmptyRuleGroup = \<lparr>rg_conditions = [PHCond createEmptyCondition], rg_multiplier = []\<rparr>"

definition createEmptyTimeRuleGroup :: RequestRuleGroup where
  "createEmptyTimeRuleGroup = \<lparr>rg_conditions = [TimeCond createEmptyTimeCondition], rg_multiplier = []\<rparr>"

definition getRequestRuleMatchOptions :: "jstring \<Rightarrow> (jstring \<times> jstring) list" where
  "getRequestRuleMatchOptions source =
     (if source = SOURCE_TIME then
        [(MATCH_EQ, js ''Equals''), (MATCH_GTE, js ''Greater than or equal''),
         (MATCH_LT, js ''Less than''), (MATCH_RANGE, js ''Overnight range'')]
      else
        (let base = [(MATCH_EQ, js ''Equals''), (MATCH_CONTAINS, js ''Contains''), (MATCH_EXISTS, js ''Exists'')] in
         if source = SOURCE_HEADER then base
         else base @ [(MATCH_GT, js ''Greater than''), (MATCH_GTE, js ''Greater than or equal''),
                      (MATCH_LT, js ''Less than''), (MATCH_LTE, js ''Less than or equal'')]))"

definition isTimeFunc :: "jstring option \<Rightarrow> bool" where
  "isTimeFunc v = (case v of None \<Rightarrow> False | Some s \<Rightarrow> s \<in> set TIME_FUNCS)"

text \<open>\<open>Partial<RequestCondition>\<close>: every field may be missing.\<close>

record PartialCondition =
  pc_source :: "jstring option"
  pc_path :: "jstring option"
  pc_timeFunc :: "jstring option"
  pc_timezone :: "jstring option"
  pc_mode :: "jstring option"
  pc_value :: "jstring option"
  pc_rangeStart :: "jstring option"
  pc_rangeEnd :: "jstring option"

definition partial_of :: "RequestCondition \<Rightarrow> PartialCondition" where
  "partial_of cond = (case cond of
       PHCond c \<Rightarrow> \<lparr>pc_source = Some (ph_source c), pc_path = Some (ph_path c), pc_timeFunc = None,
         pc_timezone = None, pc_mode = Some (ph_mode c), pc_value = Some (ph_value c),
         pc_rangeStart = None, pc_rangeEnd = None\<rparr>
     | TimeCond c \<Rightarrow> \<lparr>pc_source = Some SOURCE_TIME, pc_path = None, pc_timeFunc = Some (tc_timeFunc c),
         pc_timezone = Some (tc_timezone c), pc_mode = Some (tc_mode c), pc_value = Some (tc_value c),
         pc_rangeStart = Some (tc_rangeStart c), pc_rangeEnd = Some (tc_rangeEnd c)\<rparr>)"

definition valid_mode :: "jstring \<Rightarrow> jstring option \<Rightarrow> jstring \<Rightarrow> jstring" where
  "valid_mode source mode dflt =
     (if \<exists>item \<in> set (getRequestRuleMatchOptions source). Some (fst item) = mode
      then opt_str mode else dflt)"

definition normalize_time :: "PartialCondition option \<Rightarrow> TimeCondition" where
  "normalize_time cond =
     (let get = (\<lambda>f. Option.bind cond f) in
      \<lparr>tc_timeFunc = (if isTimeFunc (get pc_timeFunc) then opt_str (get pc_timeFunc) else js ''hour''),
       tc_timezone = or_str (opt_str (get pc_timezone)) (js ''Asia/Shanghai''),
       tc_mode = valid_mode SOURCE_TIME (get pc_mode) MATCH_GTE,
       tc_value = opt_str (get pc_value),
       tc_rangeStart = opt_str (get pc_rangeStart),
       tc_rangeEnd = opt_str (get pc_rangeEnd)\<rparr>)"

definition normalize_ph :: "jstring \<Rightarrow> PartialCondition option \<Rightarrow> ParamHeaderCondition" where
  "normalize_ph source cond =
     (let get = (\<lambda>f. Option.bind cond f) in
      \<lparr>ph_source = source, ph_path = opt_str (get pc_path),
       ph_mode = valid_mode source (get pc_mode) MATCH_EQ,
       ph_value = opt_str (get pc_value)\<rparr>)"

definition normalizeCondition :: "PartialCondition option \<Rightarrow> RequestCondition" where
  "normalizeCondition cond =
     (let source = (if Option.bind cond pc_source = Some SOURCE_TIME then SOURCE_TIME
                    else if Option.bind cond pc_source = Some SOURCE_HEADER then SOURCE_HEADER
                    else SOURCE_PARAM) in
      if source = SOURCE_TIME then TimeCond (normalize_time cond)
      else PHCond (normalize_ph source cond))"

definition buildExprLiteral :: "jstring \<Rightarrow> jstring \<Rightarrow> jstring" where
  "buildExprLiteral mode v =
     (let t = trim v in
      if mode = MATCH_CONTAINS then JSON_quote t
      else if t = js ''true'' \<or> t = js ''false'' then t
      else if is_numeric_literal t then t
      else JSON_quote t)"

definition time_mode_op :: "jstring \<Rightarrow> jstring" where
  "time_mode_op mode =
     (if mode = MATCH_EQ then js ''=='' else if mode = MATCH_GTE then js ''>=''
      else if mode = MATCH_LT then js ''<'' else js ''=='')"

definition buildTimeConditionExpr :: "TimeCondition \<Rightarrow> jstring" where
  "buildTimeConditionExpr cond =
     (let normalized = normalize_time (Some (partial_of (TimeCond cond)));
          fn = tc_timeFunc normalized @ js ''('' @ JSON_quote (tc_timezone normalized) @ js '')'' in
      if tc_mode normalized = MATCH_RANGE then
        (let s = trim (tc_rangeStart normalized); e = trim (tc_rangeEnd normalized) in
         if \<not> is_numeric_literal s \<or> \<not> is_numeric_literal e then []
         else fn @ js '' >= '' @ s @ js '' || '' @ fn @ js '' < '' @ e)
      else
        (let v = trim (tc_value normalized) in
         if \<not> is_numeric_literal v then []
         else fn @ js '' '' @ time_mode_op (tc_mode normalized) @ js '' '' @ v))"

definition param_mode_op :: "jstring \<Rightarrow> jstring" where
  "param_mode_op mode =
     (if mode = MATCH_GT then js ''>'' else if mode = MATCH_GTE then js ''>=''
      else if mode = MATCH_LT then js ''<'' else js ''<='')"

definition build_ph :: "ParamHeaderCondition \<Rightarrow> jstring" where
  "build_ph normalized =
     (let path = trim (ph_path normalized);
          header = (ph_source normalized = SOURCE_HEADER);
          mode = ph_mode normalized;
          sourceExpr = (if header then js ''header'' else js ''param'') @ js ''('' @ JSON_quote path @ js '')'' in
      if path = [] then []
      else if mode = MATCH_EXISTS then
        (if header then sourceExpr @ js '' != \"\"'' else sourceExpr @ js '' != nil'')
      else if mode = MATCH_CONTAINS then
        (let has = js ''has('' @ sourceExpr @ js '', '' @ buildExprLiteral mode (ph_value normalized) @ js '')'' in
         if header then has else sourceExpr @ js '' != nil && '' @ has)
      else if mode \<in> {MATCH_GT, MATCH_GTE, MATCH_LT, MATCH_LTE} then
        (let numText = trim (ph_value normalized) in
         if \<not> is_numeric_literal numText then []
         else sourceExpr @ js '' != nil && '' @ sourceExpr @ js '' '' @ param_mode_op mode @ js '' '' @ numText)
      else sourceExpr @ js '' == '' @ buildExprLiteral mode (ph_value normalized))"

text \<open>
  The \<open>source\<close> of a parameter or header condition is \<open>'param'\<close> or \<open>'header'\<close> by its type, so
  its normal form is one as well.
\<close>

definition buildRequestConditionExpr :: "RequestCondition \<Rightarrow> jstring" where
  "buildRequestConditionExpr cond =
     (case cond of
        TimeCond c \<Rightarrow> buildTimeConditionExpr c
      | PHCond _ \<Rightarrow>
          (case normalizeCondition (Some (partial_of cond)) of
             PHCond normalized \<Rightarrow> build_ph normalized
           | TimeCond _ \<Rightarrow> []))"

definition wrap_or :: "jstring \<Rightarrow> jstring" where
  "wrap_or e = (if str_includes e (js '' || '') then js ''('' @ e @ js '')'' else e)"

definition buildRuleGroupFactor :: "RequestRuleGroup \<Rightarrow> jstring" where
  "buildRuleGroupFactor grp =
     (let multiplier = trim (rg_multiplier grp) in
      if \<not> is_numeric_literal multiplier then []
      else
        (let condExprs = filter nonempty (map buildRequestConditionExpr (rg_conditions grp)) in
         if length condExprs = 0 then []
         else
           (let combined = (if length condExprs = 1 then condExprs ! 0
                            else join (js '' && '') (map wrap_or condExprs)) in
            js ''('' @ combined @ js '' ? '' @ multiplier @ js '' : 1)'')))"

definition buildRequestRuleExpr :: "RequestRuleGroup list \<Rightarrow> jstring" where
  "buildRequestRuleExpr gs =
     join (js '' * '') (filter nonempty (map buildRuleGroupFactor gs))"

end
