(* ===== verification/BillingRules.thy ===== *)
theory BillingRules
  imports BillingExpr
begin

text \<open>
  The texts that the writers of \<open>billing-expr.ts\<close> produce and how its readers see them:
  numeric literals and plain texts, parenthesis depth, the splits at the top level,
  and each form of condition, alone and in a rule group.
\<close>

subsection \<open>Numeric literals and plain text\<close>

lemma num_cls_facts:
  "num_cls c \<Longrightarrow> \<not> is_ws c \<and> c \<noteq> 32 \<and> c \<noteq> 40 \<and> c \<noteq> 41 \<and> c \<noteq> 34 \<and> c \<noteq> 38 \<and> c \<noteq> 124"
  by (auto simp: num_cls_def is_digit_def is_ws_def)

lemma not_num_cls [simp]: "\<not> num_cls 32" "\<not> num_cls 41" "\<not> num_cls 34" "\<not> num_cls 63"
  by (simp_all add: num_cls_def is_digit_def)

lemma not_no_quote [simp]: "\<not> no_quote 34"
  by (simp add: no_quote_def)

lemma numeric_literal:
  assumes "is_numeric_literal s"
  shows "s \<noteq> []" and "list_all num_cls s"
proof -
  let ?r = "Seqs [Opt (Chr 45),
        Alt (Seqs [Plus (Cls is_digit), Opt (Chr 46), Star (Cls is_digit)])
            (Seq (Chr 46) (Plus (Cls is_digit))),
        Opt (Seqs [Cls (\<lambda>c. c = 101 \<or> c = 69), Opt (Cls (\<lambda>c. c = 43 \<or> c = 45)), Plus (Cls is_digit)])]"
  have e: "NUMERIC_LITERAL_REGEX = Seq Bol (Seq ?r Eol)"
    by (simp only: NUMERIC_LITERAL_REGEX_def)
  have "filter (\<lambda>u. ahead u = []) (ms ?r ([], s, Map.empty)) \<noteq> []"
    using assms unfolding is_numeric_literal_def re_test_def e exec_from_Bol_start match_at_def ms_anchored
    by (auto simp del: ms.simps Seqs.simps split: list.splits)
  then obtain u where "u \<in> set (ms ?r ([], s, Map.empty))" "ahead u = []"
    by (auto simp del: ms.simps Seqs.simps simp: filter_empty_conv)
  moreover have "over num_cls ?r" "min_len ?r = 1"
    by (auto simp: num_cls_def Plus_def Chr_def)
  ultimately have "eats num_cls 1 ([], s, Map.empty) u" "ahead u = []"
    using ms_eats [of u ?r _ num_cls] by (simp_all del: ms.simps Seqs.simps)
  then show "s \<noteq> []" and "list_all num_cls s"
    by (auto simp: eats_def)
qed

lemma numeric_trim: "is_numeric_literal s \<Longrightarrow> trim s = s"
  using numeric_literal [of s] num_cls_facts by (intro trim_no_ws) (auto simp: list_all_iff)

definition plain_unit :: "nat \<Rightarrow> bool" where
  "plain_unit c \<longleftrightarrow> 32 \<le> c \<and> c \<noteq> 34 \<and> c \<noteq> 38 \<and> c \<noteq> 40 \<and> c \<noteq> 41 \<and> c \<noteq> 92 \<and> c \<noteq> 124 \<and>
     c \<noteq> 8232 \<and> c \<noteq> 8233 \<and> \<not> is_high c \<and> \<not> is_low c"

definition plain :: "jstring \<Rightarrow> bool" where
  "plain s = list_all plain_unit s"

lemma plain_append [simp]: "plain (s @ t) \<longleftrightarrow> plain s \<and> plain t"
  by (simp add: plain_def)

lemma numeric_plain: "is_numeric_literal s \<Longrightarrow> plain s"
  using numeric_literal(2) [of s]
  by (auto simp: plain_def list_all_iff plain_unit_def num_cls_def is_digit_def is_high_def is_low_def)

lemma plain_unit_facts:
  assumes "plain_unit c"
  shows "no_quote c" and "no_newline c" and "c \<noteq> 34 \<and> c \<noteq> 92 \<and> c \<noteq> 40 \<and> c \<noteq> 41 \<and> c \<noteq> 38 \<and> c \<noteq> 124"
  using assms by (simp_all add: plain_unit_def no_quote_def no_newline_def)

lemma plain_imp: "plain s \<Longrightarrow> (\<And>c. plain_unit c \<Longrightarrow> P c) \<Longrightarrow> list_all P s"
  by (simp add: plain_def list_all_iff)

lemmas plain_no_quote = plain_imp [OF _ plain_unit_facts(1)]
lemmas plain_no_newline = plain_imp [OF _ plain_unit_facts(2)]

lemma plain_notin: "plain s \<Longrightarrow> 34 \<notin> set s \<and> 92 \<notin> set s \<and> 40 \<notin> set s \<and> 41 \<notin> set s \<and> 38 \<notin> set s \<and> 124 \<notin> set s"
  using plain_unit_facts(3) by (auto simp: plain_def list_all_iff)

lemma quote_chars_plain: "plain s \<Longrightarrow> quote_chars s = s"
  by (induction s rule: quote_chars.induct) (auto simp: plain_def plain_unit_def esc_unit_def)

lemma JSON_quote_plain: "plain s \<Longrightarrow> JSON_quote s = 34 # s @ [34]"
  by (simp add: JSON_quote_def quote_chars_plain)

subsection \<open>Parenthesis depth\<close>

definition depth :: "int \<Rightarrow> jstring \<Rightarrow> int" where
  "depth d s = foldl (\<lambda>d c. depth_step c d) d s"

fun deep :: "int \<Rightarrow> jstring \<Rightarrow> bool" where
  "deep d [] = True"
| "deep d (x # s) = (0 < depth_step x d \<and> deep (depth_step x d) s)"

text \<open>\<open>balanced s\<close>: every parenthesis that \<open>s\<close> opens it closes, and the other way round.\<close>

definition balanced :: "jstring \<Rightarrow> bool" where
  "balanced s \<longleftrightarrow> deep 1 s \<and> depth 1 s = 1"

lemma depth_simps [simp]:
  "depth d [] = d" "depth d (x # s) = depth (depth_step x d) s" "depth d (s @ t) = depth (depth d s) t"
  by (simp_all add: depth_def)

lemma deep_append [simp]: "deep d (s @ t) \<longleftrightarrow> deep d s \<and> deep (depth d s) t"
  by (induction s arbitrary: d) auto

lemma depth_shift: "depth (d + k) s = depth d s + k"
proof (induction s arbitrary: d)
  case (Cons x s)
  have "depth_step x (d + k) = depth_step x d + k" by (simp add: depth_step_def)
  then show ?case using Cons by simp
qed simp

lemma deep_mono: "deep d s \<Longrightarrow> d \<le> e \<Longrightarrow> deep e s"
proof (induction s arbitrary: d e)
  case (Cons x s)
  have "depth_step x d \<le> depth_step x e" using Cons.prems by (simp add: depth_step_def)
  then show ?case using Cons by fastforce
qed simp

lemma balanced_depth: "balanced s \<Longrightarrow> depth d s = d"
  using depth_shift [of 1 "d - 1" s] by (simp add: balanced_def)

lemma balanced_deep: "balanced s \<Longrightarrow> 0 < d \<Longrightarrow> deep d s"
  using deep_mono [of 1 s d] by (simp add: balanced_def)

lemma balanced_append: "balanced s \<Longrightarrow> balanced t \<Longrightarrow> balanced (s @ t)"
  by (simp add: balanced_def)

lemma balanced_Cons: "x \<noteq> 40 \<Longrightarrow> x \<noteq> 41 \<Longrightarrow> balanced (x # s) = balanced s"
  by (simp add: balanced_def depth_step_def)

lemma balanced_Nil [simp]: "balanced []"
  by (simp add: balanced_def)

lemma balanced_paren: "balanced s \<Longrightarrow> balanced (40 # s @ [41])"
  using balanced_depth [of s 2] balanced_deep [of s 2] by (simp add: balanced_def depth_step_def)

lemma balanced_free: "40 \<notin> set s \<Longrightarrow> 41 \<notin> set s \<Longrightarrow> balanced s"
  by (induction s) (auto simp: balanced_Cons)

lemma balanced_plain: "plain s \<Longrightarrow> balanced s"
  using plain_notin [of s] by (simp add: balanced_free)

lemma balanced_join: "balanced sep \<Longrightarrow> \<forall>x \<in> set xs. balanced x \<Longrightarrow> balanced (join sep xs)"
  by (induction sep xs rule: join.induct) (auto simp: balanced_append)

subsection \<open>Splitting at the top level\<close>

text \<open>\<open>quiet sep d u v\<close>: no separator starts at depth 0 inside \<open>u\<close> when \<open>v\<close> follows.\<close>

fun quiet :: "jstring \<Rightarrow> int \<Rightarrow> jstring \<Rightarrow> jstring \<Rightarrow> bool" where
  "quiet sep d [] v = True"
| "quiet sep d (x # u) v = (\<not> (depth_step x d = 0 \<and> prefix sep (x # u @ v)) \<and> quiet sep (depth_step x d) u v)"

lemma split_top_quiet:
  "quiet sep d u v \<Longrightarrow> split_top sep d cur (u @ v) = split_top sep (depth d u) (cur @ u) v"
  by (induction u arbitrary: d cur) (auto simp: Let_def)

lemma split_top_sep:
  "sep = x # w \<Longrightarrow> depth_step x 0 = 0 \<Longrightarrow> split_top sep 0 cur (sep @ v) = trim cur # split_top sep 0 [] v"
  by (simp add: Let_def)

text \<open>A separator that starts with a blank, and parts that no separator can start in.\<close>

definition whole :: "jstring \<Rightarrow> jstring \<Rightarrow> bool" where
  "whole sep e \<longleftrightarrow> trimmed e \<and> depth 0 e = 0 \<and> (\<forall>v. quiet sep 0 e v)"

lemma split_top_join:
  assumes sep: "sep = 32 # w" and "xs \<noteq> []" and "\<forall>e \<in> set xs. whole sep e"
  shows "split_top sep 0 [] (join sep xs) = xs"
  using assms(2,3)
proof (induction xs rule: induct_list012)
  case (2 e)
  have "split_top sep 0 [] (e @ []) = [trim e]"
    using 2 by (subst split_top_quiet) (auto simp: whole_def)
  then show ?case using 2 by (simp add: whole_def trim_trimmed)
next
  case (3 e f xs)
  have "split_top sep 0 [] (e @ sep @ join sep (f # xs)) = trim e # split_top sep 0 [] (join sep (f # xs))"
    using 3 by (subst split_top_quiet)
      (auto simp: whole_def split_top_sep [OF sep] depth_step_def simp del: join.simps split_top.simps)
  moreover have "trim e = e" using 3 by (simp add: whole_def trim_trimmed)
  ultimately show ?case using 3 by simp
qed simp

lemma quiet_deep: "deep d u \<Longrightarrow> quiet sep d u v"
  by (induction u arbitrary: d) auto

lemma quiet_append: "quiet sep d u (u' @ v) \<Longrightarrow> quiet sep (depth d u) u' v \<Longrightarrow> quiet sep d (u @ u') v"
  by (induction u arbitrary: d) auto

lemma whole_paren:
  assumes "balanced w" and "sep = 32 # t"
  shows "whole sep (40 # w @ [41])"
proof -
  have "quiet sep 1 (w @ [41]) v" for v
    using assms balanced_deep [of w 1] balanced_depth [of w 1]
    by (intro quiet_append) (simp_all add: quiet_deep depth_step_def)
  then show ?thesis
    using balanced_depth [OF assms(1), of 1]
    by (simp add: whole_def trimmed_def is_ws_def depth_step_def)
qed

lemma whole_free:
  assumes "balanced e" and "trimmed e" and "c \<notin> set e" and "sep = 32 # c # t"
  shows "whole sep e"
proof -
  have "quiet sep d u v" if "u \<noteq> [] \<longrightarrow> last u \<noteq> 32" "c \<notin> set u" for d u v
    using that
  proof (induction u arbitrary: d)
    case (Cons x u)
    then show ?case using assms(4) by (cases u) auto
  qed simp
  moreover have "e \<noteq> [] \<longrightarrow> last e \<noteq> 32"
    using assms(2) by (auto simp: trimmed_def is_ws_def)
  ultimately show ?thesis
    using assms balanced_depth [OF assms(1)] by (simp add: whole_def)
qed

subsection \<open>Reading what was written\<close>

lemma re_match_full:
  "re_match (anchored r) s = (case full r ([], s, Map.empty) of [] \<Rightarrow> None | c # _ \<Rightarrow> Some (c(0 \<mapsto> s)))"
  by (simp add: anchored_def re_match_anchored)

lemmas billing_re_defs = time_range_re_def time_cmp_re_def time_func_re_def TIME_FUNCS_def quoted_re_def
  header_exists_re_def param_exists_re_def header_has_re_def param_has_re_def param_cmp_re_def eq_re_def

lemma string_lit_iter:
  assumes "list_all P u" and "c \<noteq> d" and "\<not> P c" and "d \<notin> set u"
  shows "length u \<le> n \<Longrightarrow> iter n (\<lambda>st. ms (Alt (Cls P) (Seq (Chr d) b)) st) (pre, u @ c # s, m) =
     runs (length u) (pre, u @ c # s, m)"
  using assms(1,4)
proof (induction n arbitrary: pre u)
  case (Suc n)
  then show ?case using assms(2,3) by (cases u) (simp_all add: runs_Suc)
qed simp

lemma full_string_lit:
  assumes "plain u"
  shows "full (Seq (string_lit_re i) r) (pre, 34 # u @ 34 # s, m) =
     full r (34 # rev u @ 34 # pre, s, m(i \<mapsto> 34 # u @ [34]))"
proof -
  let ?P = "\<lambda>c. c \<noteq> 34 \<and> c \<noteq> 92" and ?t = "u @ 34 # s"
  let ?c = "\<lambda>k. ms (Chr 34) (rev (take k ?t) @ 34 # pre, drop k ?t, m)"
  have "list_all ?P u" "92 \<notin> set u" using plain_notin [OF assms] by (auto simp: list_all_iff)
  moreover have "groups (Alt (Cls ?P) (Seq (Chr 92) (Cls no_newline))) = []" by (simp add: Chr_def)
  ultimately have "ms (Star (Alt (Cls ?P) (Seq (Chr 92) (Cls no_newline)))) (34 # pre, ?t, m) =
      runs (length u) (34 # pre, ?t, m)"
    using string_lit_iter [of ?P u 34 92 "length ?t" "Cls no_newline" "34 # pre" s m]
    by (simp only: ms.simps(5) forget_Nil ahead_simp) simp
  then have "ms (Seqs [Chr 34, Star (Alt (Cls ?P) (Seq (Chr 92) (Cls no_newline))), Chr 34]) (pre, 34 # ?t, m) =
      concat (map ?c (rev [0..<Suc (length u)]))"
    by (simp add: runs_def comp_def del: upt_Suc)
  also have "\<dots> = ?c (length u)"
  proof (rule concat_one)
    fix j assume j: "j \<in> set (rev [0..<Suc (length u)])" "j \<noteq> length u"
    then have "j < length u" by auto
    then have "drop j ?t = u ! j # drop (Suc j) ?t"
      by (auto simp: Cons_nth_drop_Suc [symmetric] nth_append simp del: drop_append)
    moreover have "u ! j \<noteq> 34"
      using \<open>j < length u\<close> plain_notin [OF assms] nth_mem [of j u] by metis
    ultimately show "?c j = []" by simp
  qed auto
  finally have "ms (string_lit_re i) (pre, 34 # ?t, m) = [(34 # rev u @ 34 # pre, s, m(i \<mapsto> 34 # u @ [34]))]"
    by (simp add: string_lit_re_def)
  then show ?thesis by (simp add: full_Seq)
qed

definition readable_ph :: "ParamHeaderCondition \<Rightarrow> bool" where
  "readable_ph c \<longleftrightarrow>
     (ph_source c = SOURCE_PARAM \<or> ph_source c = SOURCE_HEADER) \<and>
     ph_path c \<noteq> [] \<and> trimmed (ph_path c) \<and> plain (ph_path c) \<and>
     (ph_mode c = MATCH_EXISTS \<and> ph_value c = [] \<or>
      ph_mode c = MATCH_EQ \<and> trimmed (ph_value c) \<and> plain (ph_value c) \<or>
      ph_mode c = MATCH_CONTAINS \<and> ph_source c = SOURCE_HEADER \<and> trimmed (ph_value c) \<and> plain (ph_value c))"

definition readable_time :: "TimeCondition \<Rightarrow> bool" where
  "readable_time c \<longleftrightarrow>
     tc_timeFunc c \<in> set TIME_FUNCS \<and> tc_timezone c \<noteq> [] \<and> plain (tc_timezone c) \<and>
     (tc_mode c = MATCH_RANGE \<and> tc_value c = [] \<and>
        is_numeric_literal (tc_rangeStart c) \<and> is_numeric_literal (tc_rangeEnd c) \<or>
      tc_mode c \<in> {MATCH_EQ, MATCH_GTE, MATCH_LT} \<and> is_numeric_literal (tc_value c) \<and>
        tc_rangeStart c = [] \<and> tc_rangeEnd c = [])"

definition readable_cond :: "RequestCondition \<Rightarrow> bool" where
  "readable_cond c = (case c of PHCond p \<Rightarrow> readable_ph p | TimeCond t \<Rightarrow> readable_time t)"

lemma valid_mode_opt:
  "m \<in> fst ` set (getRequestRuleMatchOptions source) \<Longrightarrow> valid_mode source (Some m) d = m"
  by (auto simp: valid_mode_def)

lemma normalize_readable_ph:
  assumes "readable_ph c"
  shows "normalizeCondition (Some (partial_of (PHCond c))) = PHCond c"
  using assms
  by (cases c) (auto simp: readable_ph_def normalizeCondition_def normalize_ph_def partial_of_def
      valid_mode_def getRequestRuleMatchOptions_def rule_consts js_simps)

lemma normalize_readable_time:
  assumes "readable_time c"
  shows "normalize_time (Some (partial_of (TimeCond c))) = c"
  using assms
  by (cases c) (auto simp: readable_time_def normalize_time_def partial_of_def isTimeFunc_def or_str_def
      valid_mode_def getRequestRuleMatchOptions_def rule_consts js_simps)

lemma time_none:
  "tryParseTimeCondition (104 # 101 # t) = None"
  "tryParseTimeCondition (112 # t) = None"
  "tryParseTimeCondition (104 # 97 # t) = None"
  by (simp_all add: tryParseTimeCondition_def re_match_full billing_re_defs full_simps js_simps)

lemmas read_simps = tryParseRequestCondition_def re_match_full billing_re_defs full_simps js_simps time_none

lemma read_header_exists:
  assumes "plain p" and "p \<noteq> []"
  shows "tryParseRequestCondition (js ''header(\"'' @ p @ js ''\") != \"\"'') =
     Inr (Some (ph_cond SOURCE_HEADER p MATCH_EXISTS []))"
  using plain_no_quote [OF assms(1)] assms(2) by (simp add: read_simps)

lemma read_param_exists:
  assumes "plain p" and "p \<noteq> []"
  shows "tryParseRequestCondition (js ''param(\"'' @ p @ js ''\") != nil'') =
     Inr (Some (ph_cond SOURCE_PARAM p MATCH_EXISTS []))"
  using plain_no_quote [OF assms(1)] assms(2) by (simp add: read_simps)

lemma parse_quoted: "JSON_parse (JSON_quote v) = Some (Str v)"
  using JSON_parse_stringify [of "Str v"] by (simp add: json_text_def)

lemma read_header_contains:
  assumes "plain p" and "p \<noteq> []" and "plain v"
  shows "tryParseRequestCondition (js ''has(header(\"'' @ p @ js ''\"), '' @ JSON_quote v @ js '')'') =
     Inr (Some (ph_cond SOURCE_HEADER p MATCH_CONTAINS v))"
  using plain_no_quote [OF assms(1)] assms(2) parse_quoted [of v]
  by (simp add: read_simps JSON_quote_plain [OF assms(3)] full_string_lit [OF assms(3)] contains_cond_def)

lemma read_eq:
  assumes "plain p" and "p \<noteq> []" and "list_all no_newline l" and "l \<noteq> []"
    and "parseExprLiteral l = Str v" and "source = SOURCE_PARAM \<or> source = SOURCE_HEADER"
  shows "tryParseRequestCondition (source @ js ''(\"'' @ p @ js ''\") == '' @ l) =
     Inr (Some (ph_cond source p MATCH_EQ v))"
  using plain_no_quote [OF assms(1)] assms(2-6)
  by (auto simp: read_simps eq_cond_def same_path_def SOURCE_PARAM_def SOURCE_HEADER_def)

lemma literal_roundtrip:
  assumes "plain v" and "trimmed v"
  shows "parseExprLiteral (buildExprLiteral MATCH_EQ v) = Str v"
    and "list_all no_newline (buildExprLiteral MATCH_EQ v)" and "buildExprLiteral MATCH_EQ v \<noteq> []"
proof -
  have t: "trim v = v" using assms(2) by (rule trim_trimmed)
  have q: "trim (JSON_quote v) = JSON_quote v"
    by (rule trim_trimmed) (simp add: JSON_quote_def trimmed_def is_ws_def)
  have n: "\<not> is_numeric_literal (JSON_quote v)"
    using numeric_literal(2) [of "JSON_quote v"] by (auto simp: JSON_quote_def)
  have m: "MATCH_EQ \<noteq> MATCH_CONTAINS" by (simp add: rule_consts)
  have j: "JSON_quote v \<noteq> js ''true''" "JSON_quote v \<noteq> js ''false''"
    by (simp_all add: JSON_quote_def js_simps)
  show "parseExprLiteral (buildExprLiteral MATCH_EQ v) = Str v"
    using m n j by (auto simp: buildExprLiteral_def parseExprLiteral_def t q parse_quoted Let_def)
  show "list_all no_newline (buildExprLiteral MATCH_EQ v)"
    using plain_no_newline [OF assms(1)] m
    by (simp add: buildExprLiteral_def t Let_def JSON_quote_plain [OF assms(1)] no_newline_def [of 34])
  show "buildExprLiteral MATCH_EQ v \<noteq> []"
    using numeric_literal(1) [of v] m by (auto simp: buildExprLiteral_def t Let_def js_simps JSON_quote_def)
qed

lemma time_func_cases:
  assumes "f \<in> set TIME_FUNCS"
  obtains "f = js ''hour''" | "f = js ''minute''" | "f = js ''weekday''" | "f = js ''month''" | "f = js ''day''"
  using assms by (auto simp: TIME_FUNCS_def)

lemmas read_time_simps = tryParseTimeCondition_def re_match_full billing_re_defs full_simps js_simps
  time_range_cond_def

lemma read_time_range:
  assumes "f \<in> set TIME_FUNCS" and "plain z" and "z \<noteq> []" and "is_numeric_literal a" and "is_numeric_literal b"
  shows "tryParseTimeCondition (f @ js ''(\"'' @ z @ js ''\") >= '' @ a @ js '' || '' @ f @ js ''(\"'' @ z @ js ''\") < '' @ b) =
     Some (TimeCond \<lparr>tc_timeFunc = f, tc_timezone = z, tc_mode = MATCH_RANGE, tc_value = [],
       tc_rangeStart = a, tc_rangeEnd = b\<rparr>)"
  using plain_no_quote [OF assms(2)] assms(3) numeric_literal [OF assms(4)] numeric_literal [OF assms(5)]
  by (cases rule: time_func_cases [OF assms(1)]) (simp_all add: read_time_simps)

lemma read_time_range_wrapped:
  assumes "f \<in> set TIME_FUNCS" and "plain z" and "z \<noteq> []" and "is_numeric_literal a" and "is_numeric_literal b"
  shows "tryParseTimeCondition (js ''('' @ (f @ js ''(\"'' @ z @ js ''\") >= '' @ a @ js '' || '' @
      f @ js ''(\"'' @ z @ js ''\") < '' @ b) @ js '')'') =
     Some (TimeCond \<lparr>tc_timeFunc = f, tc_timezone = z, tc_mode = MATCH_RANGE, tc_value = [],
       tc_rangeStart = a, tc_rangeEnd = b\<rparr>)"
  using plain_no_quote [OF assms(2)] assms(3) numeric_literal [OF assms(4)] numeric_literal [OF assms(5)]
  by (cases rule: time_func_cases [OF assms(1)]) (simp_all add: read_time_simps)

lemma read_time_cmp:
  assumes "f \<in> set TIME_FUNCS" and "plain z" and "z \<noteq> []" and "is_numeric_literal a"
    and "(p, m) \<in> {(js ''=='', MATCH_EQ), (js ''>='', MATCH_GTE), (js ''<'', MATCH_LT)}"
  shows "tryParseTimeCondition (f @ js ''(\"'' @ z @ js ''\") '' @ p @ js '' '' @ a) =
     Some (TimeCond \<lparr>tc_timeFunc = f, tc_timezone = z, tc_mode = m, tc_value = a,
       tc_rangeStart = [], tc_rangeEnd = []\<rparr>)"
proof -
  consider "p = js ''==''" "m = MATCH_EQ" | "p = js ''>=''" "m = MATCH_GTE" | "p = js ''<''" "m = MATCH_LT"
    using assms(5) by auto
  then show ?thesis
    using plain_no_quote [OF assms(2)] assms(3) numeric_literal [OF assms(4)]
    by cases (cases rule: time_func_cases [OF assms(1)]; simp add: read_time_simps time_op_mode_def)+
qed

subsection \<open>The shape of what is written\<close>

text \<open>A text that can stand between \<open> && \<close> and inside parentheses.\<close>

definition atom :: "jstring \<Rightarrow> bool" where
  "atom e \<longleftrightarrow> e \<noteq> [] \<and> trimmed e \<and> 38 \<notin> set e \<and> balanced e"

lemma plain_depth: "plain s \<Longrightarrow> depth d s = d"
  using balanced_plain balanced_depth by blast

lemma plain_deep: "plain s \<Longrightarrow> 0 < d \<Longrightarrow> deep d s"
  using balanced_plain balanced_deep by blast

lemmas atom_simps = atom_def balanced_def plain_depth plain_deep depth_step_def js_simps trimmed_def

lemma num_last: "is_numeric_literal a \<Longrightarrow> \<not> is_ws (last a)"
  using numeric_literal [of a] num_cls_facts by (auto simp: list_all_iff)

lemma not_ws [simp]:
  "\<not> is_ws 104" "\<not> is_ws 112" "\<not> is_ws 34" "\<not> is_ws 40" "\<not> is_ws 41" "\<not> is_ws 108" "\<not> is_ws 109"
  "\<not> is_ws 119" "\<not> is_ws 100"
  by (simp_all add: is_ws_def)

lemma literal_facts:
  assumes "plain v" and "trimmed v"
  shows "38 \<notin> set (buildExprLiteral MATCH_EQ v)" and "124 \<notin> set (buildExprLiteral MATCH_EQ v)"
    and "balanced (buildExprLiteral MATCH_EQ v)" and "\<not> is_ws (last (buildExprLiteral MATCH_EQ v))"
proof -
  have t: "trim v = v" using assms(2) by (rule trim_trimmed)
  have m: "MATCH_EQ \<noteq> MATCH_CONTAINS" by (simp add: rule_consts)
  have l: "buildExprLiteral MATCH_EQ v = 34 # v @ [34] \<or> buildExprLiteral MATCH_EQ v = v \<and> v \<noteq> []"
    using m numeric_literal(1) [of v]
    by (auto simp: buildExprLiteral_def t Let_def JSON_quote_plain [OF assms(1)] js_simps)
  show "38 \<notin> set (buildExprLiteral MATCH_EQ v)" "124 \<notin> set (buildExprLiteral MATCH_EQ v)"
    "balanced (buildExprLiteral MATCH_EQ v)" "\<not> is_ws (last (buildExprLiteral MATCH_EQ v))"
    using l assms plain_notin [OF assms(1)] by (auto simp: atom_simps)
qed

lemma written_ph:
  assumes "readable_ph c"
  shows "atom (build_ph c)" and "124 \<notin> set (build_ph c)"
    and "tryParseRequestCondition (build_ph c) = Inr (Some (PHCond c))"
proof -
  let ?s = "ph_source c" and ?p = "ph_path c" and ?v = "ph_value c"
  have p: "plain ?p" "?p \<noteq> []" "trim ?p = ?p" "JSON_quote ?p = 34 # ?p @ [34]"
    using assms by (simp_all add: readable_ph_def trim_trimmed JSON_quote_plain)
  have c: "c = \<lparr>ph_source = ?s, ph_path = ?p, ph_mode = ph_mode c, ph_value = ?v\<rparr>" by simp
  have s: "(if ?s = SOURCE_HEADER then js ''header'' else js ''param'') = ?s"
    using assms by (auto simp: readable_ph_def rule_consts)
  consider (ex) "ph_mode c = MATCH_EXISTS" "?v = []"
    | (eq) "ph_mode c = MATCH_EQ" "plain ?v" "trimmed ?v"
    | (has) "ph_mode c = MATCH_CONTAINS" "?s = SOURCE_HEADER" "plain ?v" "trimmed ?v"
    using assms by (auto simp: readable_ph_def)
  then have "atom (build_ph c) \<and> 124 \<notin> set (build_ph c) \<and>
      tryParseRequestCondition (build_ph c) = Inr (Some (PHCond c))"
  proof cases
    case ex
    have "build_ph c = js ''header(\"'' @ ?p @ js ''\") != \"\"'' \<and> ?s = SOURCE_HEADER \<or>
        build_ph c = js ''param(\"'' @ ?p @ js ''\") != nil'' \<and> ?s = SOURCE_PARAM"
      using ex p assms by (auto simp: build_ph_def Let_def readable_ph_def js_simps)
    then show ?thesis
      using ex p plain_notin [OF p(1)] read_header_exists [OF p(1,2)] read_param_exists [OF p(1,2)]
      by (subst c) (auto simp: ph_cond_def atom_simps)
  next
    case eq
    have "build_ph c = ?s @ js ''(\"'' @ ?p @ js ''\") == '' @ buildExprLiteral MATCH_EQ ?v"
      using eq p s by (simp add: build_ph_def Let_def rule_consts js_simps)
    moreover have "?s = SOURCE_PARAM \<or> ?s = SOURCE_HEADER"
      using assms by (simp add: readable_ph_def)
    ultimately show ?thesis
      using literal_facts [OF eq(2,3)] literal_roundtrip [OF eq(2,3)] plain_notin [OF p(1)]
        read_eq [OF p(1,2), of "buildExprLiteral MATCH_EQ ?v" ?v ?s] eq(1) p
      by (subst c) (auto simp: ph_cond_def atom_simps SOURCE_PARAM_def SOURCE_HEADER_def)
  next
    case has
    have "build_ph c = js ''has(header(\"'' @ ?p @ js ''\"), '' @ JSON_quote ?v @ js '')''"
      using has p by (simp add: build_ph_def Let_def rule_consts js_simps buildExprLiteral_def trim_trimmed)
    then show ?thesis
      using has read_header_contains [OF p(1,2) has(3)] plain_notin [OF p(1)] plain_notin [OF has(3)] p
      by (subst c) (auto simp: ph_cond_def atom_simps JSON_quote_plain)
  qed
  then show "atom (build_ph c)" "124 \<notin> set (build_ph c)"
    "tryParseRequestCondition (build_ph c) = Inr (Some (PHCond c))" by simp_all
qed

lemma wrap_or_free: "124 \<notin> set e \<Longrightarrow> wrap_or e = e"
  by (auto simp: wrap_or_def str_includes_iff js_simps)

lemma readable_time_facts:
  assumes "readable_time c"
  shows "tc_timeFunc c \<in> set TIME_FUNCS" "plain (tc_timezone c)" "tc_timezone c \<noteq> []"
    and "JSON_quote (tc_timezone c) = 34 # tc_timezone c @ [34]"
    and "plain (tc_timeFunc c)" "tc_timeFunc c \<noteq> []" "\<not> is_ws (hd (tc_timeFunc c))"
proof -
  show f: "tc_timeFunc c \<in> set TIME_FUNCS" "plain (tc_timezone c)" "tc_timezone c \<noteq> []"
    "JSON_quote (tc_timezone c) = 34 # tc_timezone c @ [34]"
    using assms by (simp_all add: readable_time_def JSON_quote_plain)
  show "plain (tc_timeFunc c)" "tc_timeFunc c \<noteq> []" "\<not> is_ws (hd (tc_timeFunc c))"
    by (cases rule: time_func_cases [OF f(1)];
        simp add: js_simps plain_def plain_unit_def is_high_def is_low_def is_ws_def)+
qed

lemma written_range:
  assumes "readable_time c" and "tc_mode c = MATCH_RANGE"
  shows "atom (buildTimeConditionExpr c) \<and>
    tryParseTimeCondition (buildTimeConditionExpr c) = Some (TimeCond c) \<and>
    tryParseTimeCondition (wrap_or (buildTimeConditionExpr c)) = Some (TimeCond c)"
proof -
  let ?f = "tc_timeFunc c" and ?z = "tc_timezone c" and ?a = "tc_rangeStart c" and ?b = "tc_rangeEnd c"
  let ?t = "?f @ js ''(\"'' @ ?z @ js ''\") >= '' @ ?a @ js '' || '' @ ?f @ js ''(\"'' @ ?z @ js ''\") < '' @ ?b"
  note z = readable_time_facts [OF assms(1)]
  have r: "tc_value c = []" "is_numeric_literal ?a" "is_numeric_literal ?b"
    using assms by (auto simp: readable_time_def rule_consts)
  have c: "c = \<lparr>tc_timeFunc = ?f, tc_timezone = ?z, tc_mode = MATCH_RANGE, tc_value = [],
      tc_rangeStart = ?a, tc_rangeEnd = ?b\<rparr>" using r assms(2) by simp
  have e: "buildTimeConditionExpr c = ?t"
    using r z assms by (simp add: buildTimeConditionExpr_def normalize_readable_time Let_def numeric_trim js_simps)
  have "str_includes ?t (js '' || '')"
    unfolding str_includes_iff by (metis append.assoc)
  then have w: "wrap_or (buildTimeConditionExpr c) = js ''('' @ ?t @ js '')''" by (simp add: wrap_or_def e)
  have n: "plain ?a" "plain ?b" using r by (simp_all add: numeric_plain)
  have "atom ?t"
    using z n num_last [OF r(3)] numeric_literal(1) [OF r(3)] plain_notin [OF z(2)] plain_notin [OF z(5)]
      plain_notin [OF n(1)] plain_notin [OF n(2)]
    by (auto simp: atom_simps hd_append)
  then show ?thesis
    using read_time_range [OF z(1-3) r(2,3)] read_time_range_wrapped [OF z(1-3) r(2,3)] c
    unfolding w unfolding e by simp
qed

lemma written_cmp:
  assumes "readable_time c" and "tc_mode c \<noteq> MATCH_RANGE"
  shows "atom (buildTimeConditionExpr c) \<and>
    tryParseTimeCondition (buildTimeConditionExpr c) = Some (TimeCond c) \<and>
    tryParseTimeCondition (wrap_or (buildTimeConditionExpr c)) = Some (TimeCond c)"
proof -
  let ?f = "tc_timeFunc c" and ?z = "tc_timezone c" and ?v = "tc_value c" and ?o = "time_mode_op (tc_mode c)"
  let ?t = "?f @ js ''(\"'' @ ?z @ js ''\") '' @ ?o @ js '' '' @ ?v"
  note z = readable_time_facts [OF assms(1)]
  have r: "tc_mode c \<in> {MATCH_EQ, MATCH_GTE, MATCH_LT}" "is_numeric_literal ?v" "tc_rangeStart c = []" "tc_rangeEnd c = []"
    using assms by (auto simp: readable_time_def)
  have c: "c = \<lparr>tc_timeFunc = ?f, tc_timezone = ?z, tc_mode = tc_mode c, tc_value = ?v,
      tc_rangeStart = [], tc_rangeEnd = []\<rparr>" using r by simp
  have e: "buildTimeConditionExpr c = ?t"
    using r z assms by (simp add: buildTimeConditionExpr_def normalize_readable_time Let_def numeric_trim js_simps)
  have o: "(?o, tc_mode c) \<in> {(js ''=='', MATCH_EQ), (js ''>='', MATCH_GTE), (js ''<'', MATCH_LT)}"
    using r(1) by (auto simp: time_mode_op_def rule_consts)
  then have n: "plain ?o" "plain ?v"
    using r(2) by (auto simp: js_simps plain_def plain_unit_def is_high_def is_low_def numeric_plain [unfolded plain_def])
  have "124 \<notin> set ?t"
    using plain_notin [OF z(2)] plain_notin [OF z(5)] plain_notin [OF n(1)] plain_notin [OF n(2)]
    by (auto simp: js_simps)
  then have w: "wrap_or (buildTimeConditionExpr c) = ?t"
    unfolding e by (rule wrap_or_free)
  have "atom ?t"
    using z n num_last [OF r(2)] numeric_literal(1) [OF r(2)] plain_notin [OF z(2)] plain_notin [OF z(5)]
      plain_notin [OF n(1)] plain_notin [OF n(2)]
    by (auto simp: atom_simps hd_append)
  then show ?thesis
    using read_time_cmp [OF z(1-3) r(2) o] c unfolding w unfolding e by simp
qed

lemma atom_paren: "atom e \<Longrightarrow> atom (40 # e @ [41])"
  by (simp add: atom_def balanced_paren trimmed_def)

lemma atom_wrap_or: "atom e \<Longrightarrow> atom (wrap_or e)"
  using atom_paren [of e] by (simp add: wrap_or_def js_simps)

lemma written_cond:
  assumes "readable_cond c"
  shows "atom (buildRequestConditionExpr c)"
    and "tryParseRequestCondition (buildRequestConditionExpr c) = Inr (Some c)"
    and "tryParseRequestCondition (wrap_or (buildRequestConditionExpr c)) = Inr (Some c)"
proof -
  have "atom (buildRequestConditionExpr c) \<and> tryParseRequestCondition (buildRequestConditionExpr c) = Inr (Some c) \<and>
      tryParseRequestCondition (wrap_or (buildRequestConditionExpr c)) = Inr (Some c)"
  proof (cases c)
    case (PHCond p)
    then have "readable_ph p" using assms by (simp add: readable_cond_def)
    then show ?thesis
      using PHCond written_ph [of p]
      by (simp add: buildRequestConditionExpr_def normalize_readable_ph wrap_or_free)
  next
    case (TimeCond t)
    then have "readable_time t" using assms by (simp add: readable_cond_def)
    then show ?thesis
      using TimeCond written_range [of t] written_cmp [of t]
      by (cases "tc_mode t = MATCH_RANGE") (simp_all add: buildRequestConditionExpr_def tryParseRequestCondition_def)
  qed
  then show "atom (buildRequestConditionExpr c)"
    "tryParseRequestCondition (buildRequestConditionExpr c) = Inr (Some c)"
    "tryParseRequestCondition (wrap_or (buildRequestConditionExpr c)) = Inr (Some c)" by simp_all
qed

subsection \<open>Rule groups\<close>

lemma full_factor_tail:
  "full (Seq (Lit (js '' ? '')) (Seq (Grp 2 (Plus (Cls num_cls))) (Lit (js '' : 1)'')))) (pre, v, m) \<noteq> [] \<Longrightarrow>
     \<exists>w. v = js '' ? '' @ w @ js '' : 1)'' \<and> list_all num_cls w"
proof -
  assume a: "full (Seq (Lit (js '' ? '')) (Seq (Grp 2 (Plus (Cls num_cls))) (Lit (js '' : 1)'')))) (pre, v, m) \<noteq> []"
  then obtain t where v: "v = js '' ? '' @ t"
    by (auto simp: full_Seq ms_Lit prefix_def split: if_splits)
  obtain st where st: "st \<in> set (ms (Grp 2 (Plus (Cls num_cls))) (rev (js '' ? '') @ pre, t, m))"
      and f: "full (Lit (js '' : 1)'')) st \<noteq> []"
    using a by (auto simp: v full_Seq simp del: ms.simps)
  have "over num_cls (Grp 2 (Plus (Cls num_cls)))" by (simp add: Plus_def)
  then obtain w where "t = w @ ahead st" "list_all num_cls w"
    using ms_eats [OF st] by (auto simp: eats_def)
  moreover have "ahead st = js '' : 1)''"
    using f by (cases st) (auto simp: full_simps split: if_splits)
  ultimately show ?thesis using v by auto
qed

lemma read_factor:
  assumes "c \<noteq> []" and "is_numeric_literal k"
  shows "re_match (anchored rule_group_re) (js ''('' @ c @ js '' ? '' @ k @ js '' : 1)'') =
     Some ([1 \<mapsto> c, 2 \<mapsto> k, 0 \<mapsto> js ''('' @ c @ js '' ? '' @ k @ js '' : 1)''])"
proof -
  let ?t = "c @ js '' ? '' @ k @ js '' : 1)''"
  let ?r = "Seq (Lit (js '' ? '')) (Seq (Grp 2 (Plus (Cls num_cls))) (Lit (js '' : 1)'')))"
  let ?f = "\<lambda>j. full ?r (rev (take j ?t) @ [40], drop j ?t, [1 \<mapsto> take j ?t])"
  note k = numeric_literal [OF assms(2)]
  have "full rule_group_re ([], 40 # ?t, Map.empty) = full (Seq (Grp 1 (Plus (Cls any_unit))) ?r) ([40], ?t, Map.empty)"
    by (simp add: rule_group_re_def full_simps)
  also have "\<dots> = concat (map ?f (rev [1..<Suc (length ?t)]))"
    using full_Grp_Plus_Seq [of any_unit ?t "[]" 1 ?r "[40]" Map.empty]
    by (simp add: list_all_iff any_unit_def assms(1) del: upt_Suc)
  also have "\<dots> = ?f (length c)"
  proof (rule concat_one)
    fix j assume j: "j \<in> set (rev [1..<Suc (length ?t)])" "j \<noteq> length c"
    show "?f j = []"
    proof (rule ccontr)
      assume "?f j \<noteq> []"
      then obtain w where w: "drop j ?t = js '' ? '' @ w @ js '' : 1)''" "list_all num_cls w"
        using full_factor_tail by blast
      then have "take j ?t @ js '' ? '' @ w @ js '' : 1)'' = c @ js '' ? '' @ k @ js '' : 1)''"
        using append_take_drop_id [of j ?t] by simp
      then have "(take j ?t @ [32, 63]) @ 32 # w = (c @ [32, 63]) @ 32 # k" by (simp add: js_simps)
      moreover have "32 \<notin> set w" "32 \<notin> set k" using w(2) k(2) by (auto simp: list_all_iff)
      ultimately have "take j ?t @ [32, 63] = c @ [32, 63]" by (blast dest: last_sep)
      then have "take j ?t = c" by simp
      then show False using j by (metis length_take min.absorb2 atLeastLessThan_iff less_Suc_eq_le set_rev set_upt)
    qed
  qed (use assms(1) in \<open>auto simp: Suc_le_eq\<close>)
  also have "\<dots> = [[1 \<mapsto> c, 2 \<mapsto> k]]"
    using k by (simp add: full_simps js_simps)
  finally show ?thesis by (simp add: re_match_full js_simps)
qed

definition readable_group :: "RequestRuleGroup \<Rightarrow> bool" where
  "readable_group g \<longleftrightarrow>
     rg_conditions g \<noteq> [] \<and> (\<forall>c \<in> set (rg_conditions g). readable_cond c) \<and> is_numeric_literal (rg_multiplier g)"

lemma read_all_ok: "\<forall>x \<in> set xs. f (g x) = Inr (Some x) \<Longrightarrow> read_all f (map g xs) = Inr (Some xs)"
  by (induction xs) simp_all

lemma split_and_atoms:
  assumes "es \<noteq> []" and "\<forall>e \<in> set es. atom e"
  shows "splitTopLevelAnd (join (js '' && '') es) = es"
proof -
  have "whole (js '' && '') e" if "atom e" for e
    using that by (intro whole_free [of _ 38 _ "[38, 32]"]) (simp_all add: atom_def js_simps)
  then have "split_top (js '' && '') 0 [] (join (js '' && '') es) = es"
    using assms by (intro split_top_join [of _ "[38, 38, 32]"]) (auto simp: js_simps)
  then show ?thesis
    using assms(2) by (simp add: splitTopLevelAnd_def filter_id_conv atom_def)
qed

lemma balanced_join_and: "\<forall>e \<in> set es. atom e \<Longrightarrow> balanced (join (js '' && '') es)"
  by (rule balanced_join) (auto simp: atom_def js_simps balanced_Cons)

text \<open>The text of a group whose conditions are all written.\<close>

lemma factor_shape:
  assumes "\<forall>c \<in> set (rg_conditions g). buildRequestConditionExpr c \<noteq> []" and "rg_conditions g \<noteq> []"
    and "is_numeric_literal (rg_multiplier g)"
  obtains h where "h = buildRequestConditionExpr \<or> h = (\<lambda>c. wrap_or (buildRequestConditionExpr c))"
    and "buildRuleGroupFactor g = js ''('' @ join (js '' && '') (map h (rg_conditions g)) @ js '' ? '' @
        rg_multiplier g @ js '' : 1)''"
proof -
  let ?cs = "rg_conditions g" and ?b = buildRequestConditionExpr
  have fl: "filter nonempty (map ?b ?cs) = map ?b ?cs"
    using assms(1) by (auto simp: filter_id_conv)
  show thesis
  proof (cases "length ?cs = 1")
    case True
    then obtain c where "?cs = [c]" by (auto simp: length_Suc_conv)
    then show thesis
      using that [of ?b] assms(3) fl by (simp add: buildRuleGroupFactor_def Let_def numeric_trim split: if_splits)
  next
    case False
    then show thesis
      using that [of "\<lambda>c. wrap_or (?b c)"] assms fl
      by (simp add: buildRuleGroupFactor_def Let_def numeric_trim comp_def)
  qed
qed

lemma join_atom_not_Nil: "xs \<noteq> [] \<Longrightarrow> \<forall>x \<in> set xs. atom x \<Longrightarrow> join (js '' && '') xs \<noteq> []"
  by (induction xs rule: induct_list012) (auto simp: atom_def)

lemma read_group:
  assumes "readable_group g"
  shows "tryParseRuleGroupFactor (buildRuleGroupFactor g) = Inr (Some g)"
    and "\<exists>w. buildRuleGroupFactor g = 40 # w @ [41] \<and> balanced w"
proof -
  let ?cs = "rg_conditions g" and ?k = "rg_multiplier g"
  have g: "?cs \<noteq> []" "\<forall>c \<in> set ?cs. readable_cond c" "is_numeric_literal ?k"
    using assms by (simp_all add: readable_group_def)
  obtain h where h: "h = buildRequestConditionExpr \<or> h = (\<lambda>c. wrap_or (buildRequestConditionExpr c))"
    and t: "buildRuleGroupFactor g = js ''('' @ join (js '' && '') (map h ?cs) @ js '' ? '' @ ?k @ js '' : 1)''"
    using factor_shape [of g] g written_cond(1) by (auto simp: atom_def)
  have a: "\<forall>e \<in> set (map h ?cs). atom e"
    using h g(2) written_cond(1) atom_wrap_or by auto
  have r: "\<forall>c \<in> set ?cs. tryParseRequestCondition (trim (h c)) = Inr (Some c)"
    using h g(2) written_cond a by (auto simp: atom_def trim_trimmed)
  have "join (js '' && '') (map h ?cs) \<noteq> []"
    using g(1) a by (intro join_atom_not_Nil) auto
  then show "tryParseRuleGroupFactor (buildRuleGroupFactor g) = Inr (Some g)"
    using g read_factor [OF _ g(3)] split_and_atoms [OF _ a] read_all_ok [of ?cs "\<lambda>ap. tryParseRequestCondition (trim ap)" h] r
    by (simp add: tryParseRuleGroupFactor_def t)
  have "balanced (join (js '' && '') (map h ?cs) @ js '' ? '' @ ?k @ js '' : 1'')"
    using balanced_join_and [OF a] balanced_plain [OF numeric_plain [OF g(3)]]
    by (intro balanced_append) (simp_all add: js_simps balanced_Cons)
  then show "\<exists>w. buildRuleGroupFactor g = 40 # w @ [41] \<and> balanced w"
    by (intro exI [of _ "join (js '' && '') (map h ?cs) @ js '' ? '' @ ?k @ js '' : 1''"]) (simp add: t js_simps)
qed


lemma split_multiply_parens:
  assumes "ps \<noteq> []" and "\<forall>p \<in> set ps. \<exists>w. p = 40 # w @ [41] \<and> balanced w"
  shows "splitTopLevelMultiply (join (js '' * '') ps) = ps"
proof -
  have "\<forall>p \<in> set ps. whole (js '' * '') p"
    using assms(2) whole_paren [of _ "js '' * ''" "[42, 32]"] by (auto simp: js_simps)
  then have "split_top (js '' * '') 0 [] (join (js '' * '') ps) = ps"
    using assms(1) by (intro split_top_join [of _ "[42, 32]"]) (auto simp: js_simps)
  moreover have "filter nonempty ps = ps" using assms(2) by (auto simp: filter_id_conv)
  ultimately show ?thesis by (simp add: splitTopLevelMultiply_def)
qed

lemma join_parens_trimmed:
  assumes "ps \<noteq> []" and "\<forall>p \<in> set ps. \<exists>w. p = 40 # w @ [41] \<and> balanced w"
  shows "join sep ps \<noteq> [] \<and> hd (join sep ps) = 40 \<and> last (join sep ps) = 41"
  using assms
proof (induction ps rule: induct_list012)
  case (3 x y zs)
  then have "join sep (y # zs) \<noteq> []" "last (join sep (y # zs)) = 41" by (simp_all del: join.simps)
  then show ?case using 3(4) by (auto simp del: join.simps simp: join.simps(3))
qed auto

lemma trimmed_parens:
  "ps \<noteq> [] \<Longrightarrow> \<forall>p \<in> set ps. \<exists>w. p = 40 # w @ [41] \<and> balanced w \<Longrightarrow> trimmed (join sep ps)"
  using join_parens_trimmed [of ps sep] by (simp add: trimmed_def)

lemma rule_expr_text:
  assumes "\<forall>g \<in> set gs. readable_group g"
  shows "buildRequestRuleExpr gs = join (js '' * '') (map buildRuleGroupFactor gs)"
proof -
  have "filter nonempty (map buildRuleGroupFactor gs) = map buildRuleGroupFactor gs"
    using assms read_group(2) by (fastforce simp: filter_id_conv)
  then show ?thesis by (simp add: buildRequestRuleExpr_def)
qed

end
