(* ===== verification/BillingRoundtrip.thy ===== *)
theory BillingRoundtrip
  imports BillingRules
begin

text \<open>
  What the readers and the writers of \<open>billing-expr.ts\<close> do to each other: the text
  that the editor writes for a rule is read back as the same rule, the base price
  and the rules that \<open>combineBillingExpr\<close> joins are taken apart again, the conditions
  for which this fails in the code, and the tiers that the tier reader returns.
\<close>

subsection \<open>Base price and rules\<close>

lemma depth_scan_deep: "deep d w \<Longrightarrow> r \<noteq> [] \<Longrightarrow> depth_scan d (w @ r) = depth_scan (depth d w) r"
  by (induction w arbitrary: d) (auto simp: Let_def)

lemma full_outer_paren: "balanced w \<Longrightarrow> hasFullOuterParens (40 # w @ [41])"
  using depth_scan_deep [of 1 w "[41]"] balanced_deep [of w 1] balanced_depth [of w 1]
  by (simp add: hasFullOuterParens_def starts_with_def ends_with_def js_simps depth_step_def Let_def)

lemma unwrap_paren: "balanced w \<Longrightarrow> unwrapOuterParens (40 # w @ [41]) = unwrapOuterParens w"
  by (simp add: unwrapOuterParens_def unwrap_loop.simps [of "40 # w @ [41]"] full_outer_paren
      trim_trimmed [of "40 # w @ [41]"] trimmed_def)

lemma unwrap_loop_done: "\<not> hasFullOuterParens (unwrap_loop s)"
  by (induction s rule: unwrap_loop.induct) (subst unwrap_loop.simps, simp)

lemma unwrap_loop_trimmed: "trimmed s \<Longrightarrow> trimmed (unwrap_loop s)"
  by (induction s rule: unwrap_loop.induct) (subst unwrap_loop.simps, simp)

lemma factor_suffix:
  assumes "full rule_group_re ([], 40 # t, m) \<noteq> []"
  shows "suffix (js '' : 1)'') t"
proof -
  let ?r = "Seq (Lit (js '' ? '')) (Seq (Grp 2 (Plus (Cls num_cls))) (Lit (js '' : 1)'')))"
  have "full (Seq (Grp 1 (Plus (Cls any_unit))) ?r) ([40], t, m) \<noteq> []"
    using assms by (simp add: rule_group_re_def full_simps)
  then obtain st where st: "st \<in> set (ms (Grp 1 (Plus (Cls any_unit))) ([40], t, m))" "full ?r st \<noteq> []"
    unfolding full_Seq [of "Grp 1 (Plus (Cls any_unit))"] by (auto simp del: ms.simps)
  obtain w where "ahead st = js '' ? '' @ w @ js '' : 1)''"
    using full_factor_tail [of "fst st" "ahead st" "snd (snd st)"] st(2) by (auto simp: ahead_def)
  then have "suffix (js '' : 1)'') (ahead st)" by (metis append.assoc suffixI)
  then show ?thesis using ms_suffix [OF st(1)] by (auto intro: suffix_order.trans)
qed

lemma single_paren:
  assumes "balanced w"
  shows "tryParseRequestRuleExpr (40 # w @ [41]) =
     (case tryParseRuleGroupFactor (40 # w @ [41]) of
        Inl e \<Rightarrow> Inl e | Inr None \<Rightarrow> Inr None | Inr (Some g) \<Rightarrow> Inr (Some [g]))"
  using split_multiply_parens [of "[40 # w @ [41]]"] assms
  by (simp add: tryParseRequestRuleExpr_def trim_trimmed trimmed_def split: sum.splits option.splits)

lemma base_not_rule:
  assumes "balanced w" and "\<not> suffix (js '' : 1'') w"
  shows "is_rule_part (40 # w @ [41]) = Inr False"
proof -
  have "\<not> suffix (js '' : 1)'') (w @ [41])"
    using assms(2) by (auto simp: suffix_def js_simps)
  then have "full rule_group_re ([], 40 # w @ [41], Map.empty) = []"
    using factor_suffix by blast
  then show ?thesis
    by (simp add: is_rule_part_def single_paren [OF assms(1)] tryParseRuleGroupFactor_def re_match_full)
qed

lemma partition_rules:
  "\<forall>p \<in> set ps. is_rule_part p = Inr True \<Longrightarrow> partition_parts ps = Inr (ps, [])"
  by (induction ps) simp_all

lemma combine_split:
  assumes b: "trimmed b" "b \<noteq> []" "balanced b" "\<not> suffix (js '' : 1'') b"
    and p: "ps \<noteq> []" "\<forall>p \<in> set ps. \<exists>w. p = 40 # w @ [41] \<and> balanced w" "\<forall>p \<in> set ps. is_rule_part p = Inr True"
  shows "splitBillingExprAndRequestRules (combineBillingExpr b (join (js '' * '') ps)) =
     Inr (unwrapOuterParens b, join (js '' * '') ps)"
proof -
  let ?ps = "(40 # b @ [41]) # ps"
  have q: "?ps \<noteq> []" "\<forall>p \<in> set ?ps. \<exists>w. p = 40 # w @ [41] \<and> balanced w" using b p by auto
  have c: "combineBillingExpr b (join (js '' * '') ps) = join (js '' * '') ?ps"
    using b join_parens_trimmed [OF p(1,2)] trim_trimmed [OF trimmed_parens [OF p(1,2)]]
    by (simp add: combineBillingExpr_def trim_trimmed join_Cons [OF p(1)] js_simps)
  have "partition_parts ?ps = Inr (ps, [40 # b @ [41]])"
    using partition_rules [OF p(3)] base_not_rule [OF b(3,4)] by simp
  then show ?thesis
    unfolding c splitBillingExprAndRequestRules_def Let_def trim_trimmed [OF trimmed_parens [OF q]]
      split_multiply_parens [OF q]
    using p(1) join_parens_trimmed [OF q] by (simp add: unwrap_paren [OF b(3)] Suc_le_eq)
qed

subsection \<open>Conditions that are not read back\<close>

text \<open>
  A \<open>contains\<close> or comparison condition on a parameter is written with a guard,
  \<open>param("x") != nil && has(param("x"), ...)\<close>.  The reader cuts the guard off at \<open> && \<close>
  before it looks at the two halves, and the second half alone is none of its forms.
\<close>

definition guarded_cond :: "RequestCondition \<Rightarrow> bool" where
  "guarded_cond c = (case c of TimeCond _ \<Rightarrow> False | PHCond p \<Rightarrow>
     ph_source p = SOURCE_PARAM \<and> ph_path p \<noteq> [] \<and> trimmed (ph_path p) \<and> plain (ph_path p) \<and>
     (ph_mode p = MATCH_CONTAINS \<and> trimmed (ph_value p) \<and> plain (ph_value p) \<or>
      ph_mode p \<in> {MATCH_GT, MATCH_GTE, MATCH_LT, MATCH_LTE} \<and> is_numeric_literal (ph_value p)))"

lemma read_has_param:
  assumes "plain p" and "p \<noteq> []"
  shows "tryParseRequestCondition (js ''has(param(\"'' @ p @ js ''\"), '' @ JSON_quote v @ js '')'') = Inr None"
  using plain_no_quote [OF assms(1)] assms(2)
  by (simp add: read_simps same_path_def SOURCE_PARAM_def SOURCE_HEADER_def)

lemma read_param_cmp:
  assumes "plain p" and "p \<noteq> []" and "x \<in> {js ''>'', js ''>='', js ''<'', js ''<=''}"
  shows "tryParseRequestCondition (js ''param(\"'' @ p @ js ''\") '' @ x @ js '' '' @ k) = Inr None"
  using plain_no_quote [OF assms(1)] assms(2,3) by (auto simp: read_simps same_path_def SOURCE_PARAM_def SOURCE_HEADER_def)


definition guard_text :: "RequestCondition \<Rightarrow> jstring" where
  "guard_text c = (case c of PHCond p \<Rightarrow> js ''param(\"'' @ ph_path p @ js ''\") != nil'' | _ \<Rightarrow> [])"

definition test_text :: "RequestCondition \<Rightarrow> jstring" where
  "test_text c = (case c of PHCond p \<Rightarrow>
       if ph_mode p = MATCH_CONTAINS
       then js ''has(param(\"'' @ ph_path p @ js ''\"), '' @ JSON_quote (ph_value p) @ js '')''
       else js ''param(\"'' @ ph_path p @ js ''\") '' @ param_mode_op (ph_mode p) @ js '' '' @ ph_value p
     | _ \<Rightarrow> [])"

lemma guarded_text:
  assumes "guarded_cond c"
  shows "buildRequestConditionExpr c = guard_text c @ js '' && '' @ test_text c"
    and "124 \<notin> set (buildRequestConditionExpr c)"
proof -
  obtain p where c: "c = PHCond p" using assms by (cases c) (auto simp: guarded_cond_def)
  have g: "ph_source p = SOURCE_PARAM" "ph_path p \<noteq> []" "trimmed (ph_path p)" "plain (ph_path p)"
    using assms by (simp_all add: guarded_cond_def c)
  have v: "plain (ph_value p)" "trim (ph_value p) = ph_value p"
    using assms numeric_plain numeric_trim trim_trimmed by (auto simp: guarded_cond_def c)
  have "normalizeCondition (Some (partial_of c)) = c"
    using assms by (cases p) (auto simp: c guarded_cond_def normalizeCondition_def normalize_ph_def partial_of_def
      valid_mode_def getRequestRuleMatchOptions_def rule_consts js_simps)
  then have b: "buildRequestConditionExpr c = build_ph p" by (simp add: buildRequestConditionExpr_def c)
  show t: "buildRequestConditionExpr c = guard_text c @ js '' && '' @ test_text c"
    using assms g v unfolding b
    by (auto simp: c guarded_cond_def build_ph_def Let_def JSON_quote_plain trim_trimmed buildExprLiteral_def
        guard_text_def test_text_def rule_consts js_simps)
  have "124 \<notin> set (param_mode_op (ph_mode p))" by (simp add: param_mode_op_def js_simps)
  then show "124 \<notin> set (buildRequestConditionExpr c)"
    using plain_notin [OF g(4)] plain_notin [OF v(1)]
    unfolding t by (simp add: c guard_text_def test_text_def JSON_quote_plain [OF v(1)] js_simps)
qed

lemma guarded_parts:
  assumes "guarded_cond c"
  shows "atom (guard_text c)" and "atom (test_text c)"
    and "\<exists>d. tryParseRequestCondition (guard_text c) = Inr (Some d)"
    and "tryParseRequestCondition (test_text c) = Inr None"
proof -
  obtain p where c: "c = PHCond p" using assms by (cases c) (auto simp: guarded_cond_def)
  let ?o = "param_mode_op (ph_mode p)"
  have g: "ph_path p \<noteq> []" "plain (ph_path p)"
    using assms by (simp_all add: guarded_cond_def c)
  have o: "?o \<in> {js ''>'', js ''>='', js ''<'', js ''<=''}" by (simp add: param_mode_op_def)
  then have po: "plain ?o" by (auto simp: js_simps plain_def plain_unit_def is_high_def is_low_def)
  have v: "plain (ph_value p)" using assms numeric_plain by (auto simp: guarded_cond_def c)
  have n: "is_numeric_literal (ph_value p)" if "ph_mode p \<noteq> MATCH_CONTAINS"
    using that assms by (simp add: guarded_cond_def c)
  show "atom (guard_text c)"
    using g plain_notin [OF g(2)] by (auto simp: c guard_text_def atom_simps)
  show "\<exists>d. tryParseRequestCondition (guard_text c) = Inr (Some d)"
    using read_param_exists [OF g(2,1)] by (simp add: c guard_text_def)
  show "tryParseRequestCondition (test_text c) = Inr None"
    using read_has_param [OF g(2,1)] read_param_cmp [OF g(2,1) o] by (simp add: c test_text_def)
  show "atom (test_text c)"
    using g v po plain_notin [OF g(2)] plain_notin [OF v] plain_notin [OF po] n num_last [of "ph_value p"]
      numeric_literal(1) [of "ph_value p"]
    by (auto simp: c test_text_def atom_simps JSON_quote_plain)
qed


lemma join_append: "xs \<noteq> [] \<Longrightarrow> ys \<noteq> [] \<Longrightarrow> join sep (xs @ ys) = join sep xs @ sep @ join sep ys"
  by (induction sep xs rule: join.induct) (auto simp: join_Cons)

lemma join_map_concat:
  "\<forall>x \<in> set xs. f x = join sep (g x) \<and> g x \<noteq> [] \<Longrightarrow> join sep (map f xs) = join sep (concat (map g xs))"
proof (induction xs rule: induct_list012)
  case (3 x y zs)
  then have "join sep (map f (y # zs)) = join sep (concat (map g (y # zs)))" by simp
  moreover have "concat (map g (y # zs)) \<noteq> []" using 3(3) by simp
  ultimately show ?case
    using 3(3) join_append [of "g x" "concat (map g (y # zs))" sep] by simp
qed simp_all

definition partial_group :: "RequestRuleGroup \<Rightarrow> bool" where
  "partial_group g \<longleftrightarrow>
     (\<forall>c \<in> set (rg_conditions g). readable_cond c \<or> guarded_cond c) \<and>
     (\<exists>c \<in> set (rg_conditions g). guarded_cond c) \<and> is_numeric_literal (rg_multiplier g)"

definition cond_atoms :: "(RequestCondition \<Rightarrow> jstring) \<Rightarrow> RequestCondition \<Rightarrow> jstring list" where
  "cond_atoms h c = (if guarded_cond c then [guard_text c, test_text c] else [h c])"

lemma read_all_none:
  "\<forall>x \<in> set xs. \<exists>y. f x = Inr y \<Longrightarrow> \<exists>x \<in> set xs. f x = Inr None \<Longrightarrow> read_all f xs = Inr None"
proof (induction xs)
  case (Cons x xs)
  obtain y where y: "f x = Inr y" using Cons.prems(1) by auto
  have "\<exists>r. read_all f zs = Inr r" if "\<forall>x \<in> set zs. \<exists>y. f x = Inr y" for zs
    using that
  proof (induction zs)
    case (Cons z zs)
    then obtain u r where "f z = Inr u" "read_all f zs = Inr r" by auto
    then show ?case by (cases u; cases r) simp_all
  qed simp
  then obtain r where r: "read_all f xs = Inr r" using Cons.prems(1) by auto
  show ?case using Cons y r by (cases y; cases r) auto
qed simp

lemma cond_written:
  assumes "readable_cond c \<or> guarded_cond c"
  shows "buildRequestConditionExpr c \<noteq> []"
  using assms written_cond(1) [of c] guarded_text(1) [of c] by (auto simp: atom_def js_simps)

lemma cond_atoms_ok:
  assumes "readable_cond c \<or> guarded_cond c"
    and h: "h = buildRequestConditionExpr \<or> h = (\<lambda>c. wrap_or (buildRequestConditionExpr c))"
  shows "h c = join (js '' && '') (cond_atoms h c)" and "\<forall>e \<in> set (cond_atoms h c). atom e"
    and "\<forall>e \<in> set (cond_atoms h c). \<exists>y. tryParseRequestCondition (trim e) = Inr y"
    and "guarded_cond c \<Longrightarrow> \<exists>e \<in> set (cond_atoms h c). tryParseRequestCondition (trim e) = Inr None"
proof -
  have g: "h c = guard_text c @ js '' && '' @ test_text c" if "guarded_cond c"
    using guarded_text [OF that] h wrap_or_free by auto
  show "h c = join (js '' && '') (cond_atoms h c)"
    using g by (simp add: cond_atoms_def)
  show a: "\<forall>e \<in> set (cond_atoms h c). atom e"
    using assms guarded_parts [of c] written_cond [of c] atom_wrap_or by (auto simp: cond_atoms_def)
  then have t: "\<forall>e \<in> set (cond_atoms h c). trim e = e" by (simp add: atom_def trim_trimmed)
  show "\<forall>e \<in> set (cond_atoms h c). \<exists>y. tryParseRequestCondition (trim e) = Inr y"
    using assms t guarded_parts [of c] written_cond [of c] by (auto simp: cond_atoms_def)
  show "\<exists>e \<in> set (cond_atoms h c). tryParseRequestCondition (trim e) = Inr None" if "guarded_cond c"
    using t guarded_parts(4) [OF that] that by (simp add: cond_atoms_def)
qed

lemma partial_factor_text:
  assumes "partial_group g"
  obtains h where "h = buildRequestConditionExpr \<or> h = (\<lambda>c. wrap_or (buildRequestConditionExpr c))"
    and "buildRuleGroupFactor g = js ''('' @ join (js '' && '') (map h (rg_conditions g)) @ js '' ? '' @
        rg_multiplier g @ js '' : 1)''"
proof -
  have "\<forall>c \<in> set (rg_conditions g). buildRequestConditionExpr c \<noteq> []" "rg_conditions g \<noteq> []"
      "is_numeric_literal (rg_multiplier g)"
    using assms cond_written by (auto simp: partial_group_def)
  then show thesis using factor_shape that by blast
qed

lemma read_partial_group:
  assumes "partial_group g"
  shows "tryParseRuleGroupFactor (buildRuleGroupFactor g) = Inr None"
    and "\<exists>w. buildRuleGroupFactor g = 40 # w @ [41] \<and> balanced w"
proof -
  let ?cs = "rg_conditions g" and ?k = "rg_multiplier g" and ?sep = "js '' && ''"
  obtain h where h: "h = buildRequestConditionExpr \<or> h = (\<lambda>c. wrap_or (buildRequestConditionExpr c))"
    and t: "buildRuleGroupFactor g = js ''('' @ join ?sep (map h ?cs) @ js '' ? '' @ ?k @ js '' : 1)''"
    using partial_factor_text [OF assms] .
  have g: "\<forall>c \<in> set ?cs. readable_cond c \<or> guarded_cond c" "\<exists>c \<in> set ?cs. guarded_cond c" "is_numeric_literal ?k"
    using assms by (simp_all add: partial_group_def)
  let ?as = "concat (map (cond_atoms h) ?cs)"
  have e: "join ?sep (map h ?cs) = join ?sep ?as"
    using g(1) cond_atoms_ok(1) [OF _ h] by (intro join_map_concat) (auto simp: cond_atoms_def)
  note t = t [unfolded e]
  have a: "\<forall>e \<in> set ?as. atom e" using g(1) cond_atoms_ok(2) [OF _ h] by auto
  have n: "?as \<noteq> []" using g(2) by (auto simp: cond_atoms_def)
  have "read_all (\<lambda>ap. tryParseRequestCondition (trim ap)) ?as = Inr None"
  proof (rule read_all_none)
    show "\<forall>e \<in> set ?as. \<exists>y. tryParseRequestCondition (trim e) = Inr y"
      using g(1) cond_atoms_ok(3) [OF _ h] by auto
    show "\<exists>e \<in> set ?as. tryParseRequestCondition (trim e) = Inr None"
      using g(1,2) cond_atoms_ok(4) [OF _ h] by fastforce
  qed
  then show "tryParseRuleGroupFactor (buildRuleGroupFactor g) = Inr None"
    using read_factor [OF join_atom_not_Nil [OF n a] g(3)] split_and_atoms [OF n a]
    by (simp add: tryParseRuleGroupFactor_def t)
  have "balanced (join ?sep ?as @ js '' ? '' @ ?k @ js '' : 1'')"
    using balanced_join_and [OF a] balanced_plain [OF numeric_plain [OF g(3)]]
    by (intro balanced_append) (simp_all add: js_simps balanced_Cons)
  then show "\<exists>w. buildRuleGroupFactor g = 40 # w @ [41] \<and> balanced w"
    by (intro exI [of _ "join ?sep ?as @ js '' ? '' @ ?k @ js '' : 1''"]) (simp add: t js_simps)
qed

subsection \<open>Tiers\<close>

lemma min_len_Lit [simp]: "min_len (Lit w) = length w"
  by (induction w) (simp_all add: Lit.simps Chr_def)

lemma tier_matches_end: "\<exists>cs. re_exec_all tier_re s = Some cs"
  by (rule re_exec_all_total) (simp add: tier_re_def Plus_def Chr_def)

lemma body_matches_end: "\<exists>cs. re_exec_all BILLING_VAR_REGEX s = Some cs"
  by (rule re_exec_all_total) (simp add: BILLING_VAR_REGEX_def Plus_def Chr_def)

lemma parseTierBody_total:
  "\<exists>fs. parseTierBody s = Some fs \<and> map fst fs = map snd BILLING_VAR_KEY_TO_FIELD"
  using body_matches_end [of s] by (auto simp: parseTierBody_def Let_def comp_def split_beta)

lemma tiers_total:
  "\<exists>ts. those (map tier_of_match cs) = Some ts \<and> length ts = length cs \<and>
     (\<forall>t \<in> set ts. map fst (pt_fields t) = map snd BILLING_VAR_KEY_TO_FIELD)"
proof (induction cs)
  case (Cons m cs)
  then show ?case
    using parseTierBody_total [of "opt_str (m 3)"] by (auto simp: tier_of_match_def)
qed simp

text \<open>
  C27: Whatever text the tier reader is given, its loop over the matches ends, and
  every tier it returns has a price for each of the nine priced variables, in the
  order of the registry.
\<close>

theorem tiers_total_and_complete:
  "\<exists>ts. parseTiersFromExpr e = Some ts \<and>
     list_all (\<lambda>t. map fst (pt_fields t) = map (\<lambda>v. opt_str (bv_field v)) BILLING_PRICING_VARS) ts"
proof -
  have k: "map snd BILLING_VAR_KEY_TO_FIELD = map (\<lambda>v. opt_str (bv_field v)) BILLING_PRICING_VARS"
    by code_simp
  obtain cs where "re_exec_all tier_re (snd (stripExprVersion e)) = Some cs"
    using tier_matches_end by blast
  then show ?thesis
    using tiers_total [of cs] by (auto simp: parseTiersFromExpr_def k list_all_iff)
qed

text \<open>
  C11: The request rules that the editor writes are read back as the same rules, for
  any number of groups and conditions: header and parameter tests of existence and
  equality, header tests of containment, time comparisons and overnight ranges,
  with texts free of quotes, backslashes, parentheses, ampersands and bars, and with
  numeric multipliers.
\<close>

theorem rules_read_back:
  assumes "\<forall>g \<in> set gs. readable_group g"
  shows "tryParseRequestRuleExpr (buildRequestRuleExpr gs) = Inr (Some gs)"
proof (cases "gs = []")
  case False
  let ?ps = "map buildRuleGroupFactor gs"
  have p: "?ps \<noteq> []" "\<forall>p \<in> set ?ps. \<exists>w. p = 40 # w @ [41] \<and> balanced w"
    using False assms read_group(2) by auto
  then show ?thesis
    using join_parens_trimmed [OF p] trim_trimmed [OF trimmed_parens [OF p]] split_multiply_parens [OF p]
      read_all_ok [of gs tryParseRuleGroupFactor buildRuleGroupFactor] assms read_group(1)
    by (simp add: tryParseRequestRuleExpr_def rule_expr_text [OF assms])
qed (simp add: buildRequestRuleExpr_def tryParseRequestRuleExpr_def)

definition sample_group :: RequestRuleGroup where
  "sample_group =
     \<lparr>rg_conditions =
        [PHCond \<lparr>ph_source = SOURCE_HEADER, ph_path = js ''x-tier'', ph_mode = MATCH_EQ, ph_value = js ''pro user''\<rparr>,
         PHCond \<lparr>ph_source = SOURCE_HEADER, ph_path = js ''x'', ph_mode = MATCH_CONTAINS, ph_value = js ''beta''\<rparr>,
         PHCond \<lparr>ph_source = SOURCE_PARAM, ph_path = js ''n'', ph_mode = MATCH_EXISTS, ph_value = []\<rparr>,
         TimeCond \<lparr>tc_timeFunc = js ''hour'', tc_timezone = js ''Asia/Shanghai'', tc_mode = MATCH_RANGE, tc_value = [],
           tc_rangeStart = js ''22'', tc_rangeEnd = js ''6''\<rparr>],
      rg_multiplier = js ''0.5''\<rparr>"

lemma sample_readable: "readable_group sample_group"
  by code_simp

theorem rules_read_back_witness:
  "readable_group sample_group \<and>
     tryParseRequestRuleExpr (buildRequestRuleExpr [sample_group]) = Inr (Some [sample_group])"
  using rules_read_back [of "[sample_group]"] sample_readable by simp

text \<open>
  C12: Combining a base price with rules that the editor writes and taking the result
  apart again gives the base, without its outer parentheses, and the text of the
  rules, for a base with matching parentheses that does not itself end like a rule.
\<close>

theorem combine_then_split:
  assumes "trimmed base" and "base \<noteq> []" and "balanced base" and "\<not> suffix (js '' : 1'') base"
    and "gs \<noteq> []" and "\<forall>g \<in> set gs. readable_group g"
  shows "splitBillingExprAndRequestRules (combineBillingExpr base (buildRequestRuleExpr gs)) =
     Inr (unwrapOuterParens base, buildRequestRuleExpr gs)"
proof -
  have f: "\<exists>w. buildRuleGroupFactor g = 40 # w @ [41] \<and> balanced w"
      "is_rule_part (buildRuleGroupFactor g) = Inr True" if "readable_group g" for g
    using read_group [OF that] by (auto simp: is_rule_part_def single_paren)
  show ?thesis
    unfolding rule_expr_text [OF assms(6)]
    using assms(1-4) by (rule combine_split) (use assms(5,6) f in auto)
qed


definition sample_base :: jstring where
  "sample_base = js ''tier(\"base\", p * 3 + c * 15)''"

theorem combine_then_split_witness:
  "trimmed sample_base \<and> balanced sample_base \<and> \<not> suffix (js '' : 1'') sample_base \<and>
     splitBillingExprAndRequestRules (combineBillingExpr sample_base (buildRequestRuleExpr [sample_group])) =
       Inr (unwrapOuterParens sample_base, buildRequestRuleExpr [sample_group])"
proof -
  have b: "trimmed sample_base" "sample_base \<noteq> []" "balanced sample_base" "\<not> suffix (js '' : 1'') sample_base"
    by code_simp+
  then show ?thesis using combine_then_split [OF b, of "[sample_group]"] sample_readable by simp
qed

text \<open>
  C26: A rule group with a containment or comparison test on a request parameter is
  written but not read back: if any group of the rules is of this kind, the reader
  of the rules gives up, for all groups.
\<close>

theorem guarded_rules_lost:
  assumes "\<forall>g \<in> set gs. readable_group g \<or> partial_group g" and "\<exists>g \<in> set gs. partial_group g"
  shows "tryParseRequestRuleExpr (buildRequestRuleExpr gs) = Inr None"
proof -
  let ?ps = "map buildRuleGroupFactor gs"
  have p: "?ps \<noteq> []" "\<forall>p \<in> set ?ps. \<exists>w. p = 40 # w @ [41] \<and> balanced w"
    using assms read_group(2) read_partial_group(2) by auto
  then have "filter nonempty ?ps = ?ps" by (fastforce simp: filter_id_conv)
  then have t: "buildRequestRuleExpr gs = join (js '' * '') ?ps" by (simp add: buildRequestRuleExpr_def)
  have "read_all tryParseRuleGroupFactor ?ps = Inr None"
  proof (rule read_all_none)
    show "\<forall>p \<in> set ?ps. \<exists>y. tryParseRuleGroupFactor p = Inr y"
      using assms(1) read_group(1) read_partial_group(1) by auto
    show "\<exists>p \<in> set ?ps. tryParseRuleGroupFactor p = Inr None"
      using assms(2) read_partial_group(1) by auto
  qed
  then show ?thesis
    using join_parens_trimmed [OF p] trim_trimmed [OF trimmed_parens [OF p]] split_multiply_parens [OF p]
    by (simp add: tryParseRequestRuleExpr_def t)
qed

definition guarded_group :: RequestRuleGroup where
  "guarded_group =
     \<lparr>rg_conditions = [PHCond \<lparr>ph_source = SOURCE_PARAM, ph_path = js ''max_tokens'', ph_mode = MATCH_GT, ph_value = js ''4096''\<rparr>],
      rg_multiplier = js ''2''\<rparr>"

lemma guarded_sample: "partial_group guarded_group"
  by code_simp

theorem guarded_rules_lost_witness:
  "tryParseRequestRuleExpr (buildRequestRuleExpr [sample_group, guarded_group]) = Inr None"
  using guarded_rules_lost [of "[sample_group, guarded_group]"] sample_readable guarded_sample by simp

text \<open>
  Taking outer parentheses off ends, and leaves a trimmed text that is not
  enclosed in one pair of parentheses any more; a text in one more pair of
  parentheses gives the same result.
\<close>

theorem unwrap_normal_form:
  "trimmed (unwrapOuterParens e) \<and> \<not> hasFullOuterParens (unwrapOuterParens e) \<and>
     (balanced e \<longrightarrow> unwrapOuterParens (js ''('' @ e @ js '')'') = unwrapOuterParens e)"
  using unwrap_paren [of e]
  by (simp add: unwrapOuterParens_def unwrap_loop_done unwrap_loop_trimmed js_simps)

theorem unwrap_normal_form_witness:
  "balanced (js ''(p * 2)'') \<and>
     unwrapOuterParens (js ''('' @ js ''(p * 2)'' @ js '')'') = unwrapOuterParens (js ''(p * 2)'')"
proof -
  have "balanced (js ''(p * 2)'')" by code_simp
  then show ?thesis using unwrap_normal_form [of "js ''(p * 2)''"] by blast
qed

text \<open>A condition that the editor offers for its source.\<close>

definition valid_cond :: "RequestCondition \<Rightarrow> bool" where
  "valid_cond c = (case c of
       PHCond p \<Rightarrow> ph_source p \<in> {SOURCE_PARAM, SOURCE_HEADER} \<and>
         ph_mode p \<in> fst ` set (getRequestRuleMatchOptions (ph_source p))
     | TimeCond t \<Rightarrow> tc_timeFunc t \<in> set TIME_FUNCS \<and> tc_timezone t \<noteq> [] \<and>
         tc_mode t \<in> fst ` set (getRequestRuleMatchOptions SOURCE_TIME))"

lemma valid_mode_in:
  "d \<in> fst ` set (getRequestRuleMatchOptions s) \<Longrightarrow> valid_mode s m d \<in> fst ` set (getRequestRuleMatchOptions s)"
  by (force simp: valid_mode_def)

lemma normalize_valid: "valid_cond (normalizeCondition c)"
proof -
  have d: "MATCH_GTE \<in> fst ` set (getRequestRuleMatchOptions SOURCE_TIME)"
      "MATCH_EQ \<in> fst ` set (getRequestRuleMatchOptions SOURCE_PARAM)"
      "MATCH_EQ \<in> fst ` set (getRequestRuleMatchOptions SOURCE_HEADER)"
    by code_simp+
  have h: "js ''hour'' \<in> set TIME_FUNCS" by (simp add: TIME_FUNCS_def)
  have "valid_cond (TimeCond (normalize_time c))"
    using valid_mode_in [OF d(1)] h
    by (simp add: valid_cond_def normalize_time_def Let_def isTimeFunc_def or_str_def split: option.splits)
  moreover have "valid_cond (PHCond (normalize_ph s c))" if "s = SOURCE_PARAM \<or> s = SOURCE_HEADER" for s
    using that valid_mode_in [OF d(2)] valid_mode_in [OF d(3)] by (auto simp: valid_cond_def normalize_ph_def Let_def)
  ultimately show ?thesis by (simp add: normalizeCondition_def Let_def)
qed

lemma normalize_fixed:
  assumes "valid_cond v"
  shows "normalizeCondition (Some (partial_of v)) = v"
proof (cases v)
  case (PHCond p)
  have "SOURCE_PARAM \<noteq> SOURCE_TIME" "SOURCE_HEADER \<noteq> SOURCE_TIME" "SOURCE_PARAM \<noteq> SOURCE_HEADER"
    by (simp_all add: rule_consts)
  then show ?thesis
    using assms PHCond valid_mode_opt [of "ph_mode p" "ph_source p"]
    by (cases p) (auto simp: valid_cond_def normalizeCondition_def normalize_ph_def partial_of_def Let_def)
next
  case (TimeCond t)
  then show ?thesis
    using assms valid_mode_opt [of "tc_mode t" SOURCE_TIME]
    by (cases t) (simp add: valid_cond_def normalizeCondition_def normalize_time_def partial_of_def
        isTimeFunc_def or_str_def Let_def)
qed

text \<open>
  C39: Normalising a condition, from whatever partial object the editor holds, gives a
  condition whose source is one of the three and whose mode is one that is offered
  for that source, and normalising it again changes nothing.
\<close>

theorem normalize_valid_idem:
  "valid_cond (normalizeCondition c) \<and>
     normalizeCondition (Some (partial_of (normalizeCondition c))) = normalizeCondition c"
  using normalize_valid normalize_fixed by blast

end
