(* ===== verification/PlaygroundMessages.thy ===== *)
theory PlaygroundMessages
  imports JS_Json JS_Regex
begin

text \<open>
  The messages of the playground: \<open>features/playground/types.ts\<close>, the constants it uses,
  and \<open>features/playground/lib/message-utils.ts\<close>, which creates messages, separates
  \<open><think>\<close> reasoning from visible text while an answer streams in, replaces upstream
  errors by safe texts, and repairs messages that were left unfinished.  Identifiers
  drawn by \<open>nanoid\<close> are arguments.
\<close>

subsection \<open>Types and constants\<close>

datatype MessageRole = User | Assistant | System

datatype MessageStatus = LOADING | STREAMING | COMPLETE | ERROR

record MessageVersion =
  mv_id :: "jstring option"
  mv_content :: jstring

record PlaygroundAttachment =
  at_id :: jstring
  at_filename :: jstring
  at_mediaType :: jstring
  at_dataUrl :: jstring

record Reasoning =
  rs_content :: jstring
  rs_duration :: jnum

record Source =
  so_href :: jstring
  so_title :: jstring

record Message =
  m_key :: jstring
  m_from :: MessageRole
  m_versions :: "MessageVersion list"
  m_attachments :: "PlaygroundAttachment list option"
  m_sources :: "Source list option"
  m_reasoning :: "Reasoning option"
  m_isReasoningStreaming :: "bool option"
  m_isReasoningComplete :: "bool option"
  m_isContentComplete :: "bool option"
  m_status :: "MessageStatus option"
  m_errorCode :: "jstring option option"

text \<open>A part of a request message: \<open>type\<close> selects the one field that is present.\<close>

datatype ContentPart = TextPart jstring | ImageUrlPart jstring | FilePart jstring jstring

datatype MessageContent = Plain jstring | Parts "ContentPart list"

record ChatCompletionMessage =
  cm_role :: MessageRole
  cm_content :: MessageContent

text \<open>The Thai texts, by code unit.\<close>

definition HINT_QUOTA :: jstring where
  "HINT_QUOTA =
     [3648, 3588, 3619, 3604, 3636, 3605, 3627, 3619, 3639, 3629, 3626, 3636, 3607, 3608, 3636,
      3660, 3585, 3634, 3619, 3651, 3594, 3657, 3591, 3634, 3609, 3652, 3617, 3656, 3648, 3614,
      3637, 3618, 3591, 3614, 3629, 32, 3585, 3619, 3640, 3603, 3634, 3648, 3605, 3636, 3617, 3648,
      3588, 3619, 3604, 3636, 3605, 3627, 3619, 3639, 3629, 3648, 3621, 3639, 3629, 3585, 3650,
      3617, 3648, 3604, 3621, 3629, 3639, 3656, 3609]"

definition HINT_KEY :: jstring where
  "HINT_KEY =
     [65, 80, 73, 32, 75, 101, 121, 32, 3652, 3617, 3656, 3606, 3641, 3585, 3605, 3657, 3629, 3591,
      3627, 3619, 3639, 3629, 3627, 3617, 3604, 3629, 3634, 3618, 3640, 32, 3585, 3619, 3640, 3603,
      3634, 3605, 3619, 3623, 3592, 3626, 3629, 3610, 32, 65, 80, 73, 32, 75, 101, 121, 32, 3649,
      3621, 3657, 3623, 3621, 3629, 3591, 3651, 3627, 3617, 3656]"

definition HINT_RATE :: jstring where
  "HINT_RATE =
     [3626, 3656, 3591, 3588, 3635, 3586, 3629, 3610, 3656, 3629, 3618, 3648, 3585, 3636, 3609,
      3652, 3611, 32, 3585, 3619, 3640, 3603, 3634, 3619, 3629, 3626, 3633, 3585, 3588, 3619, 3641,
      3656, 3649, 3621, 3657, 3623, 3621, 3629, 3591, 3651, 3627, 3617, 3656]"

definition HINT_MODEL :: jstring where
  "HINT_MODEL =
     [3650, 3617, 3648, 3604, 3621, 3609, 3637, 3657, 3618, 3633, 3591, 3652, 3617, 3656, 3614,
      3619, 3657, 3629, 3617, 3651, 3594, 3657, 3591, 3634, 3609, 32, 3585, 3619, 3640, 3603, 3634,
      3648, 3621, 3639, 3629, 3585, 3650, 3617, 3648, 3604, 3621, 3629, 3639, 3656, 3609, 3649,
      3621, 3657, 3623, 3621, 3629, 3591, 3651, 3627, 3617, 3656]"

definition HINT_REQUEST :: jstring where
  "HINT_REQUEST =
     [3588, 3635, 3586, 3629, 3652, 3617, 3656, 3606, 3641, 3585, 3605, 3657, 3629, 3591, 32, 3585,
      3619, 3640, 3603, 3634, 3605, 3619, 3623, 3592, 3626, 3629, 3610, 3650, 3617, 3648, 3604,
      3621, 32, 3586, 3657, 3629, 3588, 3623, 3634, 3617, 32, 3649, 3621, 3632, 3585, 3634, 3619,
      3605, 3633, 3657, 3591, 3588, 3656, 3634, 3585, 3656, 3629, 3609, 3621, 3629, 3591, 3651,
      3627, 3617, 3656]"

definition HINT_RETRY :: jstring where
  "HINT_RETRY =
     [3585, 3619, 3640, 3603, 3634, 3621, 3629, 3591, 3651, 3627, 3617, 3656, 3627, 3619, 3639,
      3629, 3648, 3611, 3621, 3637, 3656, 3618, 3609, 3650, 3617, 3648, 3604, 3621, 32, 3627, 3634,
      3585, 3618, 3633, 3591, 3648, 3585, 3636, 3604, 3595, 3657, 3635, 3651, 3627, 3657, 3649,
      3592, 3657, 3591, 3649, 3629, 3604, 3617, 3636, 3609, 3605, 3619, 3623, 3592, 3626, 3629,
      3610]"

definition API_REQUEST_ERROR :: jstring where
  "API_REQUEST_ERROR =
     [3648, 3585, 3636, 3604, 3586, 3657, 3629, 3612, 3636, 3604, 3614, 3621, 3634, 3604, 3651,
      3609, 3585, 3634, 3619, 3648, 3619, 3637, 3618, 3585, 32, 65, 80, 73]"

definition PARSE_ERROR :: jstring where
  "PARSE_ERROR = js ''Error parsing response data''"

definition STREAM_START_ERROR :: jstring where
  "STREAM_START_ERROR = js ''Error establishing connection''"

definition CONNECTION_CLOSED :: jstring where
  "CONNECTION_CLOSED = js ''Connection closed''"

definition INTERRUPTED :: jstring where
  "INTERRUPTED = js ''Generation was interrupted''"

subsection \<open>Creating and reading messages\<close>

definition createMessageVersion :: "jstring \<Rightarrow> jstring \<Rightarrow> MessageVersion" where
  "createMessageVersion nanoid content = \<lparr>mv_id = Some nanoid, mv_content = content\<rparr>"

definition getCurrentVersion :: "Message \<Rightarrow> MessageVersion" where
  "getCurrentVersion message =
     (case m_versions message of
        [] \<Rightarrow> \<lparr>mv_id = Some (js ''default''), mv_content = []\<rparr>
      | v # _ \<Rightarrow> v)"

definition updateCurrentVersionContent :: "Message \<Rightarrow> jstring \<Rightarrow> Message" where
  "updateCurrentVersionContent message content =
     message\<lparr>m_versions := [(getCurrentVersion message)\<lparr>mv_content := content\<rparr>]\<rparr>"

definition blank_message :: "jstring \<Rightarrow> MessageRole \<Rightarrow> MessageVersion list \<Rightarrow> Message" where
  "blank_message key from versions =
     \<lparr>m_key = key, m_from = from, m_versions = versions, m_attachments = None, m_sources = None,
      m_reasoning = None, m_isReasoningStreaming = None, m_isReasoningComplete = None,
      m_isContentComplete = None, m_status = None, m_errorCode = None\<rparr>"

definition createUserMessage :: "jstring \<Rightarrow> jstring \<Rightarrow> jstring \<Rightarrow> PlaygroundAttachment list \<Rightarrow> Message" where
  "createUserMessage key vid content attachments =
     (blank_message key User [createMessageVersion vid content])
       \<lparr>m_attachments := (if length attachments > 0 then Some attachments else None)\<rparr>"

definition createLoadingAssistantMessage :: "jstring \<Rightarrow> jstring \<Rightarrow> Message" where
  "createLoadingAssistantMessage key vid =
     (blank_message key Assistant [createMessageVersion vid []])
       \<lparr>m_isReasoningComplete := Some False, m_isContentComplete := Some False,
        m_isReasoningStreaming := Some False, m_status := Some LOADING\<rparr>"

definition buildMessageContent :: "jstring \<Rightarrow> jstring list \<Rightarrow> MessageContent" where
  "buildMessageContent t imageUrls =
     (let validImages = filter (\<lambda>url. trim url \<noteq> []) imageUrls in
      if length validImages = 0 then Plain t
      else Parts (TextPart t # map (\<lambda>url. ImageUrlPart (trim url)) validImages))"

fun find_text :: "ContentPart list \<Rightarrow> jstring" where
  "find_text [] = []"
| "find_text (TextPart t # ps) = t"
| "find_text (_ # ps) = find_text ps"

definition getTextContent :: "MessageContent \<Rightarrow> jstring" where
  "getTextContent content = (case content of Plain t \<Rightarrow> t | Parts ps \<Rightarrow> find_text ps)"

definition attachment_part :: "PlaygroundAttachment \<Rightarrow> ContentPart" where
  "attachment_part a =
     (if starts_with (at_mediaType a) (js ''image/'') then ImageUrlPart (at_dataUrl a)
      else FilePart (at_filename a) (at_dataUrl a))"

definition formatMessageForAPI :: "Message \<Rightarrow> ChatCompletionMessage" where
  "formatMessageForAPI message =
     (let currentVersion = getCurrentVersion message;
          attachments = (case m_attachments message of None \<Rightarrow> [] | Some as \<Rightarrow> as) in
      if m_from message = User \<and> length attachments > 0
      then \<lparr>cm_role = m_from message,
            cm_content = Parts (TextPart (mv_content currentVersion) # map attachment_part attachments)\<rparr>
      else \<lparr>cm_role = m_from message, cm_content = Plain (mv_content currentVersion)\<rparr>)"

definition isValidMessage :: "Message \<Rightarrow> bool" where
  "isValidMessage message =
     (case m_versions message of
        [] \<Rightarrow> False
      | v # _ \<Rightarrow> \<not> (m_from message = Assistant \<and> trim (mv_content v) = []))"

subsection \<open>Reasoning tags\<close>

definition THINK_OPEN :: jstring where
  "THINK_OPEN = js ''<think>''"

definition THINK_CLOSE :: jstring where
  "THINK_CLOSE = js ''</think>''"

lemma length_tags [simp]: "length THINK_OPEN = 7" "length THINK_CLOSE = 8"
  by (simp_all add: THINK_OPEN_def THINK_CLOSE_def)

text \<open>
  The loop of \<open>parseThinkTags\<close> over the text from \<open>currentPos\<close> on: the visible parts, the
  reasoning parts, and whether a tag is left open.
\<close>

function think_loop :: "jstring \<Rightarrow> jstring list \<times> jstring list \<times> bool" where
  "think_loop rest =
     (case index_of THINK_OPEN rest of
        None \<Rightarrow> (if 0 < length rest then [rest] else [], [], False)
      | Some openPos \<Rightarrow>
          (let visible = (if openPos > 0 then [take openPos rest] else []);
               inner = drop (openPos + 7) rest in
           case index_of THINK_CLOSE inner of
             None \<Rightarrow> (visible, [inner], True)
           | Some closePos \<Rightarrow>
               (case think_loop (drop (closePos + 8) inner) of
                  (vs, rs, unclosed) \<Rightarrow> (visible @ vs, take closePos inner # rs, unclosed))))"
  by pat_completeness auto
termination
  by (relation "measure length") (auto dest: index_of_Some_le)

declare think_loop.simps [simp del]

record ThinkParts =
  tp_visibleContent :: jstring
  tp_reasoning :: jstring
  tp_hasUnclosedTag :: bool

definition parseThinkTags :: "jstring \<Rightarrow> ThinkParts" where
  "parseThinkTags content =
     (if \<not> str_includes content THINK_OPEN
      then \<lparr>tp_visibleContent = content, tp_reasoning = [], tp_hasUnclosedTag = False\<rparr>
      else
        (case think_loop content of (visibleParts, reasoningParts, hasUnclosed) \<Rightarrow>
           \<lparr>tp_visibleContent = trim (join [] visibleParts),
            tp_reasoning = trim (join [10, 10] reasoningParts),
            tp_hasUnclosedTag = hasUnclosed\<rparr>))"

subsection \<open>Safe error texts\<close>

text \<open>
  The expressions carry the \<open>i\<close> flag: an ASCII letter stands for both its cases
  (without the \<open>u\<close> flag no unit outside ASCII folds to an ASCII letter).
\<close>

definition ChrI :: "nat \<Rightarrow> re" where
  "ChrI l = Cls (\<lambda>c. c = l \<or> (97 \<le> l \<and> l \<le> 122 \<and> c + 32 = l))"

definition LitI :: "jstring \<Rightarrow> re" where
  "LitI w = Seqs (map ChrI w)"

definition alnum_dash :: "nat \<Rightarrow> bool" where
  "alnum_dash c \<longleftrightarrow> is_digit c \<or> (65 \<le> c \<and> c \<le> 90) \<or> (97 \<le> c \<and> c \<le> 122) \<or> c = 45"

definition REQUEST_ID_PATTERN :: re where
  "REQUEST_ID_PATTERN =
     Seqs [Opt (Chr 40), Star (Cls is_ws), LitI (js ''request''), Opt (LitI (js ''_ori'')), Opt (Chr 95),
           LitI (js ''id''), Star (Cls is_ws), Cls (\<lambda>c. c = 58 \<or> c = 65306), Star (Cls is_ws),
           Plus (Cls alnum_dash), Star (Cls is_ws), Opt (Chr 41)]"

definition is_cjk :: "nat \<Rightarrow> bool" where
  "is_cjk c \<longleftrightarrow> (13312 \<le> c \<and> c \<le> 40959) \<or> (63744 \<le> c \<and> c \<le> 64255)"

definition CJK_PATTERN :: re where
  "CJK_PATTERN = Cls is_cjk"

definition any_star :: re where
  "any_star = Star (Cls no_newline)"

definition ERROR_HINTS :: "(re \<times> jstring) list" where
  "ERROR_HINTS =
     [(Alts [LitI (js ''insufficient_user_quota''), LitI (js ''quota''), LitI (js ''credit''), LitI (js ''balance''),
             LitI (js ''403'')], HINT_QUOTA),
      (Alts [LitI (js ''unauthorized''), Seqs [LitI (js ''invalid''), any_star, LitI (js ''key'')], LitI (js ''401'')], HINT_KEY),
      (Alts [Seqs [LitI (js ''rate''), Opt (Cls no_newline), LitI (js ''limit'')], LitI (js ''too many requests''),
             LitI (js ''429'')], HINT_RATE),
      (Alts [LitI (js ''model_not_found''),
             Seqs [LitI (js ''model''), any_star, LitI (js ''not''), any_star, LitI (js ''found'')], LitI (js ''503'')], HINT_MODEL),
      (Alts [LitI (js ''invalid_request''), LitI (js ''bad request''), LitI (js ''400''), LitI (js ''json''),
             LitI (js ''parameter'')], HINT_REQUEST)]"

definition error_prefix :: "jstring \<Rightarrow> jstring" where
  "error_prefix message = API_REQUEST_ERROR @ js '': '' @ message"

fun first_hint :: "(re \<times> jstring) list \<Rightarrow> jstring \<Rightarrow> jstring option" where
  "first_hint [] raw = None"
| "first_hint ((p, message) # hs) raw = (if re_test p raw then Some message else first_hint hs raw)"

definition raw_error :: "jstring option \<Rightarrow> jstring option \<Rightarrow> jstring" where
  "raw_error errorMessage errorCode =
     trim (re_replace (Plus (Cls is_ws)) [32]
       (re_replace REQUEST_ID_PATTERN []
         ((if truthy_opt errorCode then opt_str errorCode @ [32] else []) @ opt_str errorMessage)))"

definition buildSafeErrorMessage :: "jstring option \<Rightarrow> jstring option \<Rightarrow> jstring" where
  "buildSafeErrorMessage errorMessage errorCode =
     (let raw = raw_error errorMessage errorCode in
      case first_hint ERROR_HINTS raw of
        Some message \<Rightarrow> error_prefix message
      | None \<Rightarrow>
          if raw = [] \<or> re_test CJK_PATTERN raw \<or> length raw > 180 then error_prefix HINT_RETRY
          else error_prefix raw)"

subsection \<open>Updating the last answer\<close>

definition updateLastAssistantMessage :: "Message list \<Rightarrow> (Message \<Rightarrow> Message) \<Rightarrow> Message list" where
  "updateLastAssistantMessage messages updater =
     (if length messages = 0 then messages
      else if m_from (last messages) \<noteq> Assistant then messages
      else messages[length messages - 1 := updater (last messages)])"

definition updateAssistantMessageWithError :: "Message list \<Rightarrow> jstring \<Rightarrow> jstring option \<Rightarrow> Message list" where
  "updateAssistantMessageWithError messages errorMessage errorCode =
     updateLastAssistantMessage messages (\<lambda>message.
       (updateCurrentVersionContent message (buildSafeErrorMessage (Some errorMessage) errorCode))
         \<lparr>m_status := Some ERROR, m_isReasoningStreaming := Some False,
          m_errorCode := Some (if truthy_opt errorCode then errorCode else None)\<rparr>)"

definition processStreamingContent :: "Message \<Rightarrow> jstring option \<Rightarrow> Message" where
  "processStreamingContent message contentChunk =
     (let currentVersion = getCurrentVersion message;
          fullContent = (if truthy_opt contentChunk then mv_content currentVersion @ opt_str contentChunk
                         else mv_content currentVersion);
          parts = parseThinkTags fullContent;
          finalReasoning = (if tp_reasoning parts \<noteq> []
                            then Some \<lparr>rs_content = tp_reasoning parts, rs_duration = Fin 0\<rparr>
                            else m_reasoning message) in
      (updateCurrentVersionContent message fullContent)
        \<lparr>m_reasoning := finalReasoning, m_isReasoningStreaming := Some (tp_hasUnclosedTag parts)\<rparr>)"

definition reasoning_text :: "Message \<Rightarrow> jstring" where
  "reasoning_text message = (case m_reasoning message of None \<Rightarrow> [] | Some r \<Rightarrow> rs_content r)"

definition finalizeMessage :: "Message \<Rightarrow> jstring option \<Rightarrow> Message" where
  "finalizeMessage message apiReasoningContent =
     (let currentVersion = getCurrentVersion message;
          parts = parseThinkTags (mv_content currentVersion);
          finalReasoning = or_str (or_str (opt_str apiReasoningContent) (reasoning_text message)) (tp_reasoning parts);
          duration = (case m_reasoning message of None \<Rightarrow> Fin 0 | Some r \<Rightarrow> num_or0 (rs_duration r)) in
      (updateCurrentVersionContent message (tp_visibleContent parts))
        \<lparr>m_reasoning := (if finalReasoning \<noteq> []
             then Some \<lparr>rs_content = finalReasoning, rs_duration = duration\<rparr> else None),
         m_isReasoningStreaming := Some False\<rparr>)"

subsection \<open>Repairing stored messages\<close>

definition stuck :: "Message \<Rightarrow> bool" where
  "stuck m \<longleftrightarrow> m_from m = Assistant \<and> (m_status m = Some LOADING \<or> m_status m = Some STREAMING)"

text \<open>The loop from the end: the last index below \<open>n\<close> whose message is stuck.\<close>

fun last_stuck :: "Message list \<Rightarrow> nat \<Rightarrow> nat option" where
  "last_stuck messages 0 = None"
| "last_stuck messages (Suc i) = (if stuck (messages ! i) then Some i else last_stuck messages i)"

definition sanitize_message :: "Message \<Rightarrow> Message" where
  "sanitize_message m =
     (let finalized = finalizeMessage m None;
          hasContent = (case m_versions finalized of [] \<Rightarrow> False | v # _ \<Rightarrow> trim (mv_content v) \<noteq> []);
          hasReasoning = trim (reasoning_text finalized) \<noteq> [] in
      if hasContent \<or> hasReasoning
      then finalized\<lparr>m_status := Some COMPLETE, m_isReasoningStreaming := Some False\<rparr>
      else (updateCurrentVersionContent finalized (API_REQUEST_ERROR @ js '': '' @ INTERRUPTED))
             \<lparr>m_status := Some ERROR, m_isReasoningStreaming := Some False\<rparr>)"

definition sanitizeMessagesOnLoad :: "Message list \<Rightarrow> Message list" where
  "sanitizeMessagesOnLoad messages =
     (case last_stuck messages (length messages) of
        None \<Rightarrow> messages
      | Some targetIndex \<Rightarrow> messages[targetIndex := sanitize_message (messages ! targetIndex)])"

subsection \<open>What the reasoning parser computes\<close>

lemma open_first: "\<not> str_includes t THINK_OPEN \<Longrightarrow> index_of THINK_OPEN (t @ THINK_OPEN @ v) = Some (length t)"
  by (rule index_of_unbordered [of _ 60 "js ''think>''"]) (simp_all add: THINK_OPEN_def js_simps)

lemma close_first: "\<not> str_includes t THINK_CLOSE \<Longrightarrow> index_of THINK_CLOSE (t @ THINK_CLOSE @ v) = Some (length t)"
  by (rule index_of_unbordered [of _ 60 "js ''/think>''"]) (simp_all add: THINK_CLOSE_def js_simps)

text \<open>
  A text as pairs of shown text and closed thought, a last shown text, and possibly a
  thought that is still open.
\<close>

definition think_text :: "(jstring \<times> jstring) list \<Rightarrow> jstring \<Rightarrow> jstring option \<Rightarrow> jstring" where
  "think_text ps t opened =
     concat (map (\<lambda>(s, r). s @ THINK_OPEN @ r @ THINK_CLOSE) ps) @ t @
     (case opened of None \<Rightarrow> [] | Some r \<Rightarrow> THINK_OPEN @ r)"

definition think_ok :: "(jstring \<times> jstring) list \<Rightarrow> jstring \<Rightarrow> jstring option \<Rightarrow> bool" where
  "think_ok ps t opened \<longleftrightarrow>
     list_all (\<lambda>(s, r). \<not> str_includes s THINK_OPEN \<and> \<not> str_includes r THINK_CLOSE) ps \<and>
     \<not> str_includes t THINK_OPEN \<and>
     (case opened of None \<Rightarrow> True | Some r \<Rightarrow> \<not> str_includes r THINK_CLOSE)"

lemma think_loop_text:
  "think_ok ps t opened \<Longrightarrow>
     \<exists>vs. think_loop (think_text ps t opened) =
       (vs, map snd ps @ (case opened of None \<Rightarrow> [] | Some r \<Rightarrow> [r]), opened \<noteq> None) \<and>
       concat vs = concat (map fst ps) @ t"
proof (induction ps)
  case Nil
  show ?case
  proof (cases opened)
    case None
    then show ?thesis
      using Nil index_None by (simp add: think_text_def think_ok_def think_loop.simps [of t])
  next
    case (Some r)
    then have "think_text [] t opened = t @ THINK_OPEN @ r" by (simp add: think_text_def)
    then show ?thesis
      using Nil Some open_first [of t r] index_None [of r THINK_CLOSE]
      by (simp add: think_ok_def think_loop.simps [of "t @ THINK_OPEN @ r"])
  qed
next
  case (Cons p ps)
  obtain s r where p: "p = (s, r)" by (cases p)
  let ?rest = "think_text ps t opened"
  have ok: "\<not> str_includes s THINK_OPEN" "\<not> str_includes r THINK_CLOSE" "think_ok ps t opened"
    using Cons.prems by (simp_all add: think_ok_def p)
  have e: "think_text (p # ps) t opened = s @ THINK_OPEN @ r @ THINK_CLOSE @ ?rest"
    by (simp add: think_text_def p)
  obtain vs where "think_loop ?rest =
       (vs, map snd ps @ (case opened of None \<Rightarrow> [] | Some r \<Rightarrow> [r]), opened \<noteq> None)"
       "concat vs = concat (map fst ps) @ t" using Cons.IH ok(3) by blast
  then show ?case
    using open_first [OF ok(1), of "r @ THINK_CLOSE @ ?rest"] close_first [OF ok(2), of ?rest]
    unfolding e by (subst think_loop.simps) (simp add: p)
qed

lemma parse_think_text:
  assumes "think_ok ps t opened"
  shows "parseThinkTags (think_text ps t opened) =
     (if ps = [] \<and> opened = None then \<lparr>tp_visibleContent = t, tp_reasoning = [], tp_hasUnclosedTag = False\<rparr>
      else \<lparr>tp_visibleContent = trim (concat (map fst ps) @ t),
            tp_reasoning = trim (join [10, 10] (map snd ps @ (case opened of None \<Rightarrow> [] | Some r \<Rightarrow> [r]))),
            tp_hasUnclosedTag = (opened \<noteq> None)\<rparr>)"
proof (cases "ps = [] \<and> opened = None")
  case True
  then show ?thesis using assms by (simp add: parseThinkTags_def think_text_def think_ok_def)
next
  case False
  have "\<exists>u v. think_text ps t opened = u @ THINK_OPEN @ v"
  proof (cases ps)
    case (Cons p qs)
    then show ?thesis
      by (intro exI [of _ "fst p"] exI [of _ "snd p @ THINK_CLOSE @ think_text qs t opened"])
         (simp add: think_text_def split_beta)
  next
    case Nil
    then obtain r where "opened = Some r" using False by auto
    then show ?thesis using Nil by (auto simp: think_text_def)
  qed
  then have "str_includes (think_text ps t opened) THINK_OPEN" by (simp add: str_includes_iff)
  moreover obtain vs where "think_loop (think_text ps t opened) =
       (vs, map snd ps @ (case opened of None \<Rightarrow> [] | Some r \<Rightarrow> [r]), opened \<noteq> None)"
       "concat vs = concat (map fst ps) @ t" using think_loop_text [OF assms] by blast
  ultimately show ?thesis using False by (auto simp: parseThinkTags_def join_empty_sep)
qed

lemma think_decompose: "\<exists>ps t opened. content = think_text ps t opened \<and> think_ok ps t opened"
proof (induction content rule: measure_induct_rule [of length])
  case (less content)
  show ?case
  proof (cases "index_of THINK_OPEN content")
    case None
    then show ?thesis
      by (intro exI [of _ "[]"] exI [of _ content] exI [of _ None])
         (simp add: think_text_def think_ok_def str_includes_def)
  next
    case (Some i)
    let ?s = "take i content" and ?in = "drop (i + 7) content"
    have c: "content = ?s @ THINK_OPEN @ ?in" using index_of_Some [OF Some] by simp
    have s: "\<not> str_includes ?s THINK_OPEN"
      using index_of_take_free [OF Some] by (simp add: THINK_OPEN_def js_simps)
    show ?thesis
    proof (cases "index_of THINK_CLOSE ?in")
      case None
      then show ?thesis
        using c s by (intro exI [of _ "[]"] exI [of _ ?s] exI [of _ "Some ?in"])
         (simp add: think_text_def think_ok_def str_includes_def)
    next
      case (Some j)
      let ?r = "take j ?in" and ?rest = "drop (j + 8) ?in"
      have d: "?in = ?r @ THINK_CLOSE @ ?rest" using index_of_Some [OF Some] by simp
      have r: "\<not> str_includes ?r THINK_CLOSE"
        using index_of_take_free [OF Some] by (simp add: THINK_CLOSE_def js_simps)
      have "length ?rest < length content" using index_of_Some_le [OF Some] by simp
      then obtain ps t opened where "?rest = think_text ps t opened" "think_ok ps t opened"
        using less.IH by blast
      then show ?thesis
        using c d s r by (intro exI [of _ "(?s, ?r) # ps"] exI [of _ t] exI [of _ opened])
         (simp add: think_text_def think_ok_def)
    qed
  qed
qed

text \<open>
  C29: Every answer text has a reading as shown texts and thoughts between \<open><think>\<close> and
  \<open></think>\<close>, the last thought possibly still open, and the parser returns that reading:
  the shown texts joined and trimmed, the thoughts joined by blank lines and
  trimmed, and whether a thought is open.
\<close>

theorem think_tags_spec:
  "\<exists>ps t opened. content = think_text ps t opened \<and> think_ok ps t opened \<and>
     parseThinkTags content =
       (if ps = [] \<and> opened = None then \<lparr>tp_visibleContent = t, tp_reasoning = [], tp_hasUnclosedTag = False\<rparr>
        else \<lparr>tp_visibleContent = trim (concat (map fst ps) @ t),
              tp_reasoning = trim (join [10, 10] (map snd ps @ (case opened of None \<Rightarrow> [] | Some r \<Rightarrow> [r]))),
              tp_hasUnclosedTag = (opened \<noteq> None)\<rparr>)"
  using think_decompose [of content] parse_think_text by blast

subsection \<open>Safe errors\<close>








text \<open>Ideographs elsewhere are shown: the zero U+3007, and U+20000 as a pair of surrogates.\<close>

lemma rare_ideographs_shown:
  "buildSafeErrorMessage (Some [0x3007]) None = error_prefix [0x3007]"
  "buildSafeErrorMessage (Some [0xD840, 0xDC00]) None = error_prefix [0xD840, 0xDC00]"
  by code_simp+

subsection \<open>Repair\<close>

lemma last_stuck_Some:
  "last_stuck msgs n = Some i \<Longrightarrow> i < n \<and> stuck (msgs ! i) \<and> (\<forall>j. i < j \<and> j < n \<longrightarrow> \<not> stuck (msgs ! j))"
  by (induction msgs n rule: last_stuck.induct) (auto simp: less_Suc_eq split: if_splits)

lemma last_stuck_None: "last_stuck msgs n = None \<Longrightarrow> \<forall>j < n. \<not> stuck (msgs ! j)"
  by (induction msgs n rule: last_stuck.induct) (auto simp: less_Suc_eq split: if_splits)

lemma update_content_simps [simp]:
  "m_from (updateCurrentVersionContent m c) = m_from m"
  "m_status (updateCurrentVersionContent m c) = m_status m"
  "m_reasoning (updateCurrentVersionContent m c) = m_reasoning m"
  "m_key (updateCurrentVersionContent m c) = m_key m"
  "getCurrentVersion (updateCurrentVersionContent m c) = (getCurrentVersion m)\<lparr>mv_content := c\<rparr>"
  by (simp_all add: updateCurrentVersionContent_def getCurrentVersion_def)

lemma finalize_simps [simp]:
  "m_from (finalizeMessage m r) = m_from m"
  "m_status (finalizeMessage m r) = m_status m"
  "m_key (finalizeMessage m r) = m_key m"
  by (simp_all add: finalizeMessage_def Let_def)

lemma sanitize_not_stuck: "\<not> stuck (sanitize_message m)"
  by (simp add: sanitize_message_def Let_def stuck_def)

lemma sanitize_count:
  "length (filter stuck (sanitizeMessagesOnLoad msgs)) = length (filter stuck msgs) - 1"
proof (cases "last_stuck msgs (length msgs)")
  case None
  then have "filter stuck msgs = []" using last_stuck_None [OF None] by (auto simp: filter_empty_conv in_set_conv_nth)
  then show ?thesis using None by (simp add: sanitizeMessagesOnLoad_def)
next
  case (Some i)
  then have "i < length msgs" "stuck (msgs ! i)" using last_stuck_Some [OF Some] by auto
  then show ?thesis
    using Some filter_count_update [of i msgs stuck, OF _ _ sanitize_not_stuck] by (simp add: sanitizeMessagesOnLoad_def)
qed

text \<open>
  Repairing stored messages settles the last unfinished answer only: it becomes
  complete when it has shown text or reasoning and an error otherwise, every other
  message is kept, and of several unfinished answers all but one stay unfinished.
\<close>

theorem sanitize_settles_one:
  "length (sanitizeMessagesOnLoad msgs) = length msgs \<and>
   length (filter stuck (sanitizeMessagesOnLoad msgs)) = length (filter stuck msgs) - 1 \<and>
   (case last_stuck msgs (length msgs) of
      None \<Rightarrow> sanitizeMessagesOnLoad msgs = msgs
    | Some i \<Rightarrow> sanitizeMessagesOnLoad msgs = msgs[i := sanitize_message (msgs ! i)] \<and>
        m_status (sanitize_message (msgs ! i)) \<in> {Some COMPLETE, Some ERROR})"
  using sanitize_count [of msgs]
  by (simp add: sanitizeMessagesOnLoad_def split: option.split) (simp add: sanitize_message_def Let_def)

end
