(* ===== verification/JS_Storage.thy ===== *)
theory JS_Storage
  imports JS_Json
begin

text \<open>
  The browser's \<open>localStorage\<close> as the source uses it: a map from keys to texts whose
  writes may be refused (a full or disabled storage throws, and the callers catch
  it).  \<open>json_store\<close> is the contract on which the components rely that keep JSON values
  there.
\<close>

type_synonym storage = "jstring \<rightharpoonup> jstring"

definition getItem :: "storage \<Rightarrow> jstring \<Rightarrow> jstring option" where
  "getItem s k = s k"

text \<open>The first argument tells whether the browser accepts the write.\<close>

definition setItem :: "bool \<Rightarrow> jstring \<Rightarrow> jstring \<Rightarrow> storage \<Rightarrow> storage" where
  "setItem ok k v s = (if ok then s(k \<mapsto> v) else s)"

definition removeItem :: "jstring \<Rightarrow> storage \<Rightarrow> storage" where
  "removeItem k s = s(k := None)"

text \<open>
  \<open>load_json\<close> is the reading that the components share: a missing or empty entry and a
  text that is not JSON give nothing.
\<close>

definition load_json :: "jstring \<Rightarrow> storage \<Rightarrow> jsval option" where
  "load_json k s =
     (case getItem s k of
        None \<Rightarrow> None
      | Some t \<Rightarrow> if t = [] then None else JSON_parse t)"

definition save_json :: "bool \<Rightarrow> jstring \<Rightarrow> jsval \<Rightarrow> storage \<Rightarrow> storage" where
  "save_json ok k v s =
     (case JSON_stringify v of None \<Rightarrow> s | Some t \<Rightarrow> setItem ok k t s)"

locale json_store =
  fixes load :: "'k \<Rightarrow> 's \<Rightarrow> jsval option"
    and save :: "'k \<Rightarrow> jsval \<Rightarrow> 's \<Rightarrow> 's"
    and remove :: "'k \<Rightarrow> 's \<Rightarrow> 's"
    and storable :: "jsval \<Rightarrow> bool"
  assumes load_save: "storable v \<Longrightarrow> load k (save k v s) = Some v"
    and load_save_other: "k \<noteq> l \<Longrightarrow> load l (save k v s) = load l s"
    and load_remove: "load k (remove k s) = None"
    and load_remove_other: "k \<noteq> l \<Longrightarrow> load l (remove k s) = load l s"
begin

lemma load_saves:
  "distinct (map fst kvs) \<Longrightarrow> \<forall>(k, v) \<in> set kvs. storable v \<Longrightarrow> (k, v) \<in> set kvs \<Longrightarrow>
     load k (foldl (\<lambda>s (k, v). save k v s) s kvs) = Some v"
proof (induction kvs arbitrary: s)
  case (Cons p kvs)
  obtain l w where p: "p = (l, w)" by (cases p)
  show ?case
  proof (cases "(k, v) \<in> set kvs")
    case True
    then show ?thesis using Cons by (simp add: p)
  next
    case False
    have "l \<notin> set (map fst kvs) \<Longrightarrow> load l (foldl (\<lambda>s (k, v). save k v s) s kvs) = load l s" for s
      by (induction kvs arbitrary: s) (auto simp: load_save_other)
    then show ?thesis using Cons.prems False by (simp add: p load_save)
  qed
qed simp

lemma load_removes:
  "load k (foldl (\<lambda>s k. remove k s) s ks) = (if k \<in> set ks then None else load k s)"
proof (induction ks arbitrary: s)
  case (Cons l ks)
  then show ?case by (cases "k = l") (auto simp: load_remove load_remove_other)
qed simp

end

lemma json_text_not_Nil: "json_ok v \<Longrightarrow> json_text v \<noteq> []"
  using json_text_hd by fastforce

interpretation ls: json_store load_json "save_json True" removeItem json_ok
proof
  fix v k s assume "json_ok v"
  then show "load_json k (save_json True k v s) = Some v"
    using JSON_parse_stringify [of v] json_text_not_Nil [of v]
    by (simp add: load_json_def save_json_def getItem_def setItem_def)
qed (auto simp: load_json_def save_json_def getItem_def setItem_def removeItem_def split: option.splits)

lemma save_refused [simp]: "save_json False k v s = s"
  by (simp add: save_json_def setItem_def split: option.splits)

end
