(* ===== verification/JS_Object.thy ===== *)
theory JS_Object
  imports JS_Storage
begin

text \<open>
  Objects whose shape is not known: the own properties that a spread and
  \<open>Object.entries\<close> enumerate, and the property read \<open>v[k]\<close>.  The keys that the modelled
  code reads are its own literals or keys of a parsed object, so inherited
  properties are left out.
\<close>

text \<open>The indices are the own enumerable properties of an array and of a string.\<close>

fun own_props :: "jsval \<Rightarrow> (jstring \<times> jsval) list" where
  "own_props (Obj ps) = ps"
| "own_props (Arr vs) = map (\<lambda>i. (nat_str i, vs ! i)) [0..<length vs]"
| "own_props (Str s) = map (\<lambda>i. (nat_str i, Str [s ! i])) [0..<length s]"
| "own_props _ = []"

text \<open>\<open>spread target v\<close> is \<open>{ ...target, ...v }\<close>.\<close>

definition spread :: "(jstring \<times> jsval) list \<Rightarrow> jsval \<Rightarrow> (jstring \<times> jsval) list" where
  "spread target v = foldl (\<lambda>o' (k, w). obj_put k w o') target (own_props v)"

lemma map_of_spread: "map_of (spread d v) = map_of d ++ map_of (rev (own_props v))"
  by (simp add: spread_def map_of_foldl_obj_put)

text \<open>
  \<open>get_key v k\<close> is \<open>v[k]\<close>; for \<open>undefined\<close> and \<open>null\<close> the language throws, and the callers
  test for that where it can happen.
\<close>

definition get_key :: "jsval \<Rightarrow> jstring \<Rightarrow> jsval" where
  "get_key v k =
     (case map_of (own_props v) k of
        Some w \<Rightarrow> w
      | None \<Rightarrow>
          (case v of
             Arr vs \<Rightarrow> if k = js ''length'' then Num (num_int (int (length vs))) else Undef
           | Str s \<Rightarrow> if k = js ''length'' then Num (num_int (int (length s))) else Undef
           | _ \<Rightarrow> Undef))"

lemma get_key_Obj: "get_key (Obj ps) k = (case map_of ps k of None \<Rightarrow> Undef | Some w \<Rightarrow> w)"
  by (simp add: get_key_def split: option.splits)

lemma get_key_prop: "get_key (Obj ps) = get_prop (Obj ps)"
  by (rule ext) (simp add: get_key_Obj get_prop_def)

text \<open>The \<open>typeof\<close> tests.\<close>

definition is_boolean :: "jsval \<Rightarrow> bool" where
  "is_boolean v = (case v of Bool _ \<Rightarrow> True | _ \<Rightarrow> False)"

definition is_number :: "jsval \<Rightarrow> bool" where
  "is_number v = (case v of Num _ \<Rightarrow> True | _ \<Rightarrow> False)"

definition is_string :: "jsval \<Rightarrow> bool" where
  "is_string v = (case v of Str _ \<Rightarrow> True | _ \<Rightarrow> False)"

text \<open>
  \<open>ascii_lower\<close> is \<open>toLowerCase\<close> as far as a comparison with a literal can tell whose
  letters are ASCII letters other than \<open>i\<close> and \<open>k\<close>: only for these two is there a
  letter outside ASCII whose small form begins with them.
\<close>

definition ascii_lower :: "jstring \<Rightarrow> jstring" where
  "ascii_lower s = map (\<lambda>c. if 65 \<le> c \<and> c \<le> 90 then c + 32 else c) s"

text \<open>\<open>str_le\<close> is the order of \<open>xs.sort()\<close>, by code units.\<close>

fun str_le :: "jstring \<Rightarrow> jstring \<Rightarrow> bool" where
  "str_le [] t = True"
| "str_le (x # s) [] = False"
| "str_le (x # s) (y # t) = (x < y \<or> (x = y \<and> str_le s t))"

text \<open>
  \<open>plain_object v\<close> is the negation of the test
  \<open>!v || typeof v !== 'object' || Array.isArray(v)\<close>, with the properties of the object.
\<close>

definition plain_object :: "jsval \<Rightarrow> (jstring \<times> jsval) list option" where
  "plain_object v =
     (if \<not> truthy v \<or> \<not> is_obj v then None
      else case v of Obj ps \<Rightarrow> Some ps | _ \<Rightarrow> None)"

lemma plain_object_iff: "plain_object v = Some ps \<longleftrightarrow> v = Obj ps"
  by (cases v) (auto simp: plain_object_def is_obj_def)

end
