(* ===== verification/PlaygroundConfig.thy ===== *)
theory PlaygroundConfig
  imports PlaygroundMessages JS_Object
begin

text \<open>
  The settings of the playground: \<open>features/playground/lib/payload-builder.ts\<close> (what is
  sent to the server), \<open>lib/storage.ts\<close> (what is kept in the browser) and
  \<open>hooks/use-playground-state.ts\<close> (the state of the page).  Settings come from storage
  without a check, so they are JavaScript objects here, lists of properties.
\<close>

subsection \<open>Request payload\<close>

definition role_str :: "MessageRole \<Rightarrow> jstring" where
  "role_str r = (case r of User \<Rightarrow> js ''user'' | Assistant \<Rightarrow> js ''assistant'' | System \<Rightarrow> js ''system'')"

definition part_json :: "ContentPart \<Rightarrow> jsval" where
  "part_json p =
     (case p of
        TextPart t \<Rightarrow> Obj [(js ''type'', Str (js ''text'')), (js ''text'', Str t)]
      | ImageUrlPart u \<Rightarrow> Obj [(js ''type'', Str (js ''image_url'')), (js ''image_url'', Obj [(js ''url'', Str u)])]
      | FilePart f d \<Rightarrow> Obj [(js ''type'', Str (js ''file'')),
            (js ''file'', Obj [(js ''filename'', Str f), (js ''file_data'', Str d)])])"

definition request_message_json :: "ChatCompletionMessage \<Rightarrow> jsval" where
  "request_message_json m =
     Obj [(js ''role'', Str (role_str (cm_role m))),
          (js ''content'', (case cm_content m of Plain t \<Rightarrow> Str t | Parts ps \<Rightarrow> Arr (map part_json ps)))]"

definition put_parameter ::
  "jsval \<Rightarrow> jsval \<Rightarrow> (jstring \<times> jsval) list \<Rightarrow> jstring \<Rightarrow> (jstring \<times> jsval) list" where
  "put_parameter config parameterEnabled payload key =
     (if truthy (get_prop parameterEnabled key) then
        (let v = get_prop config key in
         if v \<noteq> Undef \<and> v \<noteq> Null then obj_put key v payload else payload)
      else payload)"

definition samplingKey :: "jsval \<Rightarrow> jstring" where
  "samplingKey parameterEnabled =
     (if truthy (get_prop parameterEnabled (js ''temperature'')) \<or> \<not> truthy (get_prop parameterEnabled (js ''top_p''))
      then js ''temperature'' else js ''top_p'')"

definition parameterKeys :: "jsval \<Rightarrow> jstring list" where
  "parameterKeys parameterEnabled =
     [samplingKey parameterEnabled, js ''max_tokens'', js ''frequency_penalty'', js ''presence_penalty'', js ''seed'']"

definition buildChatCompletionPayload :: "Message list \<Rightarrow> jsval \<Rightarrow> jsval \<Rightarrow> bool \<Rightarrow> (jstring \<times> jsval) list" where
  "buildChatCompletionPayload messages config parameterEnabled webSearch =
     (let processedMessages = map formatMessageForAPI (filter isValidMessage messages);
          payload = [(js ''model'', get_prop config (js ''model'')),
                     (js ''group'', get_prop config (js ''group'')),
                     (js ''messages'', Arr (map request_message_json processedMessages)),
                     (js ''stream'', get_prop config (js ''stream''))];
          payload1 = (if webSearch
             then obj_put (js ''web_search_options'') (Obj [(js ''search_context_size'', Str (js ''medium''))]) payload
             else payload) in
      foldl (put_parameter config parameterEnabled) payload1 (parameterKeys parameterEnabled))"

subsection \<open>Storage\<close>

definition CONFIG_KEY :: jstring where
  "CONFIG_KEY = js ''playground_config''"

definition MESSAGES_KEY :: jstring where
  "MESSAGES_KEY = js ''playground_messages''"

definition PARAMETER_ENABLED_KEY :: jstring where
  "PARAMETER_ENABLED_KEY = js ''playground_parameter_enabled''"

definition DEFAULT_CONFIG :: "(jstring \<times> jsval) list" where
  "DEFAULT_CONFIG =
     [(js ''model'', Str (js ''gpt-4o'')), (js ''group'', Str (js ''default'')),
      (js ''temperature'', Num (fl (7 / 10))), (js ''top_p'', Num (Fin 1)), (js ''max_tokens'', Num (Fin 4096)),
      (js ''frequency_penalty'', Num (Fin 0)), (js ''presence_penalty'', Num (Fin 0)), (js ''seed'', Null),
      (js ''stream'', Bool True)]"

definition DEFAULT_PARAMETER_ENABLED :: "(jstring \<times> jsval) list" where
  "DEFAULT_PARAMETER_ENABLED =
     [(js ''temperature'', Bool True), (js ''top_p'', Bool False), (js ''max_tokens'', Bool False),
      (js ''frequency_penalty'', Bool True), (js ''presence_penalty'', Bool True), (js ''seed'', Bool False)]"

definition load_or_empty :: "jstring \<Rightarrow> storage \<Rightarrow> jsval" where
  "load_or_empty k s = (case load_json k s of None \<Rightarrow> Obj [] | Some v \<Rightarrow> v)"

definition loadConfig :: "storage \<Rightarrow> jsval" where
  "loadConfig = load_or_empty CONFIG_KEY"

definition saveConfig :: "bool \<Rightarrow> (jstring \<times> jsval) list \<Rightarrow> storage \<Rightarrow> storage" where
  "saveConfig ok config = save_json ok CONFIG_KEY (Obj config)"

definition loadParameterEnabled :: "storage \<Rightarrow> jsval" where
  "loadParameterEnabled = load_or_empty PARAMETER_ENABLED_KEY"

definition saveParameterEnabled :: "bool \<Rightarrow> (jstring \<times> jsval) list \<Rightarrow> storage \<Rightarrow> storage" where
  "saveParameterEnabled ok parameterEnabled = save_json ok PARAMETER_ENABLED_KEY (Obj parameterEnabled)"

definition clearPlaygroundData :: "storage \<Rightarrow> storage" where
  "clearPlaygroundData s =
     foldl (\<lambda>s k. removeItem k s) s [CONFIG_KEY, PARAMETER_ENABLED_KEY, MESSAGES_KEY]"

subsection \<open>State of the page\<close>

record ModelOption =
  mo_label :: jstring
  mo_value :: jstring

record GroupOption =
  go_label :: jstring
  go_value :: jstring
  go_ratio :: jnum
  go_desc :: "jstring option"

record PlaygroundState =
  ps_config :: "(jstring \<times> jsval) list"
  ps_parameterEnabled :: "(jstring \<times> jsval) list"
  ps_messages :: "Message list"
  ps_models :: "ModelOption list"
  ps_groups :: "GroupOption list"
  ps_storage :: storage

definition usePlaygroundState :: "storage \<Rightarrow> PlaygroundState" where
  "usePlaygroundState s =
     \<lparr>ps_config = spread DEFAULT_CONFIG (loadConfig s),
      ps_parameterEnabled = spread DEFAULT_PARAMETER_ENABLED (loadParameterEnabled s),
      ps_messages = [], ps_models = [], ps_groups = [], ps_storage = s\<rparr>"

definition updateConfig :: "bool \<Rightarrow> jstring \<Rightarrow> jsval \<Rightarrow> PlaygroundState \<Rightarrow> PlaygroundState" where
  "updateConfig ok key v st =
     (let updated = obj_put key v (ps_config st) in
      st\<lparr>ps_config := updated, ps_storage := saveConfig ok updated (ps_storage st)\<rparr>)"

definition updateParameterEnabled :: "bool \<Rightarrow> jstring \<Rightarrow> bool \<Rightarrow> PlaygroundState \<Rightarrow> PlaygroundState" where
  "updateParameterEnabled ok key v st =
     (let updated = obj_put key (Bool v) (ps_parameterEnabled st) in
      st\<lparr>ps_parameterEnabled := updated, ps_storage := saveParameterEnabled ok updated (ps_storage st)\<rparr>)"

definition updateMessages :: "(Message list \<Rightarrow> Message list) \<Rightarrow> PlaygroundState \<Rightarrow> PlaygroundState" where
  "updateMessages updater st = st\<lparr>ps_messages := updater (ps_messages st)\<rparr>"

definition clearMessages :: "bool \<Rightarrow> PlaygroundState \<Rightarrow> PlaygroundState" where
  "clearMessages ok st =
     st\<lparr>ps_messages := [], ps_storage := save_json ok MESSAGES_KEY (Arr []) (ps_storage st)\<rparr>"

definition resetConfig :: "bool \<Rightarrow> PlaygroundState \<Rightarrow> PlaygroundState" where
  "resetConfig ok st =
     st\<lparr>ps_config := DEFAULT_CONFIG, ps_parameterEnabled := DEFAULT_PARAMETER_ENABLED,
        ps_storage := saveParameterEnabled ok DEFAULT_PARAMETER_ENABLED
          (saveConfig ok DEFAULT_CONFIG (ps_storage st))\<rparr>"

text \<open>
  The effects of \<open>index.tsx\<close> that run when the lists of models and groups arrive: a
  choice that is not offered is replaced.
\<close>

definition setModels :: "ModelOption list \<Rightarrow> PlaygroundState \<Rightarrow> PlaygroundState" where
  "setModels ms' st = st\<lparr>ps_models := ms'\<rparr>"

definition setGroups :: "GroupOption list \<Rightarrow> PlaygroundState \<Rightarrow> PlaygroundState" where
  "setGroups gs st = st\<lparr>ps_groups := gs\<rparr>"

definition models_effect :: "bool \<Rightarrow> ModelOption list \<Rightarrow> PlaygroundState \<Rightarrow> PlaygroundState" where
  "models_effect ok modelsData st =
     (let st1 = setModels modelsData st;
          isCurrentModelValid = list_ex (\<lambda>m. Str (mo_value m) = get_prop (Obj (ps_config st)) (js ''model'')) modelsData in
      if length modelsData > 0 \<and> \<not> isCurrentModelValid
      then updateConfig ok (js ''model'') (Str (mo_value (hd modelsData))) st1 else st1)"

definition groups_effect :: "bool \<Rightarrow> GroupOption list \<Rightarrow> PlaygroundState \<Rightarrow> PlaygroundState" where
  "groups_effect ok groupsData st =
     (let st1 = setGroups groupsData st;
          hasCurrentGroup = list_ex (\<lambda>g. Str (go_value g) = get_prop (Obj (ps_config st)) (js ''group'')) groupsData in
      if \<not> hasCurrentGroup \<and> length groupsData > 0
      then updateConfig ok (js ''group'')
             (Str (case find (\<lambda>g. go_value g = js ''default'') groupsData of
                     Some g \<Rightarrow> go_value g
                   | None \<Rightarrow> go_value (hd groupsData))) st1
      else st1)"

subsection \<open>The payload\<close>

lemma map_of_put_parameter:
  "map_of (put_parameter c e p k) =
     (if truthy (get_prop e k) \<and> get_prop c k \<notin> {Undef, Null} then (map_of p)(k \<mapsto> get_prop c k) else map_of p)"
  by (simp add: put_parameter_def Let_def)

lemma map_of_parameters:
  "map_of (foldl (put_parameter c e) p ks) k =
     (if k \<in> set ks \<and> truthy (get_prop e k) \<and> get_prop c k \<notin> {Undef, Null} then Some (get_prop c k)
      else map_of p k)"
  by (induction ks arbitrary: p) (auto simp: map_of_put_parameter)

definition payload_base :: "Message list \<Rightarrow> jsval \<Rightarrow> bool \<Rightarrow> jstring \<rightharpoonup> jsval" where
  "payload_base messages config webSearch =
     [js ''model'' \<mapsto> get_prop config (js ''model''), js ''group'' \<mapsto> get_prop config (js ''group''),
      js ''messages'' \<mapsto> Arr (map (\<lambda>m. request_message_json (formatMessageForAPI m)) (filter isValidMessage messages)),
      js ''stream'' \<mapsto> get_prop config (js ''stream'')] ++
     (if webSearch then [js ''web_search_options'' \<mapsto> Obj [(js ''search_context_size'', Str (js ''medium''))]]
      else Map.empty)"

text \<open>
  C34: The request payload holds the model, the group, the valid messages and the
  stream flag, and of the parameters those that are enabled and set, with the
  configured value: \<open>max_tokens\<close>, \<open>frequency_penalty\<close>, \<open>presence_penalty\<close>, \<open>seed\<close>,
  \<open>temperature\<close>, and \<open>top_p\<close> only when \<open>temperature\<close> is not enabled.  So the two sampling
  controls are never sent together.
\<close>

theorem payload_parameters:
  "map_of (buildChatCompletionPayload messages config enabled webSearch) k =
     (if (k \<in> {js ''max_tokens'', js ''frequency_penalty'', js ''presence_penalty'', js ''seed'', js ''temperature''} \<or>
          k = js ''top_p'' \<and> \<not> truthy (get_prop enabled (js ''temperature''))) \<and>
         truthy (get_prop enabled k) \<and> get_prop config k \<notin> {Undef, Null}
      then Some (get_prop config k)
      else payload_base messages config webSearch k) \<and>
   \<not> (map_of (buildChatCompletionPayload messages config enabled webSearch) (js ''temperature'') \<noteq> None \<and>
      map_of (buildChatCompletionPayload messages config enabled webSearch) (js ''top_p'') \<noteq> None)"
proof -
  have m: "map_of (buildChatCompletionPayload messages config enabled webSearch) k =
     (if k \<in> set (parameterKeys enabled) \<and> truthy (get_prop enabled k) \<and> get_prop config k \<notin> {Undef, Null}
      then Some (get_prop config k)
      else payload_base messages config webSearch k)" for k
    by (auto simp: buildChatCompletionPayload_def Let_def map_of_parameters payload_base_def comp_def)
  have k: "k \<in> set (parameterKeys enabled) \<and> truthy (get_prop enabled k) \<longleftrightarrow>
     (k \<in> {js ''max_tokens'', js ''frequency_penalty'', js ''presence_penalty'', js ''seed'', js ''temperature''} \<or>
      k = js ''top_p'' \<and> \<not> truthy (get_prop enabled (js ''temperature''))) \<and> truthy (get_prop enabled k)" for k
    by (auto simp: parameterKeys_def samplingKey_def)
  have d: "payload_base messages config webSearch (js ''temperature'') = None" "payload_base messages config webSearch (js ''top_p'') = None"
    by (simp_all add: payload_base_def js_def)
  show ?thesis
    unfolding m using k [of k] d by (auto simp: parameterKeys_def samplingKey_def)
qed

subsection \<open>Settings survive a reload\<close>

datatype setting_op =
    SetConfig jstring jsval
  | SetParameter jstring bool
  | ResetConfig
  | ClearMessages
  | ModelsArrive "ModelOption list"
  | GroupsArrive "GroupOption list"

fun setting_step :: "PlaygroundState \<Rightarrow> setting_op \<Rightarrow> PlaygroundState" where
  "setting_step st (SetConfig k v) = updateConfig True k v st"
| "setting_step st (SetParameter k b) = updateParameterEnabled True k b st"
| "setting_step st ResetConfig = resetConfig True st"
| "setting_step st ClearMessages = clearMessages True st"
| "setting_step st (ModelsArrive l) = models_effect True l st"
| "setting_step st (GroupsArrive l) = groups_effect True l st"

fun setting_ok :: "setting_op \<Rightarrow> bool" where
  "setting_ok (SetConfig k v) = json_ok v"
| "setting_ok _ = True"

lemma keys_differ [simp]:
  "CONFIG_KEY \<noteq> MESSAGES_KEY" "CONFIG_KEY \<noteq> PARAMETER_ENABLED_KEY" "PARAMETER_ENABLED_KEY \<noteq> MESSAGES_KEY"
  "MESSAGES_KEY \<noteq> CONFIG_KEY" "PARAMETER_ENABLED_KEY \<noteq> CONFIG_KEY" "MESSAGES_KEY \<noteq> PARAMETER_ENABLED_KEY"
  by (simp_all add: CONFIG_KEY_def MESSAGES_KEY_def PARAMETER_ENABLED_KEY_def)

lemma map_of_spread_covers:
  assumes "in_order ps" and "dom (map_of d) \<subseteq> dom (map_of ps)"
  shows "map_of (spread d (Obj ps)) = map_of ps"
proof -
  have "distinct (map fst ps)" using assms(1) by (simp add: in_order_def)
  then have e: "map_of (spread d (Obj ps)) = map_of d ++ map_of ps" by (simp add: map_of_spread map_of_rev)
  have "(map_of d ++ map_of ps) k = map_of ps k" for k
    using assms(2) by (cases "map_of ps k") (auto simp: map_add_def split: option.splits)
  then show ?thesis unfolding e by blast
qed

text \<open>\<open>kept d st_entries loaded\<close>: the settings in memory are what a reload would give.\<close>

definition kept :: "(jstring \<times> jsval) list \<Rightarrow> (jstring \<times> jsval) list \<Rightarrow> jsval \<Rightarrow> bool" where
  "kept d cur loaded \<longleftrightarrow>
     map_of (spread d loaded) = map_of cur \<and> dom (map_of d) \<subseteq> dom (map_of cur) \<and> json_ok (Obj cur)"

definition settings_inv :: "PlaygroundState \<Rightarrow> bool" where
  "settings_inv st \<longleftrightarrow>
     kept DEFAULT_CONFIG (ps_config st) (loadConfig (ps_storage st)) \<and>
     kept DEFAULT_PARAMETER_ENABLED (ps_parameterEnabled st) (loadParameterEnabled (ps_storage st))"

lemma kept_saved:
  "json_ok (Obj cur) \<Longrightarrow> dom (map_of d) \<subseteq> dom (map_of cur) \<Longrightarrow> kept d cur (Obj cur)"
  using map_of_spread_covers [of cur d] by (simp add: kept_def json_ok_Obj del: json_ok.simps)

lemma load_settings:
  "json_ok v \<Longrightarrow> load_or_empty k (save_json True k v s) = v"
  "k \<noteq> l \<Longrightarrow> load_or_empty l (save_json True k v s) = load_or_empty l s"
  by (simp_all add: load_or_empty_def ls.load_save ls.load_save_other)

lemma defaults_ok: "json_ok (Obj DEFAULT_CONFIG)" "json_ok (Obj DEFAULT_PARAMETER_ENABLED)"
proof -
  have n: "wf_num (Fin 1)" "wf_num (Fin 4096)"
    using fl_of_nat [of 1] fl_of_nat [of 4096] by (simp_all add: wf_num_def is_double_def)
  have f: "is_finite (fl (7 / 10))" by code_simp
  have "in_order DEFAULT_CONFIG" "in_order DEFAULT_PARAMETER_ENABLED"
    unfolding in_order_keys by (simp_all add: DEFAULT_CONFIG_def DEFAULT_PARAMETER_ENABLED_def)
       (simp_all add: key_before_def key_index_def js_simps is_digit_def)
  then show "json_ok (Obj DEFAULT_CONFIG)" "json_ok (Obj DEFAULT_PARAMETER_ENABLED)"
    unfolding json_ok_Obj using n f
    by (simp_all add: DEFAULT_CONFIG_def DEFAULT_PARAMETER_ENABLED_def is_finite_def [of "Fin _"] wf_num_def [of "Fin 0"])
qed

lemmas setting_defs = loadConfig_def loadParameterEnabled_def saveConfig_def saveParameterEnabled_def
  updateConfig_def updateParameterEnabled_def resetConfig_def clearMessages_def Let_def

lemma update_config_inv:
  assumes "settings_inv st" and "json_ok v"
  shows "settings_inv (updateConfig True k v st)"
proof -
  have "json_ok (Obj (obj_put k v (ps_config st)))"
    using assms by (intro json_ok_put) (auto simp: settings_inv_def kept_def)
  moreover have "dom (map_of DEFAULT_CONFIG) \<subseteq> dom (map_of (obj_put k v (ps_config st)))"
    using assms by (auto simp: settings_inv_def kept_def)
  ultimately show ?thesis
    using assms by (simp add: settings_inv_def setting_defs load_settings kept_saved del: json_ok.simps)
qed

lemma lists_inv [simp]:
  "settings_inv (setModels l st) = settings_inv st" "settings_inv (setGroups g st) = settings_inv st"
  by (simp_all add: settings_inv_def setModels_def setGroups_def)

lemma setting_step_inv:
  assumes "settings_inv st" and "setting_ok op"
  shows "settings_inv (setting_step st op)"
proof (cases op)
  case (SetConfig k v)
  then show ?thesis using assms update_config_inv by simp
next
  case (ModelsArrive l)
  then show ?thesis using assms(1) update_config_inv by (simp add: models_effect_def Let_def)
next
  case (GroupsArrive l)
  then show ?thesis using assms(1) update_config_inv by (simp add: groups_effect_def Let_def)
next
  case (SetParameter k b)
  have "json_ok (Obj (obj_put k (Bool b) (ps_parameterEnabled st)))"
    using assms SetParameter by (intro json_ok_put) (auto simp: settings_inv_def kept_def)
  moreover have "dom (map_of DEFAULT_PARAMETER_ENABLED) \<subseteq> dom (map_of (obj_put k (Bool b) (ps_parameterEnabled st)))"
    using assms by (auto simp: settings_inv_def kept_def)
  ultimately show ?thesis
    using assms SetParameter
    by (simp add: settings_inv_def setting_defs load_settings kept_saved del: json_ok.simps)
next
  case ResetConfig
  then show ?thesis
    by (simp add: settings_inv_def setting_defs load_settings kept_saved defaults_ok del: json_ok.simps)
next
  case ClearMessages
  then show ?thesis
    using assms by (simp add: settings_inv_def setting_defs load_settings del: json_ok.simps)
qed

text \<open>
  C32: Starting from readable settings (or none), after any sequence of changes and
  resets a reload of the page finds the same configuration and the same enabled
  parameters, as long as the browser accepts the writes.
\<close>

theorem settings_survive_reload:
  assumes "json_ok (Obj (ps_config (usePlaygroundState s)))"
    and "json_ok (Obj (ps_parameterEnabled (usePlaygroundState s)))"
    and "list_all setting_ok ops"
    and "st = foldl setting_step (usePlaygroundState s) ops"
  shows "map_of (ps_config (usePlaygroundState (ps_storage st))) = map_of (ps_config st) \<and>
     map_of (ps_parameterEnabled (usePlaygroundState (ps_storage st))) = map_of (ps_parameterEnabled st)"
proof -
  have "settings_inv (usePlaygroundState s)"
    using assms(1,2)
    by (auto simp: settings_inv_def kept_def usePlaygroundState_def map_of_spread simp del: json_ok.simps)
  moreover have "settings_inv st0 \<Longrightarrow> list_all setting_ok ops \<Longrightarrow> settings_inv (foldl setting_step st0 ops)" for st0
    by (induction ops arbitrary: st0) (auto simp: setting_step_inv)
  ultimately have "settings_inv st" using assms(3,4) by simp
  then show ?thesis by (simp add: settings_inv_def kept_def usePlaygroundState_def)
qed

theorem settings_survive_reload_witness:
  "map_of (ps_config (usePlaygroundState (ps_storage
      (foldl setting_step (usePlaygroundState Map.empty) [SetConfig (js ''model'') (Str (js ''o1'')), SetParameter (js ''seed'') True]))))
     (js ''model'') = Some (Str (js ''o1''))"
proof -
  have e: "ps_config (usePlaygroundState Map.empty) = DEFAULT_CONFIG"
      "ps_parameterEnabled (usePlaygroundState Map.empty) = DEFAULT_PARAMETER_ENABLED"
    by (simp_all add: usePlaygroundState_def setting_defs load_or_empty_def load_json_def getItem_def spread_def)
  show ?thesis
    using settings_survive_reload [of Map.empty
        "[SetConfig (js ''model'') (Str (js ''o1'')), SetParameter (js ''seed'') True]"] defaults_ok
    by (simp add: e setting_defs del: json_ok.simps(4))
qed

subsection \<open>Offered choices\<close>

lemma get_put: "get_prop (Obj (obj_put k v ps)) l = (if l = k then v else get_prop (Obj ps) l)"
  by (simp add: get_prop_def)

text \<open>
  C33: When the lists of models and groups have arrived and neither is empty, the
  chosen model and the chosen group are among those offered, in whichever order the
  lists arrive; a valid choice is kept.
\<close>

theorem choice_is_offered:
  assumes "ms' \<noteq> []" and "gs \<noteq> []"
    and "st' = groups_effect ok gs (models_effect ok' ms' st) \<or> st' = models_effect ok ms' (groups_effect ok' gs st)"
  shows "list_ex (\<lambda>m. Str (mo_value m) = get_prop (Obj (ps_config st')) (js ''model'')) ms' \<and>
     list_ex (\<lambda>g. Str (go_value g) = get_prop (Obj (ps_config st')) (js ''group'')) gs \<and>
     (list_ex (\<lambda>m. Str (mo_value m) = get_prop (Obj (ps_config st)) (js ''model'')) ms' \<longrightarrow>
        get_prop (Obj (ps_config st')) (js ''model'') = get_prop (Obj (ps_config st)) (js ''model''))"
proof -
  let ?m = "\<lambda>st. get_prop (Obj (ps_config st)) (js ''model'')" and ?g = "\<lambda>st. get_prop (Obj (ps_config st)) (js ''group'')"
  have e: "list_ex (\<lambda>m. mo_value m = mo_value (hd ms')) ms'" "list_ex (\<lambda>g. go_value g = go_value (hd gs)) gs"
    using assms(1,2) by (auto simp: list_ex_iff)
  have f: "find P gs = Some g \<Longrightarrow> list_ex (\<lambda>h. go_value h = go_value g) gs" for P g
    by (auto simp: find_Some_iff list_ex_iff)
  have m: "list_ex (\<lambda>m. Str (mo_value m) = ?m (models_effect b ms' s)) ms'" "?g (models_effect b ms' s) = ?g s"
    "list_ex (\<lambda>m. Str (mo_value m) = ?m s) ms' \<Longrightarrow> ?m (models_effect b ms' s) = ?m s" for b s
    using assms(1) e(1) by (simp_all add: models_effect_def setModels_def updateConfig_def Let_def get_put)
  have g: "list_ex (\<lambda>g. Str (go_value g) = ?g (groups_effect b gs s)) gs" "?m (groups_effect b gs s) = ?m s" for b s
    using assms(2) e(2) f
    by (simp_all add: groups_effect_def setGroups_def updateConfig_def Let_def get_put split: option.splits)
  show ?thesis using assms(3) m g by auto
qed

theorem choice_is_offered_witness:
  "get_prop (Obj (ps_config (models_effect True [\<lparr>mo_label = [], mo_value = js ''o1''\<rparr>]
     (groups_effect True [\<lparr>go_label = [], go_value = js ''vip'', go_ratio = Fin 1, go_desc = None\<rparr>] (usePlaygroundState Map.empty)))))
     (js ''model'') = Str (js ''o1'')"
  using choice_is_offered [of "[\<lparr>mo_label = [], mo_value = js ''o1''\<rparr>]"
      "[\<lparr>go_label = [], go_value = js ''vip'', go_ratio = Fin 1, go_desc = None\<rparr>]", OF _ _ disjI2 [OF refl],
      of True True "usePlaygroundState Map.empty"] by simp

end
