(* ===== verification/PlaygroundStream.thy ===== *)
theory PlaygroundStream
  imports PlaygroundConfig
begin

text \<open>
  Requests of the playground: \<open>features/playground/hooks/use-stream-request.ts\<close> (the
  event handlers of one server-sent-event stream) and \<open>hooks/use-chat-handler.ts\<close>
  (what they do to the messages).  The library \<open>sse.js\<close> and the network decide which
  events arrive; the handlers are state transformers.
\<close>

subsection \<open>State\<close>

text \<open>
  \<open>ch_source\<close> is \<open>sseSourceRef.current\<close> and \<open>ch_complete\<close> is \<open>isStreamCompleteRef.current\<close>.
  Sources are numbered in the order in which they are created (\<open>ch_opened\<close> many);
  \<open>ch_live\<close> holds those that stream and are not closed.  \<open>ch_requests\<close> and \<open>ch_toasts\<close> record the
  payloads sent and the notices shown.
\<close>

record Chat =
  ch_source :: "nat option"
  ch_complete :: bool
  ch_opened :: nat
  ch_live :: "nat list"
  ch_messages :: "Message list"
  ch_toasts :: "jstring list"
  ch_requests :: "(jstring \<times> jsval) list list"

definition onMessageUpdate :: "(Message list \<Rightarrow> Message list) \<Rightarrow> Chat \<Rightarrow> Chat" where
  "onMessageUpdate updater st = st\<lparr>ch_messages := updater (ch_messages st)\<rparr>"

subsection \<open>Message handlers\<close>

datatype ChunkType = ReasoningChunk | ContentChunk

definition stream_update :: "ChunkType \<Rightarrow> jstring \<Rightarrow> Message \<Rightarrow> Message" where
  "stream_update type chunk message =
     (if m_status message = Some ERROR then message
      else if type = ReasoningChunk then
        message\<lparr>m_reasoning := Some \<lparr>rs_content = reasoning_text message @ chunk, rs_duration = Fin 0\<rparr>,
                m_isReasoningStreaming := Some True, m_status := Some STREAMING\<rparr>
      else (processStreamingContent message (Some chunk))\<lparr>m_status := Some STREAMING\<rparr>)"

definition handleStreamUpdate :: "ChunkType \<Rightarrow> jstring \<Rightarrow> Chat \<Rightarrow> Chat" where
  "handleStreamUpdate type chunk =
     onMessageUpdate (\<lambda>prev. updateLastAssistantMessage prev (stream_update type chunk))"

definition stream_complete :: "Message \<Rightarrow> Message" where
  "stream_complete message =
     (if m_status message = Some COMPLETE \<or> m_status message = Some ERROR then message
      else (finalizeMessage message None)\<lparr>m_status := Some COMPLETE\<rparr>)"

definition handleStreamComplete :: "Chat \<Rightarrow> Chat" where
  "handleStreamComplete = onMessageUpdate (\<lambda>prev. updateLastAssistantMessage prev stream_complete)"

definition handleStreamError :: "jstring \<Rightarrow> jstring option \<Rightarrow> Chat \<Rightarrow> Chat" where
  "handleStreamError error errorCode st =
     onMessageUpdate (\<lambda>prev. updateAssistantMessageWithError prev error errorCode)
       (st\<lparr>ch_toasts := ch_toasts st @ [buildSafeErrorMessage (Some error) errorCode]\<rparr>)"

subsection \<open>One stream\<close>

definition close_sse :: "nat \<Rightarrow> Chat \<Rightarrow> Chat" where
  "close_sse src st = st\<lparr>ch_live := removeAll src (ch_live st)\<rparr>"

definition closeSource :: "nat \<Rightarrow> Chat \<Rightarrow> Chat" where
  "closeSource src st = (close_sse src st)\<lparr>ch_source := None\<rparr>"

definition handleError :: "nat \<Rightarrow> jstring \<Rightarrow> jstring option \<Rightarrow> Chat \<Rightarrow> Chat" where
  "handleError src errorMessage errorCode st =
     (if \<not> ch_complete st then closeSource src (handleStreamError errorMessage errorCode st) else st)"

text \<open>
  \<open>v?.k\<close> and \<open>v?.[0]\<close>.  \<open>chunk_delta data\<close> is \<open>JSON.parse(data).choices?.[0]?.delta\<close>; \<open>None\<close>
  is the exception, for a text that is not JSON and for \<open>null\<close>.
\<close>

definition item0 :: "jsval \<Rightarrow> jsval" where
  "item0 v =
     (case v of
        Arr (x # _) \<Rightarrow> x
      | Str (c # _) \<Rightarrow> Str [c]
      | Obj ps \<Rightarrow> get_prop v (js ''0'')
      | _ \<Rightarrow> Undef)"

definition chunk_delta :: "jstring \<Rightarrow> jsval option" where
  "chunk_delta data =
     (case JSON_parse data of
        None \<Rightarrow> None
      | Some v \<Rightarrow> if v = Null then None
                 else Some (get_prop (item0 (get_prop v (js ''choices''))) (js ''delta'')))"

definition apply_delta :: "jsval \<Rightarrow> Chat \<Rightarrow> Chat" where
  "apply_delta delta st =
     (if truthy delta then
        (let r = get_prop delta (js ''reasoning_content''); c = get_prop delta (js ''content'');
             st1 = (if truthy r then handleStreamUpdate ReasoningChunk (to_str r) st else st) in
         if truthy c then handleStreamUpdate ContentChunk (to_str c) st1 else st1)
      else st)"

definition DONE :: jstring where
  "DONE = js ''[DONE]''"

definition on_message :: "nat \<Rightarrow> jstring \<Rightarrow> Chat \<Rightarrow> Chat" where
  "on_message src data st =
     (if data = DONE then handleStreamComplete (closeSource src (st\<lparr>ch_complete := True\<rparr>))
      else (case chunk_delta data of
              None \<Rightarrow> handleError src PARSE_ERROR None st
            | Some delta \<Rightarrow> apply_delta delta st))"

text \<open>The text and the code that an \<open>error\<close> event carries.\<close>

definition error_of_event :: "jstring option \<Rightarrow> jstring \<times> jstring option" where
  "error_of_event data =
     (let errorMessage = or_str (opt_str data) API_REQUEST_ERROR in
      if \<not> truthy_opt data then (errorMessage, None)
      else (case JSON_parse (opt_str data) of
              None \<Rightarrow> (errorMessage, None)
            | Some parsed \<Rightarrow>
                (let err = get_prop parsed (js ''error'') in
                 if truthy err
                 then (let m = get_prop err (js ''message''); c = get_prop err (js ''code'') in
                       (if truthy m then to_str m else errorMessage,
                        if truthy c then Some (to_str c) else None))
                 else (errorMessage, None))))"

definition on_error :: "nat \<Rightarrow> jstring option \<Rightarrow> int \<Rightarrow> Chat \<Rightarrow> Chat" where
  "on_error src data readyState st =
     (if readyState \<noteq> 2 then
        (case error_of_event data of (errorMessage, errorCode) \<Rightarrow> handleError src errorMessage errorCode st)
      else st)"

definition on_readystatechange :: "nat \<Rightarrow> int option \<Rightarrow> nat option \<Rightarrow> Chat \<Rightarrow> Chat" where
  "on_readystatechange src readyState status st =
     (case (readyState, status) of
        (Some r, Some c) \<Rightarrow>
          if r \<ge> 2 \<and> c \<noteq> 200
          then handleError src (js ''HTTP '' @ nat_str c @ js '': '' @ CONNECTION_CLOSED) None st
          else st
      | _ \<Rightarrow> st)"

text \<open>\<open>started\<close> tells whether \<open>source.stream()\<close> returns; otherwise it throws.\<close>

definition sendStreamRequest :: "bool \<Rightarrow> (jstring \<times> jsval) list \<Rightarrow> Chat \<Rightarrow> Chat" where
  "sendStreamRequest started payload st =
     (let src = ch_opened st;
          st1 = st\<lparr>ch_opened := Suc src, ch_source := Some src,
                   ch_complete := False, ch_requests := ch_requests st @ [payload]\<rparr> in
      if started then st1\<lparr>ch_live := src # ch_live st\<rparr>
      else (handleStreamError STREAM_START_ERROR None st1)\<lparr>ch_source := None\<rparr>)"

definition stopStream :: "Chat \<Rightarrow> Chat" where
  "stopStream st =
     (case ch_source st of
        None \<Rightarrow> st
      | Some src \<Rightarrow> (close_sse src st)\<lparr>ch_source := None\<rparr>)"

definition isStreaming :: "Chat \<Rightarrow> bool" where
  "isStreaming st \<longleftrightarrow> ch_source st \<noteq> None"

subsection \<open>Sending and stopping\<close>

definition sendStreamingChat :: "bool \<Rightarrow> Message list \<Rightarrow> jsval \<Rightarrow> jsval \<Rightarrow> bool \<Rightarrow> Chat \<Rightarrow> Chat" where
  "sendStreamingChat started messages config parameterEnabled webSearch =
     sendStreamRequest started (buildChatCompletionPayload messages config parameterEnabled webSearch)"

text \<open>
  A request without streaming changes the state when the response arrives: the
  content and the reasoning of the first choice, no choice, or a failure.
\<close>

datatype ChatResponse =
    Choice "jstring option" "jstring option"
  | NoChoice
  | Failure "jstring option" "jstring option" "jstring option"

definition answer_message :: "jstring option \<Rightarrow> jstring option \<Rightarrow> Message \<Rightarrow> Message" where
  "answer_message content reasoning_content message =
     (finalizeMessage
        (message\<lparr>m_versions := [\<lparr>mv_id = (case m_versions message of [] \<Rightarrow> None | v # _ \<Rightarrow> mv_id v),
                                mv_content = opt_str content\<rparr>]\<rparr>)
        reasoning_content)\<lparr>m_status := Some COMPLETE\<rparr>"

definition on_response :: "ChatResponse \<Rightarrow> Chat \<Rightarrow> Chat" where
  "on_response response st =
     (case response of
        NoChoice \<Rightarrow> st
      | Choice content reasoning_content \<Rightarrow>
          onMessageUpdate (\<lambda>prev. updateLastAssistantMessage prev (answer_message content reasoning_content)) st
      | Failure data_message message code \<Rightarrow>
          handleStreamError (or_str (or_str (opt_str data_message) (opt_str message)) API_REQUEST_ERROR)
            (if truthy_opt code then code else None) st)"

definition sendNonStreamingChat :: "Message list \<Rightarrow> jsval \<Rightarrow> jsval \<Rightarrow> bool \<Rightarrow> Chat \<Rightarrow> Chat" where
  "sendNonStreamingChat messages config parameterEnabled webSearch st =
     st\<lparr>ch_requests := ch_requests st @ [buildChatCompletionPayload messages config parameterEnabled webSearch]\<rparr>"

definition sendChat :: "bool \<Rightarrow> Message list \<Rightarrow> jsval \<Rightarrow> jsval \<Rightarrow> bool \<Rightarrow> Chat \<Rightarrow> Chat" where
  "sendChat started messages config parameterEnabled webSearch =
     (if truthy (get_prop config (js ''stream''))
      then sendStreamingChat started messages config parameterEnabled webSearch
      else sendNonStreamingChat messages config parameterEnabled webSearch)"

definition stop_message :: "Message \<Rightarrow> Message" where
  "stop_message message =
     (if m_status message = Some LOADING \<or> m_status message = Some STREAMING
      then (finalizeMessage message None)\<lparr>m_status := Some COMPLETE\<rparr> else message)"

definition stopGeneration :: "Chat \<Rightarrow> Chat" where
  "stopGeneration st =
     onMessageUpdate (\<lambda>prev. updateLastAssistantMessage prev stop_message) (stopStream st)"

subsection \<open>Handlers touch the last answer only\<close>

definition same_frame :: "Message list \<Rightarrow> Message list \<Rightarrow> bool" where
  "same_frame old new \<longleftrightarrow>
     length new = length old \<and> butlast new = butlast old \<and>
     map m_key new = map m_key old \<and> map m_from new = map m_from old"

lemma same_frame_refl [simp]: "same_frame msgs msgs"
  by (simp add: same_frame_def)

lemma same_frame_trans: "same_frame a b \<Longrightarrow> same_frame b c \<Longrightarrow> same_frame a c"
  by (simp add: same_frame_def)

lemma update_last_snoc:
  "updateLastAssistantMessage (msgs @ [m]) f = msgs @ [if m_from m = Assistant then f m else m]"
  by (simp add: updateLastAssistantMessage_def)

lemma update_last_other:
  "msgs = [] \<or> m_from (last msgs) \<noteq> Assistant \<Longrightarrow> updateLastAssistantMessage msgs f = msgs"
  by (auto simp: updateLastAssistantMessage_def)

text \<open>What the list operation asks of a message update: the message keeps its key and role.\<close>

locale answer_update =
  fixes f :: "Message \<Rightarrow> Message"
  assumes keeps_key: "m_key (f m) = m_key m"
    and keeps_from: "m_from (f m) = m_from m"
begin

lemma update_frame: "same_frame msgs (updateLastAssistantMessage msgs f)"
proof (cases msgs rule: rev_cases)
  case (snoc ys y)
  then show ?thesis by (simp add: update_last_snoc same_frame_def keeps_key keeps_from)
qed (simp add: updateLastAssistantMessage_def)

lemma update_idem:
  assumes "\<And>m. f (f m) = f m"
  shows "updateLastAssistantMessage (updateLastAssistantMessage msgs f) f = updateLastAssistantMessage msgs f"
  using assms by (cases msgs rule: rev_cases)
    (simp_all add: update_last_snoc keeps_from updateLastAssistantMessage_def [of "[]"])

end

lemma process_simps [simp]:
  "m_from (processStreamingContent m c) = m_from m"
  "m_key (processStreamingContent m c) = m_key m"
  "m_status (processStreamingContent m c) = m_status m"
  by (simp_all add: processStreamingContent_def Let_def)

interpretation upd: answer_update "stream_update type chunk" for type chunk
  by unfold_locales (simp_all add: stream_update_def)

interpretation cmpl: answer_update stream_complete
  by unfold_locales (simp_all add: stream_complete_def)

interpretation stp: answer_update stop_message
  by unfold_locales (simp_all add: stop_message_def)

interpretation ans: answer_update "answer_message content reasoning" for content reasoning
  by unfold_locales (simp_all add: answer_message_def)

interpretation err: answer_update "\<lambda>message.
       (updateCurrentVersionContent message content)
         \<lparr>m_status := Some ERROR, m_isReasoningStreaming := Some False, m_errorCode := code\<rparr>" for content code
  by unfold_locales simp_all

lemma error_frame: "same_frame msgs (updateAssistantMessageWithError msgs e c)"
  by (simp add: updateAssistantMessageWithError_def err.update_frame)

lemma messages_simps [simp]:
  "ch_messages (onMessageUpdate f st) = f (ch_messages st)"
  "ch_messages (closeSource src st) = ch_messages st"
  "ch_messages (stopStream st) = ch_messages st"
  by (simp_all add: onMessageUpdate_def closeSource_def close_sse_def stopStream_def split: option.splits)

text \<open>The events of the network and the two actions of the user that go through the hooks.\<close>

datatype sse_event =
    SseMessage nat jstring
  | SseError nat "jstring option" int
  | SseReady nat "int option" "nat option"
  | Response ChatResponse
  | Stop

fun chat_event :: "Chat \<Rightarrow> sse_event \<Rightarrow> Chat" where
  "chat_event st (SseMessage src data) = on_message src data st"
| "chat_event st (SseError src data r) = on_error src data r st"
| "chat_event st (SseReady src r c) = on_readystatechange src r c st"
| "chat_event st (Response r) = on_response r st"
| "chat_event st Stop = stopGeneration st"

lemma stream_error_frame: "same_frame (ch_messages st) (ch_messages (handleStreamError e c st))"
  by (simp add: handleStreamError_def error_frame)

lemma error_handler_frame: "same_frame (ch_messages st) (ch_messages (handleError src e c st))"
  by (simp add: handleError_def stream_error_frame)

lemma delta_frame: "same_frame (ch_messages st) (ch_messages (apply_delta d st))"
proof -
  have u: "same_frame (ch_messages st) (ch_messages (handleStreamUpdate t c st))" for t c st
    by (simp add: handleStreamUpdate_def upd.update_frame)
  show ?thesis
    by (auto simp: apply_delta_def Let_def u intro: same_frame_trans [OF u u])
qed

lemma event_frame: "same_frame (ch_messages st) (ch_messages (chat_event st e))"
proof (cases e)
  case (SseMessage src data)
  then show ?thesis
    by (simp add: on_message_def handleStreamComplete_def cmpl.update_frame error_handler_frame delta_frame
        split: option.splits)
next
  case (SseError src data r)
  then show ?thesis by (simp add: on_error_def error_handler_frame split: prod.splits)
next
  case (SseReady src r c)
  then show ?thesis by (simp add: on_readystatechange_def error_handler_frame split: option.splits)
next
  case (Response r)
  then show ?thesis by (cases r) (simp_all add: on_response_def ans.update_frame stream_error_frame)
next
  case Stop
  then show ?thesis by (simp add: stopGeneration_def stp.update_frame)
qed

lemma events_frame: "same_frame (ch_messages st) (ch_messages (foldl chat_event st es))"
proof (induction es arbitrary: st)
  case (Cons e es)
  show ?case using same_frame_trans [OF event_frame Cons.IH] by simp
qed simp

text \<open>
  C35: Whatever events the network delivers and however often the user stops, no
  message but the last is changed, none appears or disappears, and the last keeps
  its key and its role.
\<close>

theorem events_touch_last_only:
  "same_frame (ch_messages st) (ch_messages (foldl chat_event st es))"
  by (rule events_frame)

subsection \<open>Delivery of a streamed answer\<close>

definition delta_json :: "ChunkType \<times> jstring \<Rightarrow> jsval" where
  "delta_json p =
     Obj [(js ''choices'', Arr [Obj [(js ''delta'',
       Obj [(if fst p = ReasoningChunk then js ''reasoning_content'' else js ''content'', Str (snd p))])]])]"

definition delta_event :: "nat \<Rightarrow> ChunkType \<times> jstring \<Rightarrow> sse_event" where
  "delta_event src p = SseMessage src (json_text (delta_json p))"

lemma json_ok_single: "json_ok (Obj [(k, v)]) = json_ok v"
  unfolding json_ok_Obj by (simp add: in_order_def)

lemma delta_json_ok: "json_ok (delta_json p)"
  by (simp add: delta_json_def json_ok_single del: json_ok.simps(4))

lemma delta_text: "JSON_parse (json_text (delta_json p)) = Some (delta_json p)" "json_text (delta_json p) \<noteq> DONE"
proof -
  show j: "JSON_parse (json_text (delta_json p)) = Some (delta_json p)"
    using JSON_parse_stringify [OF delta_json_ok] by blast
  have "JSON_parse DONE = None" by code_simp
  then show "json_text (delta_json p) \<noteq> DONE" using j by auto
qed

lemma delta_step:
  "chat_event st (delta_event src (t, c)) = (if c = [] then st else handleStreamUpdate t c st)"
proof -
  have "chunk_delta (json_text (delta_json (t, c))) =
      Some (Obj [(if t = ReasoningChunk then js ''reasoning_content'' else js ''content'', Str c)])"
    by (simp add: chunk_delta_def delta_text) (simp add: delta_json_def item0_def get_prop_def)
  then show ?thesis
    using delta_text(2) [of "(t, c)"]
    by (cases t) (simp_all add: delta_event_def on_message_def apply_delta_def get_prop_def Let_def)
qed

text \<open>The chunks of one kind, joined.\<close>

definition chunks :: "ChunkType \<Rightarrow> (ChunkType \<times> jstring) list \<Rightarrow> jstring" where
  "chunks t ps = concat (map snd (filter (\<lambda>p. fst p = t) ps))"

definition stream_message :: "Message \<Rightarrow> ChunkType \<times> jstring \<Rightarrow> Message" where
  "stream_message m p = (if snd p = [] then m else stream_update (fst p) (snd p) m)"

lemma stream_events:
  assumes "ch_messages st = msgs @ [m]" and "m_from m = Assistant"
  shows "foldl chat_event st (map (delta_event src) ps) = st\<lparr>ch_messages := msgs @ [foldl stream_message m ps]\<rparr>"
  using assms
proof (induction ps arbitrary: st m)
  case (Cons p ps)
  obtain t c where p: "p = (t, c)" by (cases p)
  have "chat_event st (delta_event src p) = st\<lparr>ch_messages := msgs @ [stream_message m p]\<rparr>"
    using Cons.prems
    by (simp add: p delta_step stream_message_def handleStreamUpdate_def onMessageUpdate_def update_last_snoc)
  moreover have "m_from (stream_message m p) = Assistant"
    using Cons.prems(2) by (simp add: stream_message_def upd.keeps_from)
  ultimately show ?case using Cons.IH [of "st\<lparr>ch_messages := msgs @ [stream_message m p]\<rparr>" "stream_message m p"] by simp
qed simp

lemma current_simps [simp]:
  "getCurrentVersion (m\<lparr>m_reasoning := r\<rparr>) = getCurrentVersion m"
  "getCurrentVersion (m\<lparr>m_isReasoningStreaming := b\<rparr>) = getCurrentVersion m"
  "getCurrentVersion (m\<lparr>m_status := s\<rparr>) = getCurrentVersion m"
  by (simp_all add: getCurrentVersion_def)

abbreviation content_of :: "Message \<Rightarrow> jstring" where
  "content_of m \<equiv> mv_content (getCurrentVersion m)"

lemma stream_message_facts:
  assumes "m_status m \<noteq> Some ERROR"
  shows "content_of (stream_message m p) = content_of m @ (if fst p = ContentChunk then snd p else [])"
    and "m_status (stream_message m p) \<noteq> Some ERROR"
    and "m_status (stream_message m p) = Some STREAMING \<or> stream_message m p = m"
  using assms
  by (auto simp: stream_message_def stream_update_def processStreamingContent_def Let_def
      intro: ChunkType.exhaust [of "fst p"])

lemma stream_content:
  assumes "m_status m \<noteq> Some ERROR"
  shows "content_of (foldl stream_message m ps) = content_of m @ chunks ContentChunk ps \<and>
     m_status (foldl stream_message m ps) \<noteq> Some ERROR"
  using assms
proof (induction ps arbitrary: m)
  case (Cons p ps)
  then show ?case using stream_message_facts [OF Cons.prems, of p] by (simp add: chunks_def)
qed (simp add: chunks_def)

lemma includes_append: "\<not> str_includes (u @ v) p \<Longrightarrow> \<not> str_includes u p"
  by (metis append.assoc str_includes_iff)

lemma parse_no_tag: "\<not> str_includes c THINK_OPEN \<Longrightarrow> parseThinkTags c =
    \<lparr>tp_visibleContent = c, tp_reasoning = [], tp_hasUnclosedTag = False\<rparr>"
  by (simp add: parseThinkTags_def)

lemma stream_reasoning_api:
  assumes "m_status m \<noteq> Some ERROR" and "\<not> str_includes (content_of m @ chunks ContentChunk ps) THINK_OPEN"
  shows "reasoning_text (foldl stream_message m ps) = reasoning_text m @ chunks ReasoningChunk ps"
  using assms
proof (induction ps arbitrary: m)
  case (Cons p ps)
  obtain t c where p: "p = (t, c)" by (cases p)
  note f = stream_message_facts [OF Cons.prems(1), of p]
  have n: "\<not> str_includes (content_of (stream_message m p) @ chunks ContentChunk ps) THINK_OPEN"
    using Cons.prems(2) f(1) by (simp add: chunks_def split: if_splits)
  have "reasoning_text (stream_message m p) = reasoning_text m @ (if t = ReasoningChunk then c else [])"
    using Cons.prems(1) includes_append [OF n] f(1)
    by (cases t) (auto simp: p stream_message_def stream_update_def processStreamingContent_def Let_def
        parse_no_tag reasoning_text_def split: if_splits)
  then show ?case using Cons.IH [OF f(2) n] by (cases t) (simp_all add: p chunks_def)
qed (simp add: chunks_def)

lemma chunks_snoc: "chunks t (ps @ [p]) = chunks t ps @ (if fst p = t then snd p else [])"
  by (simp add: chunks_def)

lemma tag_step:
  assumes "m_status m \<noteq> Some ERROR" and "c \<noteq> []" and "tp_reasoning (parseThinkTags (content_of m @ c)) \<noteq> []"
  shows "reasoning_text (stream_message m (ContentChunk, c)) = tp_reasoning (parseThinkTags (content_of m @ c))"
  using assms
  by (simp add: stream_message_def stream_update_def processStreamingContent_def Let_def reasoning_text_def)

lemma stream_reasoning_tags:
  assumes "m_status m \<noteq> Some ERROR" and "content_of m = []" and "chunks ReasoningChunk ps = []"
    and "tp_reasoning (parseThinkTags (chunks ContentChunk ps)) \<noteq> []"
  shows "reasoning_text (foldl stream_message m ps) = tp_reasoning (parseThinkTags (chunks ContentChunk ps))"
  using assms(3,4)
proof (induction ps rule: rev_induct)
  case Nil
  then show ?case by (simp add: chunks_def parse_no_tag str_includes_def THINK_OPEN_def)
next
  case (snoc p ps)
  obtain t c where p: "p = (t, c)" by (cases p)
  have m: "content_of (foldl stream_message m ps) = chunks ContentChunk ps"
      "m_status (foldl stream_message m ps) \<noteq> Some ERROR"
    using stream_content [OF assms(1)] assms(2) by simp_all
  show ?case
  proof (cases "c = []")
    case True
    then have "stream_message m' p = m'" for m' by (simp add: p stream_message_def)
    then show ?thesis using True snoc by (simp add: p chunks_snoc split: if_splits)
  next
    case False
    then have "t = ContentChunk" using snoc.prems(1) by (cases t) (simp_all add: p chunks_snoc)
    then show ?thesis
      using snoc.prems(2) tag_step [OF m(2) False] by (simp add: p chunks_snoc m(1))
  qed
qed

lemma finalize_facts:
  "content_of (finalizeMessage m r) = tp_visibleContent (parseThinkTags (content_of m))"
  "reasoning_text (finalizeMessage m None) =
     or_str (reasoning_text m) (tp_reasoning (parseThinkTags (content_of m)))"
  by (simp_all add: finalizeMessage_def Let_def reasoning_text_def [of "_\<lparr>m_isReasoningStreaming := _\<rparr>"])

lemma reasoning_status [simp]: "reasoning_text (m\<lparr>m_status := s\<rparr>) = reasoning_text m"
  by (simp add: reasoning_text_def)

lemma done_event:
  assumes "ch_messages st = msgs @ [m]" and "m_from m = Assistant"
  shows "chat_event st (SseMessage src DONE) =
     st\<lparr>ch_complete := True, ch_live := removeAll src (ch_live st), ch_source := None,
        ch_messages := msgs @ [stream_complete m]\<rparr>"
  using assms
  by (simp add: on_message_def handleStreamComplete_def onMessageUpdate_def closeSource_def close_sse_def
      update_last_snoc)

lemma loading_facts:
  "m_from (createLoadingAssistantMessage key vid) = Assistant"
  "m_status (createLoadingAssistantMessage key vid) = Some LOADING"
  "m_key (createLoadingAssistantMessage key vid) = key"
  "content_of (createLoadingAssistantMessage key vid) = []"
  "reasoning_text (createLoadingAssistantMessage key vid) = []"
  by (simp_all add: createLoadingAssistantMessage_def blank_message_def getCurrentVersion_def
      createMessageVersion_def reasoning_text_def)

lemma stream_from_nothing: "foldl stream_message m ps = m \<or> m_status (foldl stream_message m ps) \<in> {Some STREAMING, Some ERROR}"
proof (induction ps rule: rev_induct)
  case (snoc p ps)
  then show ?case by (auto simp: stream_message_def stream_update_def)
qed simp

text \<open>
  C10: A streamed answer arrives as it was sent, however the server cuts it into
  chunks: after the end marker the waiting answer is complete, its text is what the
  tag parser shows of the joined content, nothing is reported to the user and no
  source is left open; reasoning sent in its own field is kept as sent when the
  content has no tag, and reasoning sent in tags is what the parser finds in the
  joined content, when it finds any.
\<close>

theorem stream_delivers:
  assumes "ch_messages st = msgs @ [createLoadingAssistantMessage key vid]"
    and "st' = foldl chat_event st (map (delta_event src) ps @ [SseMessage src DONE])"
  shows "\<exists>m. ch_messages st' = msgs @ [m] \<and> m_status m = Some COMPLETE \<and> m_key m = key \<and>
     content_of m = tp_visibleContent (parseThinkTags (chunks ContentChunk ps)) \<and>
     ch_source st' = None \<and> ch_complete st' \<and> ch_toasts st' = ch_toasts st \<and>
     (\<not> str_includes (chunks ContentChunk ps) THINK_OPEN \<longrightarrow> reasoning_text m = chunks ReasoningChunk ps) \<and>
     (chunks ReasoningChunk ps = [] \<and> tp_reasoning (parseThinkTags (chunks ContentChunk ps)) \<noteq> [] \<longrightarrow>
        reasoning_text m = tp_reasoning (parseThinkTags (chunks ContentChunk ps)))"
proof -
  let ?l = "createLoadingAssistantMessage key vid"
  let ?m = "foldl stream_message ?l ps"
  have fr: "m_from ?m = Assistant \<and> m_key ?m = key"
    by (induction ps rule: rev_induct) (simp_all add: loading_facts stream_message_def upd.keeps_from upd.keeps_key)
  have c: "content_of ?m = chunks ContentChunk ps" "m_status ?m \<noteq> Some ERROR"
    using stream_content [of ?l ps] by (simp_all add: loading_facts)
  have s: "m_status ?m \<noteq> Some COMPLETE"
    using stream_from_nothing [of ?l ps] by (auto simp: loading_facts)
  have st': "st' = st\<lparr>ch_complete := True, ch_live := removeAll src (ch_live st), ch_source := None,
        ch_messages := msgs @ [stream_complete ?m]\<rparr>"
    using assms fr stream_events [OF assms(1), of src ps]
    by (simp add: loading_facts done_event [of _ msgs ?m] del: chat_event.simps)
  have r: "\<not> str_includes (chunks ContentChunk ps) THINK_OPEN \<longrightarrow> reasoning_text ?m = chunks ReasoningChunk ps"
    using stream_reasoning_api [of ?l ps] by (simp add: loading_facts)
  have t: "chunks ReasoningChunk ps = [] \<and> tp_reasoning (parseThinkTags (chunks ContentChunk ps)) \<noteq> [] \<longrightarrow>
        reasoning_text ?m = tp_reasoning (parseThinkTags (chunks ContentChunk ps))"
    using stream_reasoning_tags [of ?l ps] by (simp add: loading_facts)
  show ?thesis
    using c s r t fr
    by (simp add: st' stream_complete_def finalize_facts parse_no_tag) (auto simp: or_str_def parse_no_tag)
qed

definition sample_chat :: Chat where
  "sample_chat = \<lparr>ch_source = Some 0, ch_complete = False, ch_opened = 1, ch_live = [0],
      ch_messages = [] @ [createLoadingAssistantMessage (js ''k'') (js ''v'')], ch_toasts = [], ch_requests = []\<rparr>"

definition sample_chunks :: "(ChunkType \<times> jstring) list" where
  "sample_chunks = [(ContentChunk, js ''<think>hm</th''), (ContentChunk, js ''ink>hi'')]"

theorem stream_delivers_witness:
  "\<exists>m. ch_messages (foldl chat_event sample_chat (map (delta_event 0) sample_chunks @ [SseMessage 0 DONE])) = [m] \<and>
     m_status m = Some COMPLETE \<and> content_of m = js ''hi'' \<and> reasoning_text m = js ''hm''"
proof -
  have c: "ch_messages sample_chat = [] @ [createLoadingAssistantMessage (js ''k'') (js ''v'')]"
    by (simp add: sample_chat_def)
  have p: "chunks ReasoningChunk sample_chunks = []"
      "tp_reasoning (parseThinkTags (chunks ContentChunk sample_chunks)) = js ''hm''"
      "tp_visibleContent (parseThinkTags (chunks ContentChunk sample_chunks)) = js ''hi''"
    by code_simp+
  show ?thesis
    using stream_delivers [OF c refl, of 0 sample_chunks] unfolding p by fastforce
qed

lemma close_no_ws: "list_all (\<lambda>c. \<not> is_ws c) THINK_CLOSE"
  by code_simp

lemma cut_tag_parse:
  assumes "k < 8"
  shows "tp_reasoning (parseThinkTags (THINK_OPEN @ take k THINK_CLOSE)) = take k THINK_CLOSE"
proof -
  have "\<not> str_includes (take k THINK_CLOSE) THINK_CLOSE"
  proof
    assume "str_includes (take k THINK_CLOSE) THINK_CLOSE"
    then obtain u v where "take k THINK_CLOSE = u @ THINK_CLOSE @ v" by (auto simp: str_includes_iff)
    then have "length (take k THINK_CLOSE) = length (u @ THINK_CLOSE @ v)" by simp
    then show False using assms by simp
  qed
  moreover have "\<not> str_includes [] THINK_OPEN" by (simp add: str_includes_def THINK_OPEN_def)
  moreover have "trim (take k THINK_CLOSE) = take k THINK_CLOSE"
    using close_no_ws set_take_subset [of k THINK_CLOSE] by (intro trim_no_ws) (auto simp: list_all_iff)
  ultimately show ?thesis
    using parse_think_text [of "[]" "[]" "Some (take k THINK_CLOSE)"] by (simp add: think_ok_def think_text_def)
qed

lemma empty_thought_parse:
  assumes "\<not> str_includes w THINK_OPEN"
  shows "tp_reasoning (parseThinkTags (THINK_OPEN @ THINK_CLOSE @ w)) = []"
proof -
  have "\<not> str_includes [] THINK_OPEN" "\<not> str_includes [] THINK_CLOSE"
    by (simp_all add: str_includes_def THINK_OPEN_def THINK_CLOSE_def)
  then show ?thesis
    using assms parse_think_text [of "[([], [])]" w None] by (simp add: think_ok_def think_text_def)
qed

text \<open>
  The reasoning shown for an answer depends on how the server cuts it: when an
  empty thought's closing tag is cut in two, the first half of the tag stays as the
  reasoning of the finished answer, although the whole content has none.
\<close>

theorem cut_tag_stays:
  assumes "0 < k" and "k < 8" and "\<not> str_includes w THINK_OPEN"
    and "ch_messages st = msgs @ [createLoadingAssistantMessage key vid]"
    and "st' = foldl chat_event st (map (delta_event src)
      [(ContentChunk, THINK_OPEN @ take k THINK_CLOSE), (ContentChunk, drop k THINK_CLOSE @ w)] @ [SseMessage src DONE])"
  shows "tp_reasoning (parseThinkTags (THINK_OPEN @ THINK_CLOSE @ w)) = [] \<and>
     reasoning_text (last (ch_messages st')) = take k THINK_CLOSE"
proof -
  let ?l = "createLoadingAssistantMessage key vid" and ?a = "THINK_OPEN @ take k THINK_CLOSE"
    and ?b = "drop k THINK_CLOSE @ w"
  let ?m = "stream_message ?l (ContentChunk, ?a)"
  let ?n = "stream_message ?m (ContentChunk, ?b)"
  have p: "tp_reasoning (parseThinkTags ?a) = take k THINK_CLOSE" by (rule cut_tag_parse [OF assms(2)])
  have ab: "?a @ ?b = THINK_OPEN @ THINK_CLOSE @ w"
    by (metis append.assoc append_take_drop_id)
  have q: "tp_reasoning (parseThinkTags (?a @ ?b)) = []"
    unfolding ab using assms(3) by (rule empty_thought_parse)
  have k: "take k THINK_CLOSE \<noteq> []" "?b \<noteq> []" "?a \<noteq> []"
    using assms(1,2) by (auto simp flip: length_greater_0_conv)
  have m: "m_status ?m \<noteq> Some ERROR" "content_of ?m = ?a" "reasoning_text ?m = take k THINK_CLOSE"
    using stream_message_facts [of ?l "(ContentChunk, ?a)"] tag_step [of ?l ?a] p k
    by (simp_all add: loading_facts)
  have n: "content_of ?n = ?a @ ?b" "reasoning_text ?n = take k THINK_CLOSE" "m_status ?n = Some STREAMING"
      "m_from ?n = Assistant"
    using stream_message_facts [OF m(1), of "(ContentChunk, ?b)"] m q k(2)
    by (auto simp: stream_message_def stream_update_def processStreamingContent_def Let_def reasoning_text_def
        loading_facts upd.keeps_from)
  have e: "foldl chat_event st (map (delta_event src) [(ContentChunk, ?a), (ContentChunk, ?b)]) =
      st\<lparr>ch_messages := msgs @ [?n]\<rparr>"
    using stream_events [OF assms(4), of src "[(ContentChunk, ?a), (ContentChunk, ?b)]"] by (simp add: loading_facts)
  have "ch_messages st' = msgs @ [stream_complete ?n]"
    unfolding assms(5) foldl_append e using done_event [of "st\<lparr>ch_messages := msgs @ [?n]\<rparr>" msgs ?n src] n(4) by simp
  then show ?thesis
    using n q k(1) empty_thought_parse [OF assms(3)]
    by (simp add: stream_complete_def finalize_facts or_str_def del: append_assoc)
qed

theorem cut_tag_stays_witness:
  "reasoning_text (last (ch_messages (foldl chat_event sample_chat (map (delta_event 0)
     [(ContentChunk, THINK_OPEN @ take 5 THINK_CLOSE), (ContentChunk, drop 5 THINK_CLOSE @ js ''hi'')] @ [SseMessage 0 DONE])))) =
     js ''</thi''"
proof -
  have c: "ch_messages sample_chat = [] @ [createLoadingAssistantMessage (js ''k'') (js ''v'')]"
    by (simp add: sample_chat_def)
  have w: "\<not> str_includes (js ''hi'') THINK_OPEN" "take 5 THINK_CLOSE = js ''</thi''" by code_simp+
  show ?thesis using cut_tag_stays [OF _ _ w(1) c refl, of 5 0] w(2) by simp
qed

fun late_event :: "sse_event \<Rightarrow> bool" where
  "late_event (SseError src data r) = True"
| "late_event (SseReady src r c) = True"
| "late_event _ = False"

text \<open>
  C36: Once a stream has ended, late error and connection events of any source, in
  any number and order, change nothing.
\<close>

theorem no_error_after_done:
  assumes "list_all late_event es"
  shows "foldl chat_event (on_message src DONE st) es = on_message src DONE st"
proof -
  have d: "ch_complete (on_message src DONE st)"
    by (simp add: on_message_def handleStreamComplete_def onMessageUpdate_def closeSource_def close_sse_def)
  have "chat_event s e = s" if "ch_complete s" "late_event e" for s e
    using that by (cases e)
      (auto simp: on_error_def on_readystatechange_def handleError_def split: prod.splits option.splits)
  then have "ch_complete s \<Longrightarrow> foldl chat_event s es = s" for s
    using assms by (induction es) auto
  then show ?thesis using d by blast
qed

theorem no_error_after_done_witness:
  "foldl chat_event (on_message 0 DONE sample_chat) [SseReady 0 (Some 2) (Some 500), SseError 0 None 1] =
     on_message 0 DONE sample_chat"
  using no_error_after_done [of "[SseReady 0 (Some 2) (Some 500), SseError 0 None 1]" 0 sample_chat] by simp

text \<open>
  Before the end marker every failure counts: an error event followed by the
  connection's change to closed with a status other than 200 is reported twice, and
  the second, general text replaces the first in the answer.
\<close>

theorem error_reported_twice:
  assumes "\<not> ch_complete st" and "ch_messages st = msgs @ [m]" and "m_from m = Assistant"
    and "r \<noteq> 2" and "2 \<le> q" and "code \<noteq> 200"
    and "st' = foldl chat_event st [SseError src data r, SseReady src (Some q) (Some code)]"
  shows "length (ch_toasts st') = length (ch_toasts st) + 2 \<and>
     content_of (last (ch_messages st')) =
       buildSafeErrorMessage (Some (js ''HTTP '' @ nat_str code @ js '': '' @ CONNECTION_CLOSED)) None"
  using assms
  by (simp add: on_error_def on_readystatechange_def handleError_def handleStreamError_def onMessageUpdate_def
      closeSource_def close_sse_def updateAssistantMessageWithError_def update_last_snoc getCurrentVersion_def
      updateCurrentVersionContent_def split: prod.splits)

theorem error_reported_twice_witness:
  "length (ch_toasts (foldl chat_event sample_chat
     [SseError 0 (Some (js ''quota'')) 1, SseReady 0 (Some 2) (Some 403)])) = 2"
  using error_reported_twice [of sample_chat "[]" "createLoadingAssistantMessage (js ''k'') (js ''v'')" 1 2 403 _ 0
      "Some (js ''quota'')", OF _ _ _ _ _ _ refl]
  by (simp add: sample_chat_def loading_facts del: chat_event.simps)

end
