(* ===== verification/PlaygroundPage.thy ===== *)
theory PlaygroundPage
  imports PlaygroundStream
begin

text \<open>
  The playground page: \<open>features/playground/lib/session-storage.ts\<close> (conversations kept
  in IndexedDB) and the handlers of \<open>features/playground/index.tsx\<close>, with the guards that
  \<open>hooks/use-message-action-guard.ts\<close> and the input put in front of them.  The page is a
  transition system; its invariant spans the stream, the messages and the stored
  conversations.
\<close>

subsection \<open>Stored conversations\<close>

record PlaygroundSession =
  se_id :: jstring
  se_title :: jstring
  se_createdAt :: int
  se_updatedAt :: int
  se_messages :: "Message list"

definition MAX_SESSIONS :: nat where
  "MAX_SESSIONS = 6"

text \<open>
  The object store, in the order of its key path \<open>id\<close>: keys are compared by code units.
  A request or a transaction may fail; a failed transaction changes nothing.
\<close>

type_synonym session_store = "PlaygroundSession list"

fun str_less :: "jstring \<Rightarrow> jstring \<Rightarrow> bool" where
  "str_less _ [] = False"
| "str_less [] (y # ys) = True"
| "str_less (x # xs) (y # ys) = (x < y \<or> x = y \<and> str_less xs ys)"

fun store_put :: "PlaygroundSession \<Rightarrow> session_store \<Rightarrow> session_store" where
  "store_put s [] = [s]"
| "store_put s (t # ts) =
     (if se_id s = se_id t then s # ts
      else if str_less (se_id s) (se_id t) then s # t # ts
      else t # store_put s ts)"

definition store_delete :: "jstring \<Rightarrow> session_store \<Rightarrow> session_store" where
  "store_delete i st = filter (\<lambda>s. se_id s \<noteq> i) st"

datatype idb_fault = NoFault | OpenFails | PutFails | ReadFails | DeleteFails

datatype idb_exn = IDBError

definition newest_first :: "PlaygroundSession \<Rightarrow> PlaygroundSession \<Rightarrow> bool" where
  "newest_first left right \<longleftrightarrow> se_updatedAt right \<le> se_updatedAt left"

definition getAllSessions :: "session_store \<Rightarrow> PlaygroundSession list" where
  "getAllSessions st =
     sort_by newest_first
       (map (\<lambda>session. session\<lparr>se_messages := sanitizeMessagesOnLoad (se_messages session)\<rparr>) st)"

definition loadPlaygroundSessions :: "idb_fault \<Rightarrow> session_store \<Rightarrow> idb_exn + PlaygroundSession list" where
  "loadPlaygroundSessions f st =
     (if f = OpenFails \<or> f = ReadFails then Inl IDBError else Inr (getAllSessions st))"

definition savePlaygroundSession ::
  "idb_fault \<Rightarrow> PlaygroundSession \<Rightarrow> session_store \<Rightarrow> (idb_exn + PlaygroundSession list) \<times> session_store" where
  "savePlaygroundSession f session st =
     (if f = OpenFails \<or> f = PutFails then (Inl IDBError, st)
      else
        (let st1 = store_put session st in
         if f = ReadFails then (Inl IDBError, st1)
         else
           (let sessions = getAllSessions st1; expired = drop MAX_SESSIONS sessions in
            if length expired > 0 \<and> f = DeleteFails then (Inl IDBError, st1)
            else (Inr (take MAX_SESSIONS sessions), foldl (\<lambda>st item. store_delete (se_id item) st) st1 expired))))"

definition deletePlaygroundSession ::
  "idb_fault \<Rightarrow> jstring \<Rightarrow> session_store \<Rightarrow> (idb_exn + PlaygroundSession list) \<times> session_store" where
  "deletePlaygroundSession f sessionId st =
     (if f = OpenFails \<or> f = DeleteFails then (Inl IDBError, st)
      else
        (let st1 = store_delete sessionId st in
         if f = ReadFails then (Inl IDBError, st1) else (Inr (getAllSessions st1), st1)))"

subsection \<open>Page handlers\<close>

text \<open>\<open>cfg\<close> and \<open>pe\<close> are the settings; keys, version ids and the clock are arguments, as is
  whether the browser accepts a write (\<open>ok\<close>).\<close>

type_synonym ids = "jstring \<times> jstring"

definition loading :: "ids \<Rightarrow> Message" where
  "loading i = createLoadingAssistantMessage (fst i) (snd i)"

record Page =
  pg_chat :: Chat
  pg_sessions :: "PlaygroundSession list"
  pg_store :: session_store
  pg_active :: jstring
  pg_createdAt :: int
  pg_editing :: "jstring option"
  pg_mobileHistoryOpen :: bool
  pg_ready :: bool
  pg_storage :: storage

definition set_messages :: "Message list \<Rightarrow> Page \<Rightarrow> Page" where
  "set_messages msgs p = p\<lparr>pg_chat := (pg_chat p)\<lparr>ch_messages := msgs\<rparr>\<rparr>"

definition pg_messages :: "Page \<Rightarrow> Message list" where
  "pg_messages p = ch_messages (pg_chat p)"

definition isGenerating :: "Page \<Rightarrow> bool" where
  "isGenerating p = isStreaming (pg_chat p)"

definition send_page :: "bool \<Rightarrow> Message list \<Rightarrow> jsval \<Rightarrow> jsval \<Rightarrow> bool \<Rightarrow> Page \<Rightarrow> Page" where
  "send_page started msgs cfg pe webSearch p =
     (let q = set_messages msgs p in
      q\<lparr>pg_chat := sendChat started msgs cfg pe webSearch (pg_chat q)\<rparr>)"

definition handleSendMessage ::
  "bool \<Rightarrow> jsval \<Rightarrow> jsval \<Rightarrow> ids \<Rightarrow> ids \<Rightarrow> jstring \<Rightarrow> PlaygroundAttachment list \<Rightarrow> bool \<Rightarrow> Page \<Rightarrow> Page" where
  "handleSendMessage started cfg pe i j t attachments webSearch p =
     (let userMessage = createUserMessage (fst i) (snd i) t attachments;
          assistantMessage = loading j in
      send_page started (pg_messages p @ [userMessage, assistantMessage]) cfg pe webSearch p)"

fun findIndex :: "('a \<Rightarrow> bool) \<Rightarrow> 'a list \<Rightarrow> nat option" where
  "findIndex P [] = None"
| "findIndex P (x # xs) = (if P x then Some 0 else map_option Suc (findIndex P xs))"

definition handleRegenerateMessage ::
  "bool \<Rightarrow> jsval \<Rightarrow> jsval \<Rightarrow> ids \<Rightarrow> jstring \<Rightarrow> Page \<Rightarrow> Page" where
  "handleRegenerateMessage started cfg pe j key p =
     (case findIndex (\<lambda>m. m_key m = key) (pg_messages p) of
        None \<Rightarrow> p
      | Some messageIndex \<Rightarrow>
          send_page started (take messageIndex (pg_messages p) @ [loading j]) cfg pe False p)"

definition handleEditMessage :: "jstring \<Rightarrow> Page \<Rightarrow> Page" where
  "handleEditMessage key p = p\<lparr>pg_editing := Some key\<rparr>"

definition edit_message :: "jstring \<Rightarrow> jstring \<Rightarrow> Message \<Rightarrow> Message" where
  "edit_message key newContent m =
     (if m_key m = key
      then m\<lparr>m_versions := [\<lparr>mv_id = (case m_versions m of [] \<Rightarrow> None | v # _ \<Rightarrow> mv_id v), mv_content = newContent\<rparr>]\<rparr>
      else m)"

definition applyEdit :: "bool \<Rightarrow> jsval \<Rightarrow> jsval \<Rightarrow> ids \<Rightarrow> jstring \<Rightarrow> bool \<Rightarrow> Page \<Rightarrow> Page" where
  "applyEdit started cfg pe j newContent submit p =
     (case pg_editing p of
        None \<Rightarrow> p
      | Some key \<Rightarrow>
          if key = [] then p
          else
            (case findIndex (\<lambda>m. m_key m = key) (pg_messages p) of
               None \<Rightarrow> p
             | Some index \<Rightarrow>
                 (let updated = map (edit_message key newContent) (pg_messages p);
                      q = p\<lparr>pg_editing := None\<rparr> in
                  if \<not> submit \<or> m_from (updated ! index) \<noteq> User then set_messages updated q
                  else send_page started (take (index + 1) updated @ [loading j]) cfg pe False q)))"

definition handleDeleteMessage :: "jstring \<Rightarrow> Page \<Rightarrow> Page" where
  "handleDeleteMessage key p = set_messages (filter (\<lambda>m. m_key m \<noteq> key) (pg_messages p)) p"

definition stop_page :: "Page \<Rightarrow> Page" where
  "stop_page p = p\<lparr>pg_chat := stopGeneration (pg_chat p)\<rparr>"

definition clear_page :: "bool \<Rightarrow> Page \<Rightarrow> Page" where
  "clear_page ok p =
     (set_messages [] p)\<lparr>pg_storage := save_json ok MESSAGES_KEY (Arr []) (pg_storage p)\<rparr>"

definition handleNewChat :: "bool \<Rightarrow> jstring \<Rightarrow> int \<Rightarrow> Page \<Rightarrow> Page" where
  "handleNewChat ok newId now p =
     (let q = (if isGenerating p then stop_page p else p) in
      (clear_page ok (q\<lparr>pg_editing := None\<rparr>))
        \<lparr>pg_active := newId, pg_createdAt := now, pg_mobileHistoryOpen := False\<rparr>)"

definition handleSelectSession :: "PlaygroundSession \<Rightarrow> Page \<Rightarrow> Page" where
  "handleSelectSession session p =
     (if se_id session = pg_active p then p
      else
        (let q = (if isGenerating p then stop_page p else p) in
         (set_messages (se_messages session) (q\<lparr>pg_editing := None\<rparr>))
           \<lparr>pg_active := se_id session, pg_createdAt := se_createdAt session, pg_mobileHistoryOpen := False\<rparr>))"

definition add_toast :: "jstring \<Rightarrow> Page \<Rightarrow> Page" where
  "add_toast t p = p\<lparr>pg_chat := (pg_chat p)\<lparr>ch_toasts := ch_toasts (pg_chat p) @ [t]\<rparr>\<rparr>"

text \<open>\<open>notice\<close> stands for the fixed Thai text of the notice.\<close>

definition handleDeleteSession :: "idb_fault \<Rightarrow> bool \<Rightarrow> jstring \<Rightarrow> jstring \<Rightarrow> jstring \<Rightarrow> int \<Rightarrow> Page \<Rightarrow> Page" where
  "handleDeleteSession f ok notice sessionId newId now p =
     (if isGenerating p then p
      else
        (case deletePlaygroundSession f sessionId (pg_store p) of
           (Inl e, st) \<Rightarrow> add_toast notice (p\<lparr>pg_store := st\<rparr>)
         | (Inr items, st) \<Rightarrow>
             (let q = p\<lparr>pg_store := st, pg_sessions := items\<rparr> in
              if sessionId = pg_active p then handleNewChat ok newId now q else q)))"

definition NEW_TITLE :: jstring where
  "NEW_TITLE = [3610, 3607, 3626, 3609, 3607, 3609, 3634, 3651, 3627, 3617, 3656]"

definition session_title :: "Message list \<Rightarrow> jstring" where
  "session_title msgs =
     (case find (\<lambda>m. m_from m = User) msgs of
        None \<Rightarrow> NEW_TITLE
      | Some m \<Rightarrow>
          or_str (or_str (case m_versions m of [] \<Rightarrow> [] | v # _ \<Rightarrow> take 42 (trim (mv_content v)))
                   (case m_attachments m of Some (a # _) \<Rightarrow> at_filename a | _ \<Rightarrow> []))
            NEW_TITLE)"

text \<open>The effect that stores the conversation a moment after its messages changed.\<close>

definition autosave :: "idb_fault \<Rightarrow> jstring \<Rightarrow> int \<Rightarrow> Page \<Rightarrow> Page" where
  "autosave f notice now p =
     (if \<not> pg_ready p \<or> length (pg_messages p) = 0 then p
      else
        (let session = \<lparr>se_id = pg_active p, se_title = session_title (pg_messages p),
               se_createdAt = pg_createdAt p, se_updatedAt = now, se_messages = pg_messages p\<rparr> in
         case savePlaygroundSession f session (pg_store p) of
           (Inl e, st) \<Rightarrow> add_toast notice (p\<lparr>pg_store := st\<rparr>)
         | (Inr items, st) \<Rightarrow> p\<lparr>pg_store := st, pg_sessions := items\<rparr>))"

text \<open>\<open>guardAction\<close>: an action on a message is refused with a warning while an answer is generated.\<close>

definition WAIT_GENERATION :: jstring where
  "WAIT_GENERATION = js ''Please wait for the current generation to complete''"

definition guardAction :: "(Page \<Rightarrow> Page) \<Rightarrow> Page \<Rightarrow> Page" where
  "guardAction action p = (if isGenerating p then add_toast WAIT_GENERATION p else action p)"

subsection \<open>The input\<close>

text \<open>\<open>components/playground-input.tsx\<close>: the form is inert while an answer is generated, the
  suggestions under it are not.\<close>

record FileUIPart =
  fu_url :: "jstring option"
  fu_filename :: "jstring option"
  fu_mediaType :: "jstring option"

definition ATTACHMENT :: jstring where
  "ATTACHMENT = [3652, 3615, 3621, 3660, 3649, 3609, 3610]"

definition toPlaygroundAttachment :: "nat \<Rightarrow> FileUIPart \<Rightarrow> nat \<Rightarrow> PlaygroundAttachment option" where
  "toPlaygroundAttachment now file index =
     (if \<not> truthy_opt (fu_url file) then None
      else Some \<lparr>at_id = nat_str now @ js ''-'' @ nat_str index,
        at_filename = or_str (opt_str (fu_filename file)) (ATTACHMENT @ js ''-'' @ nat_str (index + 1)),
        at_mediaType = or_str (opt_str (fu_mediaType file)) (js ''application/octet-stream''),
        at_dataUrl = opt_str (fu_url file)\<rparr>)"

definition file_attachments :: "nat \<Rightarrow> FileUIPart list \<Rightarrow> PlaygroundAttachment list" where
  "file_attachments now files =
     List.map_filter (\<lambda>(i, f). toPlaygroundAttachment now f i) (enumerate 0 files)"

text \<open>\<open>fallback\<close> stands for the fixed Thai text that asks to analyse the files.\<close>

definition handleSubmit ::
  "bool \<Rightarrow> jsval \<Rightarrow> jsval \<Rightarrow> ids \<Rightarrow> ids \<Rightarrow> nat \<Rightarrow> jstring \<Rightarrow> jstring option \<Rightarrow> FileUIPart list \<Rightarrow> bool \<Rightarrow> Page \<Rightarrow> Page" where
  "handleSubmit started cfg pe i j now fallback t files webSearchEnabled p =
     (if trim (opt_str t) = [] \<and> files = [] \<or> isGenerating p then p
      else handleSendMessage started cfg pe i j (or_str (trim (opt_str t)) fallback)
             (file_attachments now files) webSearchEnabled p)"

definition handleSuggestionClick :: "bool \<Rightarrow> jsval \<Rightarrow> jsval \<Rightarrow> ids \<Rightarrow> ids \<Rightarrow> jstring \<Rightarrow> Page \<Rightarrow> Page" where
  "handleSuggestionClick started cfg pe i j suggestion = handleSendMessage started cfg pe i j suggestion [] False"

text \<open>The page as it is opened, and the effect that loads the conversations.\<close>

definition open_page :: "session_store \<Rightarrow> storage \<Rightarrow> jstring \<Rightarrow> int \<Rightarrow> Page" where
  "open_page st s newId now =
     \<lparr>pg_chat = \<lparr>ch_source = None, ch_complete = False, ch_opened = 0, ch_live = [],
        ch_messages = ps_messages (usePlaygroundState s), ch_toasts = [], ch_requests = []\<rparr>,
      pg_sessions = [], pg_store = st, pg_active = newId, pg_createdAt = now, pg_editing = None,
      pg_mobileHistoryOpen = False, pg_ready = False, pg_storage = s\<rparr>"

definition load_sessions :: "idb_fault \<Rightarrow> jstring \<Rightarrow> Page \<Rightarrow> Page" where
  "load_sessions f notice p =
     (case loadPlaygroundSessions f (pg_store p) of
        Inl e \<Rightarrow> (add_toast notice p)\<lparr>pg_ready := True\<rparr>
      | Inr items \<Rightarrow> p\<lparr>pg_sessions := items, pg_ready := True\<rparr>)"


subsection \<open>Sessions are bounded\<close>

lemma str_less_irrefl: "\<not> str_less x x"
  by (induction x) auto

lemma str_less_trans: "str_less x y \<Longrightarrow> str_less y z \<Longrightarrow> str_less x z"
proof (induction x z arbitrary: y rule: str_less.induct)
  case (2 z zs)
  then show ?case by simp
next
  case (3 x xs z zs)
  then show ?case by (cases y) auto
qed simp

lemma str_less_total: "x \<noteq> y \<Longrightarrow> \<not> str_less x y \<Longrightarrow> str_less y x"
  by (induction x y rule: str_less.induct) (auto simp: neq_Nil_conv)

text \<open>The object store has one entry per id, in key order.\<close>

definition store_ok :: "session_store \<Rightarrow> bool" where
  "store_ok st \<longleftrightarrow> sorted_wrt (\<lambda>s t. str_less (se_id s) (se_id t)) st"

lemma store_ok_distinct: "store_ok st \<Longrightarrow> distinct (map se_id st)"
  by (induction st) (auto simp: store_ok_def str_less_irrefl)

lemma store_put_ids: "se_id ` set (store_put s st) = insert (se_id s) (se_id ` set st)"
  by (induction s st rule: store_put.induct) auto

lemma store_put_ok: "store_ok st \<Longrightarrow> store_ok (store_put s st)"
proof (induction s st rule: store_put.induct)
  case (2 s t ts)
  show ?case
  proof (cases "se_id s = se_id t \<or> str_less (se_id s) (se_id t)")
    case True
    then show ?thesis using 2(2) by (auto simp: store_ok_def intro: str_less_trans)
  next
    case False
    then have "str_less (se_id t) (se_id s)" using str_less_total by blast
    then have "\<forall>u \<in> set (store_put s ts). str_less (se_id t) (se_id u)"
      using 2(2) store_put_ids [of s ts] by (auto simp: store_ok_def) (metis image_iff insert_iff)
    then show ?thesis using 2 False by (auto simp: store_ok_def)
  qed
qed (simp add: store_ok_def)

lemma store_filter_ok: "store_ok st \<Longrightarrow> store_ok (filter P st)"
  by (simp add: store_ok_def sorted_wrt_filter)

lemma delete_all:
  "foldl (\<lambda>st item. store_delete (se_id item) st) st xs = filter (\<lambda>s. se_id s \<notin> se_id ` set xs) st"
  by (induction xs arbitrary: st) (auto simp: store_delete_def filter_filter intro!: filter_cong)

abbreviation san :: "PlaygroundSession \<Rightarrow> PlaygroundSession" where
  "san s \<equiv> s\<lparr>se_messages := sanitizeMessagesOnLoad (se_messages s)\<rparr>"

lemma newest_first_order: "newest_first a b \<or> newest_first b a" "newest_first a b \<Longrightarrow> newest_first b c \<Longrightarrow> newest_first a c"
  by (auto simp: newest_first_def)

lemma getAll_filter:
  "getAllSessions (filter (\<lambda>s. P (se_id s)) st) = filter (\<lambda>s. P (se_id s)) (getAllSessions st)"
  unfolding getAllSessions_def
  by (subst sort_by_filter [of newest_first]) (use newest_first_order in \<open>auto simp: filter_map comp_def\<close>)

lemma getAll_distinct: "store_ok st \<Longrightarrow> distinct (map se_id (getAllSessions st))"
proof -
  assume "store_ok st"
  then have d: "distinct (map se_id st)" by (rule store_ok_distinct)
  have "mset (map se_id (getAllSessions st)) = mset (map se_id (map san st))"
    by (simp only: getAllSessions_def mset_map mset_sort_by)
  also have "map se_id (map san st) = map se_id st" by simp
  finally show ?thesis using d mset_eq_imp_distinct_iff by blast
qed

lemma filter_not_dropped:
  "distinct (map f xs) \<Longrightarrow> filter (\<lambda>x. f x \<notin> f ` set (drop n xs)) xs = take n xs"
proof -
  assume d: "distinct (map f xs)"
  let ?P = "\<lambda>x. f x \<notin> f ` set (drop n xs)"
  have "distinct (map f (take n xs @ drop n xs))" using d by simp
  then have "filter ?P (take n xs) = take n xs"
    by (subst filter_id_conv) (auto simp del: append_take_drop_id)
  moreover have "filter ?P (drop n xs) = []" by (auto simp: filter_empty_conv)
  ultimately show ?thesis by (metis append_Nil2 append_take_drop_id filter_append)
qed


lemma getAll_length [simp]: "length (getAllSessions st) = length st"
  by (simp add: getAllSessions_def)

lemma getAll_sorted: "sorted_wrt newest_first (getAllSessions st)"
  unfolding getAllSessions_def by (rule sorted_sort_by) (use newest_first_order in auto)

lemma getAll_san: "set (getAllSessions st) = san ` set st"
  by (simp add: getAllSessions_def)

lemma save_store:
  assumes "store_ok st"
  shows "snd (savePlaygroundSession NoFault session st) =
       filter (\<lambda>s. se_id s \<notin> se_id ` set (drop MAX_SESSIONS (getAllSessions (store_put session st)))) (store_put session st)"
    and "fst (savePlaygroundSession NoFault session st) = Inr (getAllSessions (snd (savePlaygroundSession NoFault session st)))"
proof -
  let ?p = "store_put session st"
  let ?g = "getAllSessions ?p"
  show s: "snd (savePlaygroundSession NoFault session st) =
       filter (\<lambda>s. se_id s \<notin> se_id ` set (drop MAX_SESSIONS ?g)) ?p"
    by (simp add: savePlaygroundSession_def Let_def delete_all)
  have "getAllSessions (filter (\<lambda>s. se_id s \<notin> se_id ` set (drop MAX_SESSIONS ?g)) ?p) = take MAX_SESSIONS ?g"
    using filter_not_dropped [of se_id ?g MAX_SESSIONS] getAll_distinct [OF store_put_ok [OF assms], of session]
      getAll_filter [of "\<lambda>i. i \<notin> se_id ` set (drop MAX_SESSIONS ?g)" ?p] by simp
  then show "fst (savePlaygroundSession NoFault session st) = Inr (getAllSessions (snd (savePlaygroundSession NoFault session st)))"
    unfolding s by (simp add: savePlaygroundSession_def Let_def)
qed

text \<open>What is to be stored: the new conversation and the others with another id.\<close>

lemma store_put_elems:
  assumes "store_ok st"
  shows "set (store_put s st) = insert s {t \<in> set st. se_id t \<noteq> se_id s}"
  using assms
proof (induction s st rule: store_put.induct)
  case (2 s t ts)
  have t: "store_ok ts" "\<And>x. x \<in> set ts \<Longrightarrow> str_less (se_id t) (se_id x)" using "2.prems" by (auto simp: store_ok_def)
  have n: "se_id x \<noteq> se_id t" if "x \<in> set ts" for x using t(2) [OF that] str_less_irrefl by metis
  have l: "se_id x \<noteq> se_id s" if "str_less (se_id s) (se_id t)" "x \<in> set ts" for x
    using str_less_trans [OF that(1) t(2) [OF that(2)]] str_less_irrefl by metis
  show ?case using "2.IH" t(1) n l by auto
qed simp

lemma set_card: "distinct (map f xs) \<Longrightarrow> card (set xs) = length xs"
  by (simp add: distinct_card distinct_map)

text \<open>
  C30: Storing a conversation replaces the one with its id and keeps the others, up to
  six: the object store has one entry per id in key order, all the conversations when
  there are at most six and exactly six otherwise, none that is thrown away is newer
  than one that stays, and the list that is returned is what a reload would show.
\<close>

theorem save_keeps_newest:
  assumes "store_ok st" and "savePlaygroundSession NoFault session st = (r, st')"
    and "all = insert session {t \<in> set st. se_id t \<noteq> se_id session}"
  shows "store_ok st' \<and> set st' \<subseteq> all \<and> length st' = min 6 (card all) \<and> r = Inr (getAllSessions st') \<and>
     (\<forall>d k. d \<in> all \<and> d \<notin> set st' \<and> k \<in> set st' \<longrightarrow> se_updatedAt d \<le> se_updatedAt k)"
proof -
  let ?p = "store_put session st"
  let ?g = "getAllSessions ?p"
  have p: "set ?p = all" "store_ok ?p" "distinct (map se_id ?p)"
    using store_put_elems [OF assms(1)] assms(3) store_put_ok [OF assms(1)] store_ok_distinct by auto
  have st': "st' = filter (\<lambda>s. se_id s \<notin> se_id ` set (drop MAX_SESSIONS ?g)) ?p"
    using save_store(1) [OF assms(1), of session] assms(2) by simp
  have r: "r = Inr (getAllSessions st')"
    using save_store(2) [OF assms(1), of session] assms(2) by simp
  have "r = Inr (take MAX_SESSIONS ?g)" using assms(2) by (auto simp: savePlaygroundSession_def Let_def)
  then have g: "getAllSessions st' = take MAX_SESSIONS ?g" using r by simp
  have "length st' = min 6 (length ?p)"
    using arg_cong [OF g, of length] getAll_length [of st'] getAll_length [of ?p] by (simp add: MAX_SESSIONS_def min.commute)
  then have l: "length st' = min 6 (card all)" using set_card [OF p(3)] p(1) by simp
  have n: "se_updatedAt d \<le> se_updatedAt k" if m: "d \<in> set ?p" "d \<notin> set st'" "k \<in> set st'" for d k
  proof -
    have k: "san k \<in> set (take MAX_SESSIONS ?g)" using m(3) getAll_san [of st'] by (simp add: g [symmetric])
    obtain e where e: "e \<in> set (drop MAX_SESSIONS ?g)" "se_id e = se_id d" using m(1,2) by (auto simp: st')
    then obtain d' where d': "d' \<in> set ?p" "e = san d'" using getAll_san [of ?p] in_set_dropD [OF e(1)] by auto
    then have "d' = d" using e(2) m(1) p(3) by (simp add: distinct_map inj_on_def)
    moreover have "sorted_wrt newest_first (take MAX_SESSIONS ?g @ drop MAX_SESSIONS ?g)" using getAll_sorted by simp
    ultimately have "newest_first (san k) (san d)" using k e(1) d'(2) unfolding sorted_wrt_append by blast
    then show ?thesis by (simp add: newest_first_def)
  qed
  show ?thesis using l r n p st' by (auto simp: store_filter_ok)
qed

definition sample_session :: "nat \<Rightarrow> PlaygroundSession" where
  "sample_session n = \<lparr>se_id = nat_str n, se_title = [], se_createdAt = 0, se_updatedAt = int n, se_messages = []\<rparr>"

theorem save_keeps_newest_witness:
  "\<exists>r st'. savePlaygroundSession NoFault (sample_session 7) (map sample_session [1..<7]) = (r, st') \<and>
     length st' = 6 \<and> r = Inr (getAllSessions st') \<and> sample_session 1 \<notin> set st' \<and>
     (\<forall>k. k \<in> set st' \<longrightarrow> se_updatedAt (sample_session 1) \<le> se_updatedAt k)"
proof -
  let ?st = "map sample_session [1..<7]"
  let ?all = "insert (sample_session 7) {t \<in> set ?st. se_id t \<noteq> se_id (sample_session 7)}"
  have s: "store_ok ?st" by code_simp
  have "savePlaygroundSession NoFault (sample_session 7) ?st =
      (fst (savePlaygroundSession NoFault (sample_session 7) ?st), map sample_session [2..<8])" by code_simp
  then obtain r where sv: "savePlaygroundSession NoFault (sample_session 7) ?st = (r, map sample_session [2..<8])" by metis
  have d: "sample_session 1 \<in> ?all"
    by (simp add: sample_session_def)
  have o: "sample_session 1 \<notin> set (map sample_session [2..<8])" by (auto simp: sample_session_def)
  show ?thesis using save_keeps_newest [OF s sv refl] d o sv by auto
qed

end
