(* ===== verification/PlaygroundSystem.thy ===== *)
theory PlaygroundSystem
  imports PlaygroundPage
begin

text \<open>
  The playground as one transition system: the page handlers, the events of the
  stream and the effects that load and store conversations, in any order.  The
  invariant spans the open source, the messages, the list of conversations and the
  object store.
\<close>

subsection \<open>Steps\<close>





subsection \<open>Invariant of the chat\<close>

definition settled :: "Message list \<Rightarrow> bool" where
  "settled msgs \<longleftrightarrow> list_all (\<lambda>m. \<not> stuck m) msgs"

definition chat_inv :: "Chat \<Rightarrow> bool" where
  "chat_inv st \<longleftrightarrow>
     settled (butlast (ch_messages st)) \<and> (ch_source st = None \<longrightarrow> settled (ch_messages st)) \<and>
     ch_live st = (case ch_source st of None \<Rightarrow> [] | Some s \<Rightarrow> [s]) \<and> (ch_source st \<noteq> None \<longrightarrow> \<not> ch_complete st)"

lemma settled_simps [simp]:
  "settled []" "settled (m # xs) = (\<not> stuck m \<and> settled xs)" "settled (xs @ ys) = (settled xs \<and> settled ys)"
  by (simp_all add: settled_def)









lemma chat_simps [simp]:
  "ch_source (onMessageUpdate f st) = ch_source st" "ch_live (onMessageUpdate f st) = ch_live st"
  "ch_complete (onMessageUpdate f st) = ch_complete st" "ch_opened (onMessageUpdate f st) = ch_opened st"
  "ch_source (apply_delta d st) = ch_source st" "ch_live (apply_delta d st) = ch_live st"
  "ch_complete (apply_delta d st) = ch_complete st"
  by (simp_all add: onMessageUpdate_def apply_delta_def handleStreamUpdate_def Let_def)






subsection \<open>Invariant of the page\<close>

definition page_inv :: "Page \<Rightarrow> bool" where
  "page_inv p \<longleftrightarrow>
     chat_inv (pg_chat p) \<and> list_all (\<lambda>s. settled (se_messages s)) (pg_sessions p) \<and>
     store_ok (pg_store p) \<and> list_all (\<lambda>s. length (filter stuck (se_messages s)) \<le> 1) (pg_store p)"





lemmas page_chat_simps [simp] = set_messages_def stop_page_def add_toast_def isGenerating_def isStreaming_def pg_messages_def


lemma chat_inv_toast [simp]: "chat_inv (st\<lparr>ch_toasts := ts\<rparr>) = chat_inv st"
  by (simp add: chat_inv_def)









lemma editing_inv [simp]: "page_inv (p\<lparr>pg_editing := e\<rparr>) = page_inv p"
  by (simp add: page_inv_def)

lemma stuck_edit [simp]: "stuck (edit_message key c m) = stuck m"
  by (simp add: edit_message_def stuck_def)

lemma settled_edit [simp]: "settled (map (edit_message key c) xs) = settled xs"
  by (simp add: settled_def list.pred_map comp_def)




















subsection \<open>What every run keeps\<close>

text \<open>Also when an answer was interrupted by another: the current source is open and the store is in order.\<close>

definition open_inv_chat :: "Chat \<Rightarrow> bool" where
  "open_inv_chat st \<longleftrightarrow> (\<forall>s. ch_source st = Some s \<longrightarrow> s \<in> set (ch_live st))"

definition loose_inv :: "Page \<Rightarrow> bool" where
  "loose_inv p \<longleftrightarrow> open_inv_chat (pg_chat p) \<and> store_ok (pg_store p)"




lemma loose_simps [simp]:
  "loose_inv (p\<lparr>pg_editing := e\<rparr>) = loose_inv p" "loose_inv (p\<lparr>pg_active := i\<rparr>) = loose_inv p"
  "loose_inv (p\<lparr>pg_createdAt := n\<rparr>) = loose_inv p" "loose_inv (p\<lparr>pg_mobileHistoryOpen := b\<rparr>) = loose_inv p"
  "loose_inv (p\<lparr>pg_storage := st\<rparr>) = loose_inv p" "loose_inv (set_messages xs p) = loose_inv p"
  "loose_inv (add_toast t p) = loose_inv p" "loose_inv (p\<lparr>pg_sessions := l\<rparr>) = loose_inv p"
  "loose_inv (p\<lparr>pg_ready := b\<rparr>) = loose_inv p"
  by (simp_all add: loose_inv_def open_inv_chat_def)









subsection \<open>Properties of the system\<close>


definition stream_cfg :: jsval where
  "stream_cfg = Obj [(js ''stream'', Bool True)]"

lemma stream_cfg_on: "truthy (get_prop stream_cfg (js ''stream''))"
  by (simp add: stream_cfg_def get_prop_def)

definition sample_open :: Page where
  "sample_open = open_page [] Map.empty (js ''a'') 0"

definition sample_sent :: Page where
  "sample_sent = handleSuggestionClick True stream_cfg (Obj []) (js ''u'', js ''1'') (js ''k'', js ''2'') (js ''hi'') sample_open"


lemma sample_sent_simps:
  "pg_messages sample_sent =
     [createUserMessage (js ''u'') (js ''1'') (js ''hi'') [], createLoadingAssistantMessage (js ''k'') (js ''2'')]"
  "ch_source (pg_chat sample_sent) = Some 0" "ch_live (pg_chat sample_sent) = [0]"
  using stream_cfg_on
  by (simp_all add: sample_sent_def handleSuggestionClick_def handleSendMessage_def send_page_def sendChat_def
      sendStreamingChat_def sendStreamRequest_def Let_def loading_def sample_open_def open_page_def usePlaygroundState_def)






lemma frame_nth: "same_frame old new \<Longrightarrow> i < length old - 1 \<Longrightarrow> new ! i = old ! i"
  using nth_butlast [of i old] nth_butlast [of i new] by (simp add: same_frame_def)

text \<open>
  C37: A suggestion clicked while an answer is streamed opens a second source beside
  the first: a chunk that the first source sends then is appended to the new answer,
  and the answer that was streamed waits for ever, whatever events follow.
\<close>

theorem suggestion_mixes_answers:
  assumes "truthy (get_prop cfg (js ''stream''))" and "ch_live (pg_chat p) = [s]"
    and "pg_messages p = msgs @ [m]" and "stuck m" and "c \<noteq> []"
    and "q = handleSuggestionClick True cfg pe i j t p"
  shows "ch_live (pg_chat q) = [ch_opened (pg_chat p), s] \<and>
     ch_messages (chat_event (pg_chat q) (delta_event s (ContentChunk, c))) =
       msgs @ [m, createUserMessage (fst i) (snd i) t [], stream_update ContentChunk c (loading j)] \<and>
     stuck (ch_messages (foldl chat_event (pg_chat q) es) ! length msgs)"
proof -
  have q: "ch_messages (pg_chat q) = (msgs @ [m, createUserMessage (fst i) (snd i) t []]) @ [loading j]"
    "ch_live (pg_chat q) = [ch_opened (pg_chat p), s]"
    using assms by (simp_all add: handleSuggestionClick_def handleSendMessage_def send_page_def sendChat_def
        sendStreamingChat_def sendStreamRequest_def Let_def)
  have "ch_messages (foldl chat_event (pg_chat q) es) ! length msgs = ch_messages (pg_chat q) ! length msgs"
    by (rule frame_nth [OF events_frame]) (simp add: q)
  moreover have "m_from (loading j) = Assistant" by (simp add: loading_def loading_facts)
  ultimately show ?thesis
    using assms(4,5) q
    by (simp add: delta_step handleStreamUpdate_def del: append_assoc chat_event.simps append.simps(2))
       (simp add: update_last_snoc del: append_assoc append.simps(2), simp)
qed

theorem suggestion_mixes_answers_witness:
  "content_of (last (ch_messages (chat_event (pg_chat (handleSuggestionClick True stream_cfg (Obj [])
     (js ''w'', js ''3'') (js ''l'', js ''4'') (js ''yo'') sample_sent)) (delta_event 0 (ContentChunk, js ''old''))))) = js ''old''"
proof -
  have "stuck (createLoadingAssistantMessage (js ''k'') (js ''2''))" by (simp add: stuck_def loading_facts)
  note s = suggestion_mixes_answers [OF stream_cfg_on sample_sent_simps(3), of "[createUserMessage (js ''u'') (js ''1'') (js ''hi'') []]",
      OF _ this, of "js ''old''", OF _ _ refl]
  have "content_of (stream_update ContentChunk (js ''old'') (loading (js ''l'', js ''4''))) = js ''old''" by code_simp
  then show ?thesis using s sample_sent_simps(1) by simp
qed

text \<open>
  C38: Without streaming the page never counts as generating, so a second question is
  accepted while the first waits; whatever responses arrive then, the first answer is
  left waiting.
\<close>

theorem nonstream_race:
  assumes "\<not> truthy (get_prop cfg (js ''stream''))" and "\<not> isGenerating p" and "trim t \<noteq> []" and "trim t' \<noteq> []"
    and "q = handleSubmit st cfg pe i j now fb (Some t) files w p"
    and "q' = handleSubmit st' cfg pe i' j' now' fb (Some t') files' w' q"
  shows "\<not> isGenerating q \<and> length (pg_messages q') = length (pg_messages p) + 4 \<and>
     stuck (ch_messages (foldl chat_event (pg_chat q') (map Response rs)) ! (length (pg_messages p) + 1))"
proof -
  have q: "pg_messages q = pg_messages p @ [createUserMessage (fst i) (snd i) (trim t) (file_attachments now files), loading j]"
    "\<not> isGenerating q"
    using assms by (simp_all add: handleSubmit_def handleSendMessage_def send_page_def sendChat_def
        sendNonStreamingChat_def Let_def or_str_def)
  have q': "ch_messages (pg_chat q') = pg_messages q @
      [createUserMessage (fst i') (snd i') (trim t') (file_attachments now' files'), loading j']"
    using assms q(2) by (simp add: handleSubmit_def handleSendMessage_def send_page_def sendChat_def
        sendNonStreamingChat_def Let_def or_str_def)
  have "ch_messages (foldl chat_event (pg_chat q') (map Response rs)) ! (length (pg_messages p) + 1) =
      ch_messages (pg_chat q') ! (length (pg_messages p) + 1)"
    by (rule frame_nth [OF events_frame]) (simp add: q' q del: page_chat_simps)
  also have "\<dots> = loading j" by (simp add: q' q nth_append del: page_chat_simps)
  finally show ?thesis using q q' by (simp add: stuck_def loading_def loading_facts)
qed

definition sample_submit :: "Page \<Rightarrow> Page" where
  "sample_submit = handleSubmit True (Obj []) (Obj []) (js ''u'', js ''1'') (js ''k'', js ''2'') 0 [] (Some (js ''a'')) [] False"

theorem nonstream_race_witness:
  "stuck (ch_messages (foldl chat_event (pg_chat (sample_submit (sample_submit sample_open)))
      (map Response [Choice (Some (js ''one'')) None, Choice (Some (js ''two'')) None])) ! (0 + 1))"
proof -
  have "\<not> truthy (get_prop (Obj []) (js ''stream''))" by (simp add: get_prop_def)
  moreover have o: "\<not> isGenerating sample_open" "length (pg_messages sample_open) = 0"
    by (simp_all add: sample_open_def open_page_def usePlaygroundState_def)
  moreover have "trim (js ''a'') \<noteq> []" by code_simp
  ultimately show ?thesis
    using nonstream_race [of "Obj []" sample_open "js ''a''" "js ''a''", OF _ _ _ _ refl refl] o(2)
    unfolding sample_submit_def by metis
qed

end
