(* ===== verification/GatewayDb.thy ===== *)
theory GatewayDb
  imports JS_Number "HOL-Library.AList"
begin

text \<open>
  The tables of the gateway and its quota counters: \<open>model/user.go\<close>, \<open>model/token.go\<close>,
  \<open>model/channel.go\<close> (quota operations) and the batch updater of \<open>model/utils.go\<close>.
  Strings are lists of code points; \<open>int\<close> and \<open>int64\<close> values are mathematical integers
  (quotas and Unix times stay far below \<open>2 ^ 63\<close>; where a product of the source can
  leave that range the wrap-around is written out).
\<close>

type_synonym gostr = jstring

subsection \<open>Strings\<close>

definition go_space :: "nat \<Rightarrow> bool" where
  "go_space c \<longleftrightarrow> 9 \<le> c \<and> c \<le> 13 \<or> c = 32 \<or> c = 133 \<or> c = 160 \<or> c = 5760 \<or> 8192 \<le> c \<and> c \<le> 8202 \<or>
     c = 8232 \<or> c = 8233 \<or> c = 8239 \<or> c = 8287 \<or> c = 12288"

definition TrimSpace :: "gostr \<Rightarrow> gostr" where
  "TrimSpace s = rev (dropWhile go_space (rev (dropWhile go_space s)))"

subsection \<open>Tables\<close>

record User =
  u_quota :: int
  u_usedQuota :: int
  u_requestCount :: int
  u_group :: gostr

record Token =
  tk_id :: int
  tk_key :: gostr
  tk_remainQuota :: int
  tk_usedQuota :: int
  tk_accessedTime :: int

record UserSubscription =
  us_id :: int
  us_userId :: int
  us_planId :: int
  us_amountTotal :: int
  us_amountUsed :: int
  us_startTime :: int
  us_endTime :: int
  us_status :: gostr
  us_source :: gostr
  us_lastResetTime :: int
  us_nextResetTime :: int
  us_upgradeGroup :: gostr
  us_prevUserGroup :: gostr
  us_createdAt :: int
  us_updatedAt :: int

text \<open>The fields of a plan that the operations below read.\<close>

record SubscriptionPlan =
  pl_id :: int
  pl_title :: gostr
  pl_durationUnit :: gostr
  pl_durationValue :: int
  pl_customSeconds :: int
  pl_maxPurchasePerUser :: int
  pl_upgradeGroup :: gostr
  pl_totalAmount :: int
  pl_quotaResetPeriod :: gostr
  pl_quotaResetCustomSeconds :: int

record SubscriptionPreConsumeRecord =
  pr_requestId :: gostr
  pr_userId :: int
  pr_userSubscriptionId :: int
  pr_preConsumed :: int
  pr_status :: gostr
  pr_createdAt :: int
  pr_updatedAt :: int

text \<open>\<open>or_money\<close> and \<open>tu_money\<close> are copied and never computed with.\<close>

record SubscriptionOrder =
  or_userId :: int
  or_planId :: int
  or_money :: jnum
  or_tradeNo :: gostr
  or_paymentMethod :: gostr
  or_paymentProvider :: gostr
  or_status :: gostr
  or_createTime :: int
  or_completeTime :: int
  or_providerPayload :: gostr

record TopUp =
  tu_userId :: int
  tu_amount :: int
  tu_money :: jnum
  tu_tradeNo :: gostr
  tu_paymentMethod :: gostr
  tu_createTime :: int
  tu_completeTime :: int
  tu_status :: gostr

text \<open>
  The whole state: the tables, the stores of the batch updater, the clock, and the
  outcomes of the coming database requests (\<open>Some e\<close>: the request fails with the text
  \<open>e\<close>; an empty list: all succeed).
\<close>

type_synonym batch_store = "(int \<times> int) list"

record Db =
  db_now :: int
  db_faults :: "gostr option list"
  db_users :: "int \<rightharpoonup> User"
  db_tokens :: "Token list"
  db_channelUsed :: "int \<rightharpoonup> int"
  db_subs :: "UserSubscription list"
  db_nextSubId :: int
  db_plans :: "SubscriptionPlan list"
  db_records :: "SubscriptionPreConsumeRecord list"
  db_orders :: "SubscriptionOrder list"
  db_topups :: "TopUp list"
  db_batch :: bool
  db_userStore :: batch_store
  db_tokenStore :: batch_store
  db_usedStore :: batch_store
  db_channelStore :: batch_store
  db_countStore :: batch_store

subsection \<open>Requests and transactions\<close>

definition next_fault :: "Db \<Rightarrow> gostr option" where
  "next_fault s = (case db_faults s of [] \<Rightarrow> None | f # _ \<Rightarrow> f)"

definition asked :: "Db \<Rightarrow> Db" where
  "asked s = s\<lparr>db_faults := tl (db_faults s)\<rparr>"

text \<open>A request that changes the tables: it fails with no effect, or takes effect.\<close>

definition db_exec :: "(Db \<Rightarrow> Db) \<Rightarrow> Db \<Rightarrow> gostr option \<times> Db" where
  "db_exec f s = (case next_fault s of Some e \<Rightarrow> (Some e, asked s) | None \<Rightarrow> (None, f (asked s)))"

definition db_query :: "(Db \<Rightarrow> 'a) \<Rightarrow> Db \<Rightarrow> (gostr + 'a) \<times> Db" where
  "db_query f s = (case next_fault s of Some e \<Rightarrow> (Inl e, asked s) | None \<Rightarrow> (Inr (f s), asked s))"

definition bind_db :: "((gostr + 'a) \<times> Db) \<Rightarrow> ('a \<Rightarrow> Db \<Rightarrow> (gostr + 'b) \<times> Db) \<Rightarrow> (gostr + 'b) \<times> Db" where
  "bind_db r f = (case r of (Inl e, s) \<Rightarrow> (Inl e, s) | (Inr a, s) \<Rightarrow> f a s)"

definition then_db :: "gostr option \<times> Db \<Rightarrow> (Db \<Rightarrow> (gostr + 'b) \<times> Db) \<Rightarrow> (gostr + 'b) \<times> Db" where
  "then_db r f = (case r of (Some e, s) \<Rightarrow> (Inl e, s) | (None, s) \<Rightarrow> f s)"

text \<open>\<open>DB.Transaction\<close>: an error of the body or of the commit undoes the changes.\<close>

definition transaction :: "(Db \<Rightarrow> (gostr + 'a) \<times> Db) \<Rightarrow> Db \<Rightarrow> (gostr + 'a) \<times> Db" where
  "transaction body s =
     (case body s of
        (Inl e, s') \<Rightarrow> (Inl e, s\<lparr>db_faults := db_faults s'\<rparr>)
      | (Inr a, s') \<Rightarrow>
          (case next_fault s' of
             Some e \<Rightarrow> (Inl e, s\<lparr>db_faults := db_faults (asked s')\<rparr>)
           | None \<Rightarrow> (Inr a, asked s')))"

definition error_of :: "(gostr + 'a) \<times> Db \<Rightarrow> gostr option \<times> Db" where
  "error_of r = (case r of (Inl e, s) \<Rightarrow> (Some e, s) | (Inr _, s) \<Rightarrow> (None, s))"

subsection \<open>Batch updater\<close>

definition add_record :: "int \<Rightarrow> int \<Rightarrow> batch_store \<Rightarrow> batch_store" where
  "add_record i v store =
     (case map_of store i of None \<Rightarrow> AList.update i v store | Some w \<Rightarrow> AList.update i (w + v) store)"

datatype BatchUpdateType =
  BatchUpdateTypeUserQuota | BatchUpdateTypeTokenQuota | BatchUpdateTypeUsedQuota | BatchUpdateTypeChannelUsedQuota |
  BatchUpdateTypeRequestCount

fun addNewRecord :: "BatchUpdateType \<Rightarrow> int \<Rightarrow> int \<Rightarrow> Db \<Rightarrow> Db" where
  "addNewRecord BatchUpdateTypeUserQuota i v s = s\<lparr>db_userStore := add_record i v (db_userStore s)\<rparr>"
| "addNewRecord BatchUpdateTypeTokenQuota i v s = s\<lparr>db_tokenStore := add_record i v (db_tokenStore s)\<rparr>"
| "addNewRecord BatchUpdateTypeUsedQuota i v s = s\<lparr>db_usedStore := add_record i v (db_usedStore s)\<rparr>"
| "addNewRecord BatchUpdateTypeChannelUsedQuota i v s = s\<lparr>db_channelStore := add_record i v (db_channelStore s)\<rparr>"
| "addNewRecord BatchUpdateTypeRequestCount i v s = s\<lparr>db_countStore := add_record i v (db_countStore s)\<rparr>"

definition update_user :: "int \<Rightarrow> (User \<Rightarrow> User) \<Rightarrow> Db \<Rightarrow> gostr option \<times> Db" where
  "update_user i f = db_exec (\<lambda>s. s\<lparr>db_users := (db_users s)(i := map_option f (db_users s i))\<rparr>)"

definition update_token :: "int \<Rightarrow> (Token \<Rightarrow> Token) \<Rightarrow> Db \<Rightarrow> gostr option \<times> Db" where
  "update_token i f = db_exec (\<lambda>s. s\<lparr>db_tokens := map (\<lambda>t. if tk_id t = i then f t else t) (db_tokens s)\<rparr>)"

subsection \<open>Quota of users, tokens and channels\<close>

definition NEGATIVE :: gostr where
  "NEGATIVE = js ''quota '' @ [19981, 33021, 20026, 36127, 25968, 65281]"

definition increaseUserQuota :: "int \<Rightarrow> int \<Rightarrow> Db \<Rightarrow> gostr option \<times> Db" where
  "increaseUserQuota i quota = update_user i (\<lambda>u. u\<lparr>u_quota := u_quota u + quota\<rparr>)"

definition decreaseUserQuota :: "int \<Rightarrow> int \<Rightarrow> Db \<Rightarrow> gostr option \<times> Db" where
  "decreaseUserQuota i quota = update_user i (\<lambda>u. u\<lparr>u_quota := u_quota u - quota\<rparr>)"

definition IncreaseUserQuota :: "int \<Rightarrow> int \<Rightarrow> bool \<Rightarrow> Db \<Rightarrow> gostr option \<times> Db" where
  "IncreaseUserQuota i quota db s =
     (if quota < 0 then (Some NEGATIVE, s)
      else if \<not> db \<and> db_batch s then (None, addNewRecord BatchUpdateTypeUserQuota i quota s)
      else increaseUserQuota i quota s)"

definition DecreaseUserQuota :: "int \<Rightarrow> int \<Rightarrow> bool \<Rightarrow> Db \<Rightarrow> gostr option \<times> Db" where
  "DecreaseUserQuota i quota db s =
     (if quota < 0 then (Some NEGATIVE, s)
      else if \<not> db \<and> db_batch s then (None, addNewRecord BatchUpdateTypeUserQuota i (- quota) s)
      else decreaseUserQuota i quota s)"

definition DeltaUpdateUserQuota :: "int \<Rightarrow> int \<Rightarrow> Db \<Rightarrow> gostr option \<times> Db" where
  "DeltaUpdateUserQuota i delta s =
     (if delta = 0 then (None, s)
      else if delta > 0 then IncreaseUserQuota i delta False s
      else DecreaseUserQuota i (- delta) False s)"

text \<open>\<open>hit\<close> is what the cache of users answers; a row that is missing reads as 0.\<close>

definition GetUserQuota :: "int option \<Rightarrow> int \<Rightarrow> Db \<Rightarrow> (gostr + int) \<times> Db" where
  "GetUserQuota hit i s =
     (case hit of
        Some q \<Rightarrow> (Inr q, s)
      | None \<Rightarrow> db_query (\<lambda>s. case db_users s i of None \<Rightarrow> 0 | Some u \<Rightarrow> u_quota u) s)"

definition increaseTokenQuota :: "int \<Rightarrow> int \<Rightarrow> Db \<Rightarrow> gostr option \<times> Db" where
  "increaseTokenQuota i quota s =
     update_token i (\<lambda>t. t\<lparr>tk_remainQuota := tk_remainQuota t + quota, tk_usedQuota := tk_usedQuota t - quota,
       tk_accessedTime := db_now s\<rparr>) s"

definition decreaseTokenQuota :: "int \<Rightarrow> int \<Rightarrow> Db \<Rightarrow> gostr option \<times> Db" where
  "decreaseTokenQuota i quota s =
     update_token i (\<lambda>t. t\<lparr>tk_remainQuota := tk_remainQuota t - quota, tk_usedQuota := tk_usedQuota t + quota,
       tk_accessedTime := db_now s\<rparr>) s"

definition IncreaseTokenQuota :: "int \<Rightarrow> int \<Rightarrow> Db \<Rightarrow> gostr option \<times> Db" where
  "IncreaseTokenQuota i quota s =
     (if quota < 0 then (Some NEGATIVE, s)
      else if db_batch s then (None, addNewRecord BatchUpdateTypeTokenQuota i quota s)
      else increaseTokenQuota i quota s)"

definition DecreaseTokenQuota :: "int \<Rightarrow> int \<Rightarrow> Db \<Rightarrow> gostr option \<times> Db" where
  "DecreaseTokenQuota i quota s =
     (if quota < 0 then (Some NEGATIVE, s)
      else if db_batch s then (None, addNewRecord BatchUpdateTypeTokenQuota i (- quota) s)
      else decreaseTokenQuota i quota s)"

definition NOT_FOUND :: gostr where
  "NOT_FOUND = js ''record not found''"

text \<open>\<open>hit\<close> is what the cache of tokens answers.\<close>

definition GetTokenByKey :: "Token option \<Rightarrow> gostr \<Rightarrow> Db \<Rightarrow> (gostr + Token) \<times> Db" where
  "GetTokenByKey hit key s =
     (case hit of
        Some t \<Rightarrow> (Inr t, s)
      | None \<Rightarrow>
          bind_db (db_query (\<lambda>s. find (\<lambda>t. tk_key t = key) (db_tokens s)) s)
            (\<lambda>r s. case r of None \<Rightarrow> (Inl NOT_FOUND, s) | Some t \<Rightarrow> (Inr t, s)))"

definition updateUserUsedQuotaAndRequestCount :: "int \<Rightarrow> int \<Rightarrow> int \<Rightarrow> Db \<Rightarrow> Db" where
  "updateUserUsedQuotaAndRequestCount i quota n s =
     snd (update_user i (\<lambda>u. u\<lparr>u_usedQuota := u_usedQuota u + quota, u_requestCount := u_requestCount u + n\<rparr>) s)"

definition UpdateUserUsedQuotaAndRequestCount :: "int \<Rightarrow> int \<Rightarrow> Db \<Rightarrow> Db" where
  "UpdateUserUsedQuotaAndRequestCount i quota s =
     (if db_batch s
      then addNewRecord BatchUpdateTypeRequestCount i 1 (addNewRecord BatchUpdateTypeUsedQuota i quota s)
      else updateUserUsedQuotaAndRequestCount i quota 1 s)"

definition updateChannelUsedQuota :: "int \<Rightarrow> int \<Rightarrow> Db \<Rightarrow> Db" where
  "updateChannelUsedQuota i quota s =
     snd (db_exec (\<lambda>s. s\<lparr>db_channelUsed := (db_channelUsed s)(i := map_option (\<lambda>u. u + quota) (db_channelUsed s i))\<rparr>) s)"

definition UpdateChannelUsedQuota :: "int \<Rightarrow> int \<Rightarrow> Db \<Rightarrow> Db" where
  "UpdateChannelUsedQuota i quota s =
     (if db_batch s then addNewRecord BatchUpdateTypeChannelUsedQuota i quota s else updateChannelUsedQuota i quota s)"

definition updateUserQuotaUsedQuotaAndRequestCount :: "int \<Rightarrow> int \<Rightarrow> int \<Rightarrow> int \<Rightarrow> Db \<Rightarrow> Db" where
  "updateUserQuotaUsedQuotaAndRequestCount i quota usedQuota requestCount s =
     (if quota = 0 \<and> usedQuota = 0 \<and> requestCount = 0 then s
      else snd (update_user i (\<lambda>u. u\<lparr>u_quota := u_quota u + quota, u_usedQuota := u_usedQuota u + usedQuota,
             u_requestCount := u_requestCount u + requestCount\<rparr>) s))"

text \<open>Reading a missing key of a store gives 0.\<close>

definition stored :: "batch_store \<Rightarrow> int \<Rightarrow> int" where
  "stored store i = (case map_of store i of None \<Rightarrow> 0 | Some v \<Rightarrow> v)"

definition batchUpdate :: "Db \<Rightarrow> Db" where
  "batchUpdate s =
     (if db_userStore s = [] \<and> db_tokenStore s = [] \<and> db_usedStore s = [] \<and> db_channelStore s = [] \<and> db_countStore s = []
      then s
      else
        (let s0 = s\<lparr>db_userStore := [], db_tokenStore := [], db_usedStore := [], db_channelStore := [], db_countStore := []\<rparr>;
             s1 = fold (\<lambda>(key, v) t. snd (increaseTokenQuota key v t)) (db_tokenStore s) s0;
             s2 = fold (\<lambda>(key, v) t. updateChannelUsedQuota key v t) (db_channelStore s) s1;
             userIDs = remdups (map fst (db_userStore s) @ map fst (db_usedStore s) @ map fst (db_countStore s)) in
         fold (\<lambda>key t. updateUserQuotaUsedQuotaAndRequestCount key (stored (db_userStore s) key)
            (stored (db_usedStore s) key) (stored (db_countStore s) key) t) userIDs s2))"

subsection \<open>Requests without failures\<close>

abbreviation quiet :: "Db \<Rightarrow> bool" where
  "quiet s \<equiv> db_faults s = []"

lemma asked_quiet [simp]: "quiet s \<Longrightarrow> asked s = s"
  by (simp add: asked_def)

lemma next_quiet [simp]: "quiet s \<Longrightarrow> next_fault s = None"
  by (simp add: next_fault_def)

lemma db_exec_quiet [simp]: "quiet s \<Longrightarrow> db_exec f s = (None, f s)"
  by (simp add: db_exec_def)

lemma db_query_quiet [simp]: "quiet s \<Longrightarrow> db_query f s = (Inr (f s), s)"
  by (simp add: db_query_def)

lemma faults_add [simp]: "db_faults (addNewRecord ty i v s) = db_faults s"
  by (cases ty) simp_all

lemma batch_add [simp]: "db_batch (addNewRecord ty i v s) = db_batch s"
  by (cases ty) simp_all

lemmas quota_defs = increaseUserQuota_def decreaseUserQuota_def increaseTokenQuota_def decreaseTokenQuota_def
  update_user_def update_token_def updateUserUsedQuotaAndRequestCount_def updateChannelUsedQuota_def
  updateUserQuotaUsedQuotaAndRequestCount_def

lemmas Quota_defs = IncreaseUserQuota_def DecreaseUserQuota_def IncreaseTokenQuota_def DecreaseTokenQuota_def
  UpdateUserUsedQuotaAndRequestCount_def UpdateChannelUsedQuota_def

subsection \<open>The ledger behind the batch updater\<close>

text \<open>What the tables say once the pending amounts are written.\<close>

record Ledger =
  lg_users :: "int \<rightharpoonup> User"
  lg_tokens :: "(int \<times> int \<times> int) list"
  lg_channels :: "int \<rightharpoonup> int"

definition ledger :: "Db \<Rightarrow> Ledger" where
  "ledger s =
     \<lparr>lg_users = (\<lambda>i. map_option (\<lambda>u. u\<lparr>u_quota := u_quota u + stored (db_userStore s) i,
         u_usedQuota := u_usedQuota u + stored (db_usedStore s) i,
         u_requestCount := u_requestCount u + stored (db_countStore s) i\<rparr>) (db_users s i)),
      lg_tokens = map (\<lambda>t. (tk_id t, tk_remainQuota t + stored (db_tokenStore s) (tk_id t),
         tk_usedQuota t - stored (db_tokenStore s) (tk_id t))) (db_tokens s),
      lg_channels = (\<lambda>i. map_option (\<lambda>c. c + stored (db_channelStore s) i) (db_channelUsed s i))\<rparr>"

datatype quota_op =
    IncUser int int
  | DecUser int int
  | IncToken int int
  | DecToken int int
  | CountUse int int
  | ChannelUse int int
  | BatchTick

fun quota_step :: "Db \<Rightarrow> quota_op \<Rightarrow> Db" where
  "quota_step s (IncUser i q) = snd (IncreaseUserQuota i q False s)"
| "quota_step s (DecUser i q) = snd (DecreaseUserQuota i q False s)"
| "quota_step s (IncToken i q) = snd (IncreaseTokenQuota i q s)"
| "quota_step s (DecToken i q) = snd (DecreaseTokenQuota i q s)"
| "quota_step s (CountUse i q) = UpdateUserUsedQuotaAndRequestCount i q s"
| "quota_step s (ChannelUse i q) = UpdateChannelUsedQuota i q s"
| "quota_step s BatchTick = batchUpdate s"

definition add_user :: "int \<Rightarrow> int \<Rightarrow> int \<Rightarrow> int \<Rightarrow> Ledger \<Rightarrow> Ledger" where
  "add_user i q u c l = l\<lparr>lg_users := (lg_users l)(i := map_option (\<lambda>r. r\<lparr>u_quota := u_quota r + q,
     u_usedQuota := u_usedQuota r + u, u_requestCount := u_requestCount r + c\<rparr>) (lg_users l i))\<rparr>"

definition add_token :: "int \<Rightarrow> int \<Rightarrow> Ledger \<Rightarrow> Ledger" where
  "add_token i q l = l\<lparr>lg_tokens := map (\<lambda>(k, r, u). if k = i then (k, r + q, u - q) else (k, r, u)) (lg_tokens l)\<rparr>"

definition add_channel :: "int \<Rightarrow> int \<Rightarrow> Ledger \<Rightarrow> Ledger" where
  "add_channel i q l = l\<lparr>lg_channels := (lg_channels l)(i := map_option (\<lambda>c. c + q) (lg_channels l i))\<rparr>"

text \<open>The specification of the operations: each changes the ledger at once.\<close>

fun ledger_step :: "Ledger \<Rightarrow> quota_op \<Rightarrow> Ledger" where
  "ledger_step l (IncUser i q) = (if q < 0 then l else add_user i q 0 0 l)"
| "ledger_step l (DecUser i q) = (if q < 0 then l else add_user i (- q) 0 0 l)"
| "ledger_step l (IncToken i q) = (if q < 0 then l else add_token i q l)"
| "ledger_step l (DecToken i q) = (if q < 0 then l else add_token i (- q) l)"
| "ledger_step l (CountUse i q) = add_user i 0 q 1 l"
| "ledger_step l (ChannelUse i q) = add_channel i q l"
| "ledger_step l BatchTick = l"

lemma stored_add [simp]: "stored (add_record i v st) j = stored st j + (if j = i then v else 0)"
  by (simp add: stored_def add_record_def update_conv' split: option.splits)

lemma distinct_add: "distinct (map fst st) \<Longrightarrow> distinct (map fst (add_record i v st))"
  by (simp add: add_record_def distinct_update split: option.splits)

lemma user_same [simp]: "u\<lparr>u_quota := u_quota u, u_usedQuota := u_usedQuota u, u_requestCount := u_requestCount u\<rparr> = (u :: User)"
  by simp

lemma ledger_direct:
  assumes "quiet s"
  shows "ledger (snd (update_user i (\<lambda>u. u\<lparr>u_quota := u_quota u + q\<rparr>) s)) = add_user i q 0 0 (ledger s)"
    and "ledger (snd (update_user i (\<lambda>u. u\<lparr>u_quota := u_quota u - q\<rparr>) s)) = add_user i (- q) 0 0 (ledger s)"
    and "ledger (snd (increaseTokenQuota i q s)) = add_token i q (ledger s)"
    and "ledger (snd (decreaseTokenQuota i q s)) = add_token i (- q) (ledger s)"
    and "ledger (updateUserUsedQuotaAndRequestCount i q n s) = add_user i 0 q n (ledger s)"
    and "ledger (updateChannelUsedQuota i q s) = add_channel i q (ledger s)"
  using assms
  by (auto simp: ledger_def add_user_def add_token_def add_channel_def quota_defs fun_eq_iff option.map_comp comp_def
      intro!: map_option_cong)

lemma ledger_add:
  "ledger (addNewRecord BatchUpdateTypeUserQuota i v s) = add_user i v 0 0 (ledger s)"
  "ledger (addNewRecord BatchUpdateTypeTokenQuota i v s) = add_token i v (ledger s)"
  "ledger (addNewRecord BatchUpdateTypeUsedQuota i v s) = add_user i 0 v 0 (ledger s)"
  "ledger (addNewRecord BatchUpdateTypeRequestCount i v s) = add_user i 0 0 v (ledger s)"
  "ledger (addNewRecord BatchUpdateTypeChannelUsedQuota i v s) = add_channel i v (ledger s)"
  by (auto simp: ledger_def add_user_def add_token_def add_channel_def fun_eq_iff option.map_comp comp_def
      intro!: map_option_cong)

text \<open>Writing the stores to the tables.\<close>

definition stores_ok :: "Db \<Rightarrow> bool" where
  "stores_ok s \<longleftrightarrow> distinct (map fst (db_userStore s)) \<and> distinct (map fst (db_tokenStore s)) \<and>
     distinct (map fst (db_usedStore s)) \<and> distinct (map fst (db_channelStore s)) \<and> distinct (map fst (db_countStore s))"

lemma stored_Nil [simp]: "stored [] i = 0"
  by (simp add: stored_def)

lemma stored_Cons: "k \<notin> fst ` set st \<Longrightarrow> stored ((k, v) # st) i = (if i = k then v else 0) + stored st i"
  using map_of_eq_None_iff [of st k] by (simp add: stored_def split: option.splits)

lemma stored_absent: "i \<notin> fst ` set st \<Longrightarrow> stored st i = 0"
  by (simp add: stored_def map_of_eq_None_iff [THEN iffD2])

lemma write_tokens:
  assumes "quiet s" and "distinct (map fst st)"
  shows "\<exists>a. fold (\<lambda>(k, v) t. snd (increaseTokenQuota k v t)) st s =
     s\<lparr>db_tokens := map (\<lambda>t. t\<lparr>tk_remainQuota := tk_remainQuota t + stored st (tk_id t),
        tk_usedQuota := tk_usedQuota t - stored st (tk_id t), tk_accessedTime := a t\<rparr>) (db_tokens s)\<rparr>"
  using assms
proof (induction st arbitrary: s)
  case Nil
  show ?case by (rule exI [of _ tk_accessedTime]) simp
next
  case (Cons p st)
  obtain k v where p: "p = (k, v)" by (cases p)
  let ?s = "snd (increaseTokenQuota k v s)"
  have q: "quiet ?s" using Cons.prems(1) by (simp add: quota_defs)
  obtain a where a: "fold (\<lambda>(k, v) t. snd (increaseTokenQuota k v t)) st ?s =
     ?s\<lparr>db_tokens := map (\<lambda>t. t\<lparr>tk_remainQuota := tk_remainQuota t + stored st (tk_id t),
        tk_usedQuota := tk_usedQuota t - stored st (tk_id t), tk_accessedTime := a t\<rparr>) (db_tokens ?s)\<rparr>"
    using Cons.IH [OF q] Cons.prems(2) by auto
  let ?b = "\<lambda>t. a (if tk_id t = k then t\<lparr>tk_remainQuota := tk_remainQuota t + v, tk_usedQuota := tk_usedQuota t - v,
     tk_accessedTime := db_now s\<rparr> else t)"
  have "k \<notin> fst ` set st" using Cons.prems(2) by (simp add: p)
  then show ?case
    using Cons.prems(1) a by (intro exI [of _ ?b]) (simp add: p quota_defs stored_Cons)
qed

lemma write_channels:
  assumes "quiet s" and "distinct (map fst st)"
  shows "fold (\<lambda>(k, v) t. updateChannelUsedQuota k v t) st s =
     s\<lparr>db_channelUsed := (\<lambda>i. map_option (\<lambda>c. c + stored st i) (db_channelUsed s i))\<rparr>"
  using assms
proof (induction st arbitrary: s)
  case Nil
  then show ?case by (simp add: option.map_ident)
next
  case (Cons p st)
  obtain k v where p: "p = (k, v)" by (cases p)
  have k: "k \<notin> fst ` set st" using Cons.prems(2) by (simp add: p)
  have "quiet (updateChannelUsedQuota k v s)" using Cons.prems(1) by (simp add: quota_defs)
  then show ?case
    using Cons k by (simp add: p stored_Cons [OF k] quota_defs)
      (auto simp: fun_eq_iff option.map_comp comp_def stored_absent intro!: map_option_cong)
qed

abbreviation written :: "(int \<Rightarrow> int) \<Rightarrow> (int \<Rightarrow> int) \<Rightarrow> (int \<Rightarrow> int) \<Rightarrow> int \<Rightarrow> User \<Rightarrow> User" where
  "written q u c i r \<equiv> r\<lparr>u_quota := u_quota r + q i, u_usedQuota := u_usedQuota r + u i,
     u_requestCount := u_requestCount r + c i\<rparr>"

lemma write_users:
  assumes "quiet s" and "distinct ids"
  shows "fold (\<lambda>k t. updateUserQuotaUsedQuotaAndRequestCount k (q k) (u k) (c k) t) ids s =
     s\<lparr>db_users := (\<lambda>i. if i \<in> set ids then map_option (written q u c i) (db_users s i) else db_users s i)\<rparr>"
  using assms
proof (induction ids arbitrary: s)
  case (Cons k ids)
  let ?s = "updateUserQuotaUsedQuotaAndRequestCount k (q k) (u k) (c k) s"
  have s: "?s = s\<lparr>db_users := (db_users s)(k := map_option (written q u c k) (db_users s k))\<rparr>"
    using Cons.prems(1) by (auto simp: quota_defs option.map_ident)
  then have "quiet ?s" using Cons.prems(1) by simp
  then show ?case using Cons by (simp add: s) (auto simp: fun_eq_iff)
qed simp

lemma batch_ledger:
  assumes "quiet s" and "stores_ok s"
  shows "ledger (batchUpdate s) = ledger s \<and> quiet (batchUpdate s) \<and> stores_ok (batchUpdate s) \<and>
     db_batch (batchUpdate s) = db_batch s \<and> db_userStore (batchUpdate s) = [] \<and> db_tokenStore (batchUpdate s) = []"
proof -
  let ?s0 = "s\<lparr>db_userStore := [], db_tokenStore := [], db_usedStore := [], db_channelStore := [], db_countStore := []\<rparr>"
  obtain a where t: "fold (\<lambda>(k, v) t. snd (increaseTokenQuota k v t)) (db_tokenStore s) ?s0 =
     ?s0\<lparr>db_tokens := map (\<lambda>t. t\<lparr>tk_remainQuota := tk_remainQuota t + stored (db_tokenStore s) (tk_id t),
        tk_usedQuota := tk_usedQuota t - stored (db_tokenStore s) (tk_id t), tk_accessedTime := a t\<rparr>) (db_tokens s)\<rparr>"
    (is "_ = ?s1")
    using write_tokens [of ?s0 "db_tokenStore s"] assms by (auto simp: stores_ok_def)
  have c: "fold (\<lambda>(k, v) t. updateChannelUsedQuota k v t) (db_channelStore s) ?s1 =
     ?s1\<lparr>db_channelUsed := (\<lambda>i. map_option (\<lambda>c. c + stored (db_channelStore s) i) (db_channelUsed s i))\<rparr>"
    (is "_ = ?s2")
    using write_channels [of ?s1 "db_channelStore s"] assms by (simp add: stores_ok_def)
  let ?ids = "remdups (map fst (db_userStore s) @ map fst (db_usedStore s) @ map fst (db_countStore s))"
  have u: "fold (\<lambda>k t. updateUserQuotaUsedQuotaAndRequestCount k (stored (db_userStore s) k)
        (stored (db_usedStore s) k) (stored (db_countStore s) k) t) ?ids ?s2 =
     ?s2\<lparr>db_users := (\<lambda>i. if i \<in> set ?ids then map_option (written (stored (db_userStore s)) (stored (db_usedStore s))
        (stored (db_countStore s)) i) (db_users s i) else db_users s i)\<rparr>"
    using write_users [of ?s2 ?ids "stored (db_userStore s)" "stored (db_usedStore s)" "stored (db_countStore s)"] assms(1)
    by (simp del: set_remdups set_append cong: if_cong)
  have n: "map_option (written (stored (db_userStore s)) (stored (db_usedStore s)) (stored (db_countStore s)) i) o' = o'"
    if "i \<notin> set ?ids" for i o'
    using that by (cases o') (simp_all add: stored_absent)
  show ?thesis
  proof (cases "db_userStore s = [] \<and> db_tokenStore s = [] \<and> db_usedStore s = [] \<and> db_channelStore s = [] \<and> db_countStore s = []")
    case True
    then show ?thesis using assms by (simp add: batchUpdate_def)
  next
    case False
    have "(\<lambda>i. if i \<in> set ?ids then map_option (written (stored (db_userStore s)) (stored (db_usedStore s))
        (stored (db_countStore s)) i) (db_users s i) else db_users s i) =
      (\<lambda>i. map_option (written (stored (db_userStore s)) (stored (db_usedStore s)) (stored (db_countStore s)) i) (db_users s i))"
      using n by (auto simp: fun_eq_iff simp del: set_remdups set_append)
    then have "batchUpdate s = ?s2\<lparr>db_users := (\<lambda>i. map_option (written (stored (db_userStore s)) (stored (db_usedStore s))
        (stored (db_countStore s)) i) (db_users s i))\<rparr>"
      unfolding batchUpdate_def if_not_P [OF False] Let_def t c u by simp
    then show ?thesis using assms by (simp add: ledger_def stores_ok_def option.map_comp comp_def)
  qed
qed

lemma quota_step_refines:
  assumes "quiet s" and "stores_ok s"
  shows "ledger (quota_step s op) = ledger_step (ledger s) op \<and> quiet (quota_step s op) \<and> stores_ok (quota_step s op) \<and>
     db_batch (quota_step s op) = db_batch s"
proof (cases "op = BatchTick")
  case True
  then show ?thesis using batch_ledger [OF assms] by simp
next
  case False
  have "add_user i 0 0 1 (add_user i 0 q 0 l) = add_user i 0 q 1 l" for i q l
    by (simp add: add_user_def option.map_comp comp_def)
  then have "ledger (quota_step s op) = ledger_step (ledger s) op"
    using False assms(1) by (cases op)
      (simp_all add: Quota_defs ledger_add ledger_direct increaseUserQuota_def decreaseUserQuota_def del: addNewRecord.simps)
  moreover have "quiet (quota_step s op) \<and> stores_ok (quota_step s op) \<and> db_batch (quota_step s op) = db_batch s"
    using False assms by (cases op) (simp_all add: Quota_defs quota_defs stores_ok_def distinct_add)
  ultimately show ?thesis by simp
qed

text \<open>
  C6: The batch updater is invisible: for every sequence of quota operations, with
  batch writes anywhere among them, the books kept with pending amounts are those
  kept by writing every operation to the tables at once, and once the pending
  amounts are written the tables themselves agree.
\<close>

theorem batch_refines_direct:
  assumes "quiet s" and "stores_ok s"
  shows "ledger (foldl quota_step s ops) = foldl ledger_step (ledger s) ops \<and>
     ledger (foldl quota_step (s\<lparr>db_batch := b\<rparr>) ops) = foldl ledger_step (ledger s) ops \<and>
     ledger (batchUpdate (foldl quota_step s ops)) = foldl ledger_step (ledger s) ops \<and>
     db_userStore (batchUpdate (foldl quota_step s ops)) = [] \<and> db_tokenStore (batchUpdate (foldl quota_step s ops)) = []"
proof -
  have r: "quiet t \<Longrightarrow> stores_ok t \<Longrightarrow> ledger (foldl quota_step t ops) = foldl ledger_step (ledger t) ops \<and>
      quiet (foldl quota_step t ops) \<and> stores_ok (foldl quota_step t ops)" for t
    by (induction ops arbitrary: t) (use quota_step_refines in auto)
  moreover have "ledger (s\<lparr>db_batch := b\<rparr>) = ledger s" "stores_ok (s\<lparr>db_batch := b\<rparr>)"
    using assms(2) by (simp_all add: ledger_def stores_ok_def)
  ultimately show ?thesis
    using r [of "s\<lparr>db_batch := b\<rparr>"] r [OF assms] batch_ledger [of "foldl quota_step s ops"] assms(1) by simp
qed

definition empty_db :: Db where
  "empty_db = \<lparr>db_now = 0, db_faults = [], db_users = Map.empty, db_tokens = [], db_channelUsed = Map.empty, db_subs = [], db_nextSubId = 1,
     db_plans = [], db_records = [], db_orders = [], db_topups = [], db_batch = False, db_userStore = [], db_tokenStore = [],
     db_usedStore = [], db_channelStore = [], db_countStore = []\<rparr>"

definition sample_db :: Db where
  "sample_db = empty_db\<lparr>db_users := [1 \<mapsto> \<lparr>u_quota = 100, u_usedQuota = 0, u_requestCount = 0, u_group = []\<rparr>],
     db_tokens := [\<lparr>tk_id = 7, tk_key = js ''sk'', tk_remainQuota = 50, tk_usedQuota = 0, tk_accessedTime = 0\<rparr>]\<rparr>"

theorem batch_refines_direct_witness:
  "map_option u_quota (lg_users (ledger (foldl quota_step (sample_db\<lparr>db_batch := True\<rparr>)
     [DecUser 1 30, DecToken 7 30, BatchTick, IncUser 1 5])) 1) = Some 75"
  using batch_refines_direct [of sample_db "[DecUser 1 30, DecToken 7 30, BatchTick, IncUser 1 5]" True]
  by (simp add: sample_db_def empty_db_def stores_ok_def ledger_def add_user_def add_token_def del: quota_step.simps)

end
