(* ===== verification/GoTime.thy ===== *)
theory GoTime
  imports Main
begin

text \<open>
  What the gateway uses of Go's package \<open>time\<close>: Unix times in seconds, durations of
  64 bits in nanoseconds, and calendar arithmetic in the zone of the server.  The
  zone is an argument (the time zone database is not part of the sources); the locale
  \<open>calendar\<close> lists what the code relies on and is interpreted for zones with a constant
  offset from UTC.
\<close>

subsection \<open>Durations\<close>

definition wrap64 :: "int \<Rightarrow> int" where
  "wrap64 x = (x + 2 ^ 63) mod 2 ^ 64 - 2 ^ 63"

definition SECOND :: int where
  "SECOND = 1000000000"

definition HOUR :: int where
  "HOUR = 3600 * SECOND"

text \<open>\<open>t.Add(d).Unix()\<close> for a time of whole seconds: the nanoseconds are rounded down.\<close>

definition add_unix :: "int \<Rightarrow> int \<Rightarrow> int" where
  "add_unix t d = t + d div SECOND"

lemma wrap64_id: "- (2 ^ 63) \<le> x \<Longrightarrow> x < 2 ^ 63 \<Longrightarrow> wrap64 x = x"
  by (simp add: wrap64_def)

text \<open>The values of the type \<open>int64\<close>.\<close>

definition int64 :: "int \<Rightarrow> bool" where
  "int64 x \<longleftrightarrow> - (2 ^ 63) \<le> x \<and> x < 2 ^ 63"

lemma wrap64_range [simp]: "int64 (wrap64 x)"
proof -
  have "0 \<le> (x + 2 ^ 63) mod 2 ^ 64" "(x + 2 ^ 63) mod 2 ^ 64 < 2 ^ 64" by simp_all
  then show ?thesis by (simp add: int64_def wrap64_def)
qed

lemma wrap64_int64: "int64 x \<Longrightarrow> wrap64 x = x"
  by (simp add: int64_def wrap64_id)

lemma wrap64_back: "wrap64 (wrap64 (x + y) - y) = wrap64 x"
proof -
  have "((x + y + 2 ^ 63) mod 2 ^ 64 - 2 ^ 63 - y + 2 ^ 63) mod 2 ^ 64 = ((x + y + 2 ^ 63) mod 2 ^ 64 - y) mod 2 ^ 64"
    by (simp add: algebra_simps)
  also have "\<dots> = (x + 2 ^ 63) mod 2 ^ 64" by (simp add: mod_diff_left_eq algebra_simps)
  finally show ?thesis by (simp add: wrap64_def)
qed

lemma add_unix_seconds: "0 \<le> n \<Longrightarrow> n \<le> 9223372036 \<Longrightarrow> add_unix t (wrap64 (n * SECOND)) = t + n"
  by (simp add: add_unix_def wrap64_id SECOND_def)

definition DAY :: int where
  "DAY = 86400"

subsection \<open>Zones\<close>

text \<open>
  Times are at least one day after the epoch, so that the local day is not before it.
  \<open>z_dayStart t\<close> and \<open>z_monthStart t\<close> are midnight of the day of \<open>t\<close> and of the first day of
  its month, \<open>z_weekday\<close> counts from Sunday, \<open>z_addDate\<close> is \<open>AddDate\<close>.
\<close>

record Zone =
  z_dayStart :: "int \<Rightarrow> int"
  z_monthStart :: "int \<Rightarrow> int"
  z_weekday :: "int \<Rightarrow> int"
  z_addDate :: "int \<Rightarrow> int \<Rightarrow> int \<Rightarrow> int \<Rightarrow> int"

locale calendar =
  fixes tz :: Zone
  assumes weekday_range: "DAY \<le> t \<Longrightarrow> 0 \<le> z_weekday tz t \<and> z_weekday tz t < 7"
    and next_day: "DAY \<le> t \<Longrightarrow> 1 \<le> d \<Longrightarrow> t < z_addDate tz (z_dayStart tz t) 0 0 d"
    and next_month: "DAY \<le> t \<Longrightarrow> t < z_addDate tz (z_monthStart tz t) 0 1 0"
begin

lemma next_monday:
  assumes "DAY \<le> t"
  shows "t < z_addDate tz (z_dayStart tz t) 0 0 (8 - (if z_weekday tz t = 0 then 7 else z_weekday tz t))"
  using next_day [OF assms] weekday_range [OF assms] by simp

end

subsection \<open>Zones with a constant offset\<close>

text \<open>Months are numbered from January 1970.\<close>

definition leap :: "nat \<Rightarrow> bool" where
  "leap y \<longleftrightarrow> y mod 4 = 0 \<and> (y mod 100 \<noteq> 0 \<or> y mod 400 = 0)"

definition month_length :: "nat \<Rightarrow> nat" where
  "month_length k =
     (if k mod 12 = 1 then (if leap (1970 + k div 12) then 29 else 28)
      else if k mod 12 \<in> {3, 5, 8, 10} then 30 else 31)"

fun month_start :: "nat \<Rightarrow> nat" where
  "month_start 0 = 0"
| "month_start (Suc k) = month_start k + month_length k"

lemma month_length_pos: "28 \<le> month_length k"
  by (simp add: month_length_def)

text \<open>The month of a day (days since the first of month \<open>k\<close>) and the day of the month.\<close>

function month_of :: "nat \<Rightarrow> nat \<Rightarrow> nat \<times> nat" where
  "month_of k n = (if n < month_length k then (k, n) else month_of (Suc k) (n - month_length k))"
  by pat_completeness auto
termination
proof (relation "measure snd")
  fix k n
  assume "\<not> n < month_length k"
  then show "((Suc k, n - month_length k), k, n) \<in> measure snd" using month_length_pos [of k] by simp
qed simp

declare month_of.simps [simp del]

lemma month_of_spec:
  "month_start k + n = month_start (fst (month_of k n)) + snd (month_of k n) \<and>
   snd (month_of k n) < month_length (fst (month_of k n))"
proof (induction k n rule: month_of.induct)
  case (1 k n)
  show ?case
  proof (cases "n < month_length k")
    case True
    then show ?thesis by (simp add: month_of.simps [of k n])
  next
    case False
    then show ?thesis using 1 by (simp add: month_of.simps [of k n])
  qed
qed

definition fixed_zone :: "int \<Rightarrow> Zone" where
  "fixed_zone off =
     \<lparr>z_dayStart = (\<lambda>t. (t + off) div DAY * DAY - off),
      z_monthStart = (\<lambda>t. int (month_start (fst (month_of 0 (nat ((t + off) div DAY))))) * DAY - off),
      z_weekday = (\<lambda>t. ((t + off) div DAY + 4) mod 7),
      z_addDate = (\<lambda>t y m d.
        (let (k, n) = month_of 0 (nat ((t + off) div DAY)) in
         (int (month_start (nat (int k + 12 * y + m))) + int n + d) * DAY + (t + off) mod DAY - off))\<rparr>"

lemma month_of_start: "month_of 0 (month_start k) = (k, 0)"
proof -
  have "month_of i (month_start (i + j) - month_start i) = (i + j, 0)" for i j
  proof (induction j arbitrary: i)
    case 0
    then show ?case using month_length_pos [of i] by (simp add: month_of.simps)
  next
    case (Suc j)
    have m: "month_start (Suc i) \<le> month_start (Suc i + j)"
      by (induction j) simp_all
    then have "\<not> month_start (i + Suc j) - month_start i < month_length i" by simp
    then show ?case using Suc [of "Suc i"] m by (simp add: month_of.simps [of i])
  qed
  from this [of 0 k] show ?thesis by simp
qed

lemma day_bounds: "(x :: int) div DAY * DAY \<le> x \<and> x < (x div DAY + 1) * DAY"
  unfolding DAY_def by presburger

lemma fixed_day:
  assumes "0 \<le> t + off"
  shows "z_addDate (fixed_zone off) (z_dayStart (fixed_zone off) t) 0 0 d = ((t + off) div DAY + d) * DAY - off"
proof -
  let ?n = "nat ((t + off) div DAY)"
  have n: "int ?n = (t + off) div DAY" using assms by (simp add: DAY_def)
  obtain k r where kr: "month_of 0 ?n = (k, r)" by fastforce
  have "?n = month_start k + r" using month_of_spec [of 0 ?n] kr by simp
  then have "int (month_start k) + int r = (t + off) div DAY" using n by linarith
  then show ?thesis using kr by (simp add: fixed_zone_def DAY_def)
qed

lemma fixed_month:
  assumes "0 \<le> t + off"
  shows "t < z_addDate (fixed_zone off) (z_monthStart (fixed_zone off) t) 0 1 0"
proof -
  let ?n = "nat ((t + off) div DAY)"
  obtain k r where kr: "month_of 0 ?n = (k, r)" by fastforce
  have "?n = month_start k + r" "r < month_length k" using month_of_spec [of 0 ?n] kr by simp_all
  then have "int ?n < int (month_start (Suc k))" by simp
  moreover have "int ?n = (t + off) div DAY" using assms by (simp add: DAY_def)
  ultimately have "((t + off) div DAY + 1) * DAY \<le> int (month_start (Suc k)) * DAY" by (simp add: DAY_def)
  then have "t + off < int (month_start (Suc k)) * DAY" using day_bounds [of "t + off"] by linarith
  moreover have "z_addDate (fixed_zone off) (z_monthStart (fixed_zone off) t) 0 1 0 = int (month_start (Suc k)) * DAY - off"
    using kr by (simp add: fixed_zone_def DAY_def month_of_start nat_add_distrib add.commute)
  ultimately show ?thesis by simp
qed

text \<open>Offsets of zones lie within a day of UTC.\<close>

abbreviation zone_at :: "int \<Rightarrow> Zone" where
  "zone_at off \<equiv> fixed_zone (max (- DAY) off)"

interpretation fz: calendar "zone_at off" for off
proof
  fix t d :: int
  assume "DAY \<le> t"
  then have t: "0 \<le> t + max (- DAY) off" by linarith
  let ?n = "(t + max (- DAY) off) div DAY"
  show "0 \<le> z_weekday (zone_at off) t \<and> z_weekday (zone_at off) t < 7" by (simp add: fixed_zone_def)
  show "t < z_addDate (zone_at off) (z_monthStart (zone_at off) t) 0 1 0" using fixed_month [OF t] by simp
  assume "1 \<le> d"
  then have "(?n + 1) * DAY \<le> (?n + d) * DAY" by (simp add: DAY_def)
  then show "t < z_addDate (zone_at off) (z_dayStart (zone_at off) t) 0 0 d"
    using fixed_day [OF t, of d] day_bounds [of "t + max (- DAY) off"] by linarith
qed

end
