(* ===== verification/Subscription.thy ===== *)
theory Subscription
  imports GatewayDb GoTime
begin

text \<open>
  Subscriptions: \<open>model/subscription.go\<close>.  Each operation is a state transformer on the
  tables; \<open>tz\<close> is the zone of the server and \<open>pc\<close> what the cache of plans answers.  Logs,
  caches of user groups and the balance purchase (decimal prices) are left out.
\<close>

subsection \<open>Periods\<close>

definition ACTIVE :: gostr where "ACTIVE = js ''active''"
definition EXPIRED :: gostr where "EXPIRED = js ''expired''"
definition CANCELLED :: gostr where "CANCELLED = js ''cancelled''"
definition CONSUMED :: gostr where "CONSUMED = js ''consumed''"
definition REFUNDED :: gostr where "REFUNDED = js ''refunded''"

definition SubscriptionResetNever :: gostr where "SubscriptionResetNever = js ''never''"
definition SubscriptionResetDaily :: gostr where "SubscriptionResetDaily = js ''daily''"
definition SubscriptionResetWeekly :: gostr where "SubscriptionResetWeekly = js ''weekly''"
definition SubscriptionResetMonthly :: gostr where "SubscriptionResetMonthly = js ''monthly''"
definition SubscriptionResetCustom :: gostr where "SubscriptionResetCustom = js ''custom''"

definition calcPlanEndTime :: "Zone \<Rightarrow> int \<Rightarrow> SubscriptionPlan \<Rightarrow> gostr + int" where
  "calcPlanEndTime tz start plan =
     (let u = pl_durationUnit plan; v = pl_durationValue plan in
      if v \<le> 0 \<and> u \<noteq> js ''custom'' then Inl (js ''duration_value must be > 0'')
      else if u = js ''year'' then Inr (z_addDate tz start v 0 0)
      else if u = js ''month'' then Inr (z_addDate tz start 0 v 0)
      else if u = js ''day'' then Inr (add_unix start (wrap64 (wrap64 (v * 24) * HOUR)))
      else if u = js ''hour'' then Inr (add_unix start (wrap64 (v * HOUR)))
      else if u = js ''custom'' then
        (if pl_customSeconds plan \<le> 0 then Inl (js ''custom_seconds must be > 0'')
         else Inr (add_unix start (wrap64 (pl_customSeconds plan * SECOND))))
      else Inl (js ''invalid duration_unit: '' @ u))"

definition NormalizeResetPeriod :: "gostr \<Rightarrow> gostr" where
  "NormalizeResetPeriod period =
     (if TrimSpace period \<in> {SubscriptionResetDaily, SubscriptionResetWeekly, SubscriptionResetMonthly, SubscriptionResetCustom}
      then TrimSpace period else SubscriptionResetNever)"

text \<open>0 means no further reset.\<close>

definition next_of_period :: "Zone \<Rightarrow> int \<Rightarrow> SubscriptionPlan \<Rightarrow> gostr \<Rightarrow> int option" where
  "next_of_period tz base plan period =
     (if period = SubscriptionResetDaily then Some (z_addDate tz (z_dayStart tz base) 0 0 1)
      else if period = SubscriptionResetWeekly then
        (let weekday = (if z_weekday tz base = 0 then 7 else z_weekday tz base) in
         Some (z_addDate tz (z_dayStart tz base) 0 0 (8 - weekday)))
      else if period = SubscriptionResetMonthly then Some (z_addDate tz (z_monthStart tz base) 0 1 0)
      else if period = SubscriptionResetCustom then
        (if pl_quotaResetCustomSeconds plan \<le> 0 then None
         else Some (add_unix base (wrap64 (pl_quotaResetCustomSeconds plan * SECOND))))
      else None)"

definition calcNextResetTime :: "Zone \<Rightarrow> int \<Rightarrow> SubscriptionPlan \<Rightarrow> int \<Rightarrow> int" where
  "calcNextResetTime tz base plan endUnix =
     (case next_of_period tz base plan (NormalizeResetPeriod (pl_quotaResetPeriod plan)) of
        None \<Rightarrow> 0
      | Some n \<Rightarrow> if endUnix > 0 \<and> n > endUnix then 0 else n)"

subsection \<open>Rows\<close>

definition find_sub :: "int \<Rightarrow> Db \<Rightarrow> UserSubscription option" where
  "find_sub i s = find (\<lambda>r. us_id r = i) (db_subs s)"

definition put_sub :: "UserSubscription \<Rightarrow> Db \<Rightarrow> Db" where
  "put_sub sub s = s\<lparr>db_subs := map (\<lambda>r. if us_id r = us_id sub then sub\<lparr>us_updatedAt := db_now s\<rparr> else r) (db_subs s)\<rparr>"

definition save_sub :: "UserSubscription \<Rightarrow> Db \<Rightarrow> gostr option \<times> Db" where
  "save_sub sub = db_exec (put_sub sub)"

definition find_record :: "gostr \<Rightarrow> Db \<Rightarrow> SubscriptionPreConsumeRecord option" where
  "find_record i s = find (\<lambda>r. pr_requestId r = i) (db_records s)"

definition put_record :: "SubscriptionPreConsumeRecord \<Rightarrow> Db \<Rightarrow> Db" where
  "put_record rec s = s\<lparr>db_records :=
     map (\<lambda>r. if pr_requestId r = pr_requestId rec then rec\<lparr>pr_updatedAt := db_now s\<rparr> else r) (db_records s)\<rparr>"

definition active_at :: "int \<Rightarrow> int \<Rightarrow> UserSubscription \<Rightarrow> bool" where
  "active_at userId now r \<longleftrightarrow> us_userId r = userId \<and> us_status r = ACTIVE \<and> us_endTime r > now"

definition ends_before :: "UserSubscription \<Rightarrow> UserSubscription \<Rightarrow> bool" where
  "ends_before a b \<longleftrightarrow> us_endTime a < us_endTime b \<or> us_endTime a = us_endTime b \<and> us_id a \<le> us_id b"

definition getSubscriptionPlanByIdTx ::
  "(int \<Rightarrow> SubscriptionPlan option) \<Rightarrow> int \<Rightarrow> Db \<Rightarrow> (gostr + SubscriptionPlan) \<times> Db" where
  "getSubscriptionPlanByIdTx pc i s =
     (if i \<le> 0 then (Inl (js ''invalid plan id''), s)
      else
        (case pc i of
           Some plan \<Rightarrow> (Inr plan, s)
         | None \<Rightarrow>
             bind_db (db_query (\<lambda>s. find (\<lambda>p. pl_id p = i) (db_plans s)) s)
               (\<lambda>r s. case r of None \<Rightarrow> (Inl NOT_FOUND, s) | Some p \<Rightarrow> (Inr p, s))))"

subsection \<open>Resetting the used amount\<close>

text \<open>
  The loop of \<open>maybeResetUserSubscriptionWithPlanTx\<close>, with fuel; \<open>None\<close> when the fuel runs
  out.  \<open>LOOPS\<close> marks a call that would not return; no other operation produces it.
\<close>

fun reset_loop :: "nat \<Rightarrow> Zone \<Rightarrow> SubscriptionPlan \<Rightarrow> int \<Rightarrow> int \<Rightarrow> int \<Rightarrow> int \<Rightarrow> bool \<Rightarrow> (int \<times> int \<times> bool) option" where
  "reset_loop 0 tz plan endUnix now base nxt advanced = None"
| "reset_loop (Suc fuel) tz plan endUnix now base nxt advanced =
     (if nxt > 0 \<and> nxt \<le> now
      then reset_loop fuel tz plan endUnix now nxt (calcNextResetTime tz nxt plan endUnix) True
      else Some (base, nxt, advanced))"

definition LOOPS :: gostr where
  "LOOPS = [0]"

definition maybeResetUserSubscriptionWithPlanTx ::
  "Zone \<Rightarrow> UserSubscription \<Rightarrow> SubscriptionPlan \<Rightarrow> int \<Rightarrow> Db \<Rightarrow> (gostr + UserSubscription) \<times> Db" where
  "maybeResetUserSubscriptionWithPlanTx tz sub plan now s =
     (if us_nextResetTime sub > 0 \<and> us_nextResetTime sub > now then (Inr sub, s)
      else if NormalizeResetPeriod (pl_quotaResetPeriod plan) = SubscriptionResetNever then (Inr sub, s)
      else
        (let baseUnix = (if us_lastResetTime sub \<le> 0 then us_startTime sub else us_lastResetTime sub) in
         case reset_loop (nat now + 2) tz plan (us_endTime sub) now baseUnix
                (calcNextResetTime tz baseUnix plan (us_endTime sub)) False of
           None \<Rightarrow> (Inl LOOPS, s)
         | Some (base, nxt, advanced) \<Rightarrow>
             if \<not> advanced then
               (if us_nextResetTime sub = 0 \<and> nxt > 0 then
                  (let sub' = sub\<lparr>us_nextResetTime := nxt, us_lastResetTime := base\<rparr> in
                   then_db (save_sub sub' s) (\<lambda>s. (Inr sub', s)))
                else (Inr sub, s))
             else
               (let sub' = sub\<lparr>us_amountUsed := 0, us_lastResetTime := base, us_nextResetTime := nxt\<rparr> in
                then_db (save_sub sub' s) (\<lambda>s. (Inr sub', s)))))"

subsection \<open>Consuming\<close>

record SubscriptionPreConsumeResult =
  sr_userSubscriptionId :: int
  sr_preConsumed :: int
  sr_amountTotal :: int
  sr_amountUsedBefore :: int
  sr_amountUsedAfter :: int

definition pre_result :: "UserSubscription \<Rightarrow> int \<Rightarrow> int \<Rightarrow> SubscriptionPreConsumeResult" where
  "pre_result sub pre before =
     \<lparr>sr_userSubscriptionId = us_id sub, sr_preConsumed = pre, sr_amountTotal = us_amountTotal sub,
      sr_amountUsedBefore = before, sr_amountUsedAfter = us_amountUsed sub\<rparr>"

definition ALREADY_REFUNDED :: gostr where
  "ALREADY_REFUNDED = js ''subscription pre-consume already refunded''"

definition NO_ACTIVE :: gostr where
  "NO_ACTIVE = js ''no active subscription''"

definition QUOTA_INSUFFICIENT :: gostr where
  "QUOTA_INSUFFICIENT = js ''subscription quota insufficient''"

text \<open>
  Creating the record fails when the request id is taken, or with the database.  Amounts
  are 64-bit integers of Go: sums and differences wrap around.
\<close>

definition consume_sub ::
  "gostr \<Rightarrow> int \<Rightarrow> int \<Rightarrow> UserSubscription \<Rightarrow> Db \<Rightarrow> (gostr + SubscriptionPreConsumeResult) \<times> Db" where
  "consume_sub requestId userId amount sub s =
     (let rec = \<lparr>pr_requestId = requestId, pr_userId = userId, pr_userSubscriptionId = us_id sub, pr_preConsumed = amount,
            pr_status = CONSUMED, pr_createdAt = db_now s, pr_updatedAt = db_now s\<rparr>;
          created = (if find_record requestId s \<noteq> None then (Some (js ''duplicated key''), asked s)
                     else db_exec (\<lambda>s. s\<lparr>db_records := db_records s @ [rec]\<rparr>) s) in
      case created of
        (Some e, s) \<Rightarrow>
          (case db_query (find_record requestId) s of
             (Inr (Some dup), s) \<Rightarrow>
               if pr_status dup = REFUNDED then (Inl ALREADY_REFUNDED, s)
               else (Inr (pre_result sub (pr_preConsumed dup) (us_amountUsed sub)), s)
           | (_, s) \<Rightarrow> (Inl e, s))
      | (None, s) \<Rightarrow>
          (let sub' = sub\<lparr>us_amountUsed := wrap64 (us_amountUsed sub + amount)\<rparr> in
           then_db (save_sub sub' s) (\<lambda>s. (Inr (pre_result sub' amount (us_amountUsed sub)), s))))"

fun try_subs ::
  "Zone \<Rightarrow> (int \<Rightarrow> SubscriptionPlan option) \<Rightarrow> gostr \<Rightarrow> int \<Rightarrow> int \<Rightarrow> int \<Rightarrow> UserSubscription list \<Rightarrow> Db \<Rightarrow>
     (gostr + SubscriptionPreConsumeResult) \<times> Db" where
  "try_subs tz pc requestId userId amount now [] s = (Inl (QUOTA_INSUFFICIENT @ js '', need='' @ nat_str (nat amount)), s)"
| "try_subs tz pc requestId userId amount now (candidate # subs) s =
     bind_db (getSubscriptionPlanByIdTx pc (us_planId candidate) s) (\<lambda>plan s.
       bind_db (maybeResetUserSubscriptionWithPlanTx tz candidate plan now s) (\<lambda>sub s.
         if us_amountTotal sub > 0 \<and> wrap64 (us_amountTotal sub - us_amountUsed sub) < amount
         then try_subs tz pc requestId userId amount now subs s
         else consume_sub requestId userId amount sub s))"

definition PreConsumeUserSubscription ::
  "Zone \<Rightarrow> (int \<Rightarrow> SubscriptionPlan option) \<Rightarrow> gostr \<Rightarrow> int \<Rightarrow> int \<Rightarrow> Db \<Rightarrow> (gostr + SubscriptionPreConsumeResult) \<times> Db" where
  "PreConsumeUserSubscription tz pc requestId userId amount s =
     (if userId \<le> 0 then (Inl (js ''invalid userId''), s)
      else if TrimSpace requestId = [] then (Inl (js ''requestId is empty''), s)
      else if amount \<le> 0 then (Inl (js ''amount must be > 0''), s)
      else
        (let now = db_now s in
         transaction (\<lambda>s.
           bind_db (db_query (find_record requestId) s) (\<lambda>existing s.
             case existing of
               Some rec \<Rightarrow>
                 if pr_status rec = REFUNDED then (Inl ALREADY_REFUNDED, s)
                 else
                   bind_db (db_query (find_sub (pr_userSubscriptionId rec)) s) (\<lambda>r s.
                     case r of
                       None \<Rightarrow> (Inl NOT_FOUND, s)
                     | Some sub \<Rightarrow> (Inr (pre_result sub (pr_preConsumed rec) (us_amountUsed sub)), s))
             | None \<Rightarrow>
                 (case db_query (\<lambda>s. sort_by ends_before (filter (active_at userId now) (db_subs s))) s of
                    (Inl _, s) \<Rightarrow> (Inl NO_ACTIVE, s)
                  | (Inr subs, s) \<Rightarrow>
                      if subs = [] then (Inl NO_ACTIVE, s)
                      else try_subs tz pc requestId userId amount now subs s))) s))"

definition PostConsumeUserSubscriptionDelta :: "int \<Rightarrow> int \<Rightarrow> Db \<Rightarrow> gostr option \<times> Db" where
  "PostConsumeUserSubscriptionDelta i delta s =
     (if i \<le> 0 then (Some (js ''invalid userSubscriptionId''), s)
      else if delta = 0 then (None, s)
      else
        error_of (transaction (\<lambda>s.
          bind_db (db_query (find_sub i) s) (\<lambda>r s.
            case r of
              None \<Rightarrow> (Inl NOT_FOUND, s)
            | Some sub \<Rightarrow>
                (let newUsed = max 0 (wrap64 (us_amountUsed sub + delta)) in
                 if us_amountTotal sub > 0 \<and> newUsed > us_amountTotal sub
                 then (Inl (js ''subscription used exceeds total''), s)
                 else then_db (save_sub (sub\<lparr>us_amountUsed := newUsed\<rparr>) s) (\<lambda>s. (Inr (), s))))) s))"

text \<open>
  The call of \<open>PostConsumeUserSubscriptionDelta\<close> opens a transaction of its own on the
  global handle, so its effect does not depend on the enclosing transaction, whose
  only change is the status of the record.
\<close>

definition mark_refunded :: "SubscriptionPreConsumeRecord \<Rightarrow> Db \<Rightarrow> gostr option \<times> Db" where
  "mark_refunded rec s =
     (case db_exec (put_record (rec\<lparr>pr_status := REFUNDED\<rparr>)) s of
        (Some e, s') \<Rightarrow> (Some e, s')
      | (None, s') \<Rightarrow>
          (case next_fault s' of
             Some e \<Rightarrow> (Some e, s\<lparr>db_faults := db_faults (asked s')\<rparr>)
           | None \<Rightarrow> (None, asked s')))"

definition RefundSubscriptionPreConsume :: "gostr \<Rightarrow> Db \<Rightarrow> gostr option \<times> Db" where
  "RefundSubscriptionPreConsume requestId s =
     (if TrimSpace requestId = [] then (Some (js ''requestId is empty''), s)
      else
        (case db_query (find_record requestId) s of
           (Inl e, s) \<Rightarrow> (Some e, s)
         | (Inr None, s) \<Rightarrow> (Some NOT_FOUND, s)
         | (Inr (Some rec), s) \<Rightarrow>
             if pr_status rec = REFUNDED then (next_fault s, asked s)
             else if pr_preConsumed rec \<le> 0 then mark_refunded rec s
             else
               (case PostConsumeUserSubscriptionDelta (pr_userSubscriptionId rec) (- pr_preConsumed rec) s of
                  (Some e, s) \<Rightarrow> (Some e, s)
                | (None, s) \<Rightarrow> mark_refunded rec s)))"

subsection \<open>Scheduled work\<close>

definition due :: "int \<Rightarrow> UserSubscription \<Rightarrow> bool" where
  "due now r \<longleftrightarrow> us_nextResetTime r > 0 \<and> us_nextResetTime r \<le> now"

definition reset_locked ::
  "Zone \<Rightarrow> SubscriptionPlan \<Rightarrow> int \<Rightarrow> int \<Rightarrow> Db \<Rightarrow> (gostr + bool) \<times> Db" where
  "reset_locked tz plan i now s =
     (case db_query (\<lambda>s. find (\<lambda>r. us_id r = i \<and> due now r) (db_subs s)) s of
        (Inr (Some locked), s) \<Rightarrow>
          bind_db (maybeResetUserSubscriptionWithPlanTx tz locked plan now s) (\<lambda>_ s. (Inr True, s))
      | (_, s) \<Rightarrow> (Inr False, s))"

definition reset_one ::
  "Zone \<Rightarrow> SubscriptionPlan \<Rightarrow> int \<Rightarrow> int \<Rightarrow> Db \<Rightarrow> (gostr + bool) \<times> Db" where
  "reset_one tz plan i now = transaction (reset_locked tz plan i now)"

text \<open>The counter is raised inside the transaction, so a failing commit still counts.\<close>

fun reset_all ::
  "Zone \<Rightarrow> (int \<Rightarrow> SubscriptionPlan option) \<Rightarrow> int \<Rightarrow> UserSubscription list \<Rightarrow> nat \<Rightarrow> Db \<Rightarrow> (nat \<times> gostr option) \<times> Db" where
  "reset_all tz pc now [] resetCount s = ((resetCount, None), s)"
| "reset_all tz pc now (sub # subs) resetCount s =
     (case getSubscriptionPlanByIdTx pc (us_planId sub) s of
        (Inl _, s) \<Rightarrow> reset_all tz pc now subs resetCount s
      | (Inr plan, s) \<Rightarrow>
          (let counted = (if fst (reset_locked tz plan (us_id sub) now s) = Inr True then resetCount + 1 else resetCount) in
           case reset_one tz plan (us_id sub) now s of
             (Inl e, s) \<Rightarrow> ((counted, Some e), s)
           | (Inr _, s) \<Rightarrow> reset_all tz pc now subs counted s))"

definition page_limit :: "int \<Rightarrow> nat" where
  "page_limit limit = (if limit \<le> 0 then 200 else nat limit)"

definition ResetDueSubscriptions ::
  "Zone \<Rightarrow> (int \<Rightarrow> SubscriptionPlan option) \<Rightarrow> int \<Rightarrow> Db \<Rightarrow> (nat \<times> gostr option) \<times> Db" where
  "ResetDueSubscriptions tz pc limit s =
     (let now = db_now s in
      case db_query (\<lambda>s. take (page_limit limit) (sort_by (\<lambda>a b. us_nextResetTime a \<le> us_nextResetTime b)
             (filter (\<lambda>r. due now r \<and> us_status r = ACTIVE) (db_subs s)))) s of
        (Inl e, s) \<Rightarrow> ((0, Some e), s)
      | (Inr subs, s) \<Rightarrow> if subs = [] then ((0, None), s) else reset_all tz pc now subs 0 s)"

definition CleanupSubscriptionPreConsumeRecords :: "int \<Rightarrow> Db \<Rightarrow> gostr option \<times> Db" where
  "CleanupSubscriptionPreConsumeRecords olderThanSeconds s =
     (let cutoff = db_now s - (if olderThanSeconds \<le> 0 then 7 * 24 * 3600 else olderThanSeconds) in
      db_exec (\<lambda>s. s\<lparr>db_records := filter (\<lambda>r. \<not> pr_updatedAt r < cutoff) (db_records s)\<rparr>) s)"

definition HasActiveUserSubscription :: "int \<Rightarrow> Db \<Rightarrow> (gostr + bool) \<times> Db" where
  "HasActiveUserSubscription userId s =
     (if userId \<le> 0 then (Inl (js ''invalid userId''), s)
      else db_query (\<lambda>s. length (filter (active_at userId (db_now s)) (db_subs s)) > 0) s)"

record SubscriptionPlanInfo =
  pi_planId :: int
  pi_planTitle :: gostr

text \<open>\<open>hit\<close> is what the cache of plan infos answers.\<close>

definition GetSubscriptionPlanInfoByUserSubscriptionId ::
  "SubscriptionPlanInfo option \<Rightarrow> (int \<Rightarrow> SubscriptionPlan option) \<Rightarrow> int \<Rightarrow> Db \<Rightarrow> (gostr + SubscriptionPlanInfo) \<times> Db" where
  "GetSubscriptionPlanInfoByUserSubscriptionId hit pc i s =
     (if i \<le> 0 then (Inl (js ''invalid userSubscriptionId''), s)
      else
        (case hit of
           Some info \<Rightarrow> (Inr info, s)
         | None \<Rightarrow>
             bind_db (db_query (find_sub i) s) (\<lambda>r s.
               case r of
                 None \<Rightarrow> (Inl NOT_FOUND, s)
               | Some sub \<Rightarrow>
                   bind_db (getSubscriptionPlanByIdTx pc (us_planId sub) s) (\<lambda>plan s.
                     (Inr \<lparr>pi_planId = us_planId sub, pi_planTitle = pl_title plan\<rparr>, s)))))"

subsection \<open>Groups\<close>

definition getUserGroupByIdTx :: "int \<Rightarrow> Db \<Rightarrow> (gostr + gostr) \<times> Db" where
  "getUserGroupByIdTx userId s =
     (if userId \<le> 0 then (Inl (js ''invalid userId''), s)
      else db_query (\<lambda>s. case db_users s userId of None \<Rightarrow> [] | Some u \<Rightarrow> u_group u) s)"

definition set_group :: "int \<Rightarrow> gostr \<Rightarrow> Db \<Rightarrow> gostr option \<times> Db" where
  "set_group userId g = update_user userId (\<lambda>u. u\<lparr>u_group := g\<rparr>)"

text \<open>A failed search for another active upgrade counts as none.\<close>

definition other_upgrade :: "(UserSubscription \<Rightarrow> bool) \<Rightarrow> Db \<Rightarrow> bool \<times> Db" where
  "other_upgrade P s =
     (case db_query (\<lambda>s. list_ex P (db_subs s)) s of (Inl _, s) \<Rightarrow> (False, s) | (Inr b, s) \<Rightarrow> (b, s))"

definition downgradeUserGroupForSubscriptionTx :: "UserSubscription \<Rightarrow> int \<Rightarrow> Db \<Rightarrow> (gostr + gostr) \<times> Db" where
  "downgradeUserGroupForSubscriptionTx sub now s =
     (let upgradeGroup = TrimSpace (us_upgradeGroup sub) in
      if upgradeGroup = [] then (Inr [], s)
      else bind_db (getUserGroupByIdTx (us_userId sub) s) (\<lambda>currentGroup s.
        if currentGroup \<noteq> upgradeGroup then (Inr [], s)
        else
          (case other_upgrade (\<lambda>r. active_at (us_userId sub) now r \<and> us_id r \<noteq> us_id sub \<and> us_upgradeGroup r \<noteq> []) s of
             (found, s) \<Rightarrow>
               (let prevGroup = TrimSpace (us_prevUserGroup sub) in
                if found \<or> prevGroup = [] \<or> prevGroup = currentGroup then (Inr [], s)
                else then_db (set_group (us_userId sub) prevGroup s) (\<lambda>s. (Inr prevGroup, s))))))"

definition end_sub :: "int \<Rightarrow> int \<Rightarrow> Db \<Rightarrow> Db" where
  "end_sub i now s = s\<lparr>db_subs := map (\<lambda>r. if us_id r = i
     then r\<lparr>us_status := CANCELLED, us_endTime := now, us_updatedAt := now\<rparr> else r) (db_subs s)\<rparr>"

text \<open>Both admin operations return the group to which the user falls back.\<close>

definition AdminInvalidateUserSubscription :: "int \<Rightarrow> Db \<Rightarrow> (gostr + gostr) \<times> Db" where
  "AdminInvalidateUserSubscription i s =
     (if i \<le> 0 then (Inl (js ''invalid userSubscriptionId''), s)
      else
        (let now = db_now s in
         transaction (\<lambda>s.
           bind_db (db_query (find_sub i) s) (\<lambda>r s.
             case r of
               None \<Rightarrow> (Inl NOT_FOUND, s)
             | Some sub \<Rightarrow>
                 then_db (db_exec (end_sub i now) s) (\<lambda>s. downgradeUserGroupForSubscriptionTx sub now s))) s))"

definition AdminDeleteUserSubscription :: "int \<Rightarrow> Db \<Rightarrow> (gostr + gostr) \<times> Db" where
  "AdminDeleteUserSubscription i s =
     (if i \<le> 0 then (Inl (js ''invalid userSubscriptionId''), s)
      else
        (let now = db_now s in
         transaction (\<lambda>s.
           bind_db (db_query (find_sub i) s) (\<lambda>r s.
             case r of
               None \<Rightarrow> (Inl NOT_FOUND, s)
             | Some sub \<Rightarrow>
                 bind_db (downgradeUserGroupForSubscriptionTx sub now s) (\<lambda>target s.
                   then_db (db_exec (\<lambda>s. s\<lparr>db_subs := filter (\<lambda>r. us_id r \<noteq> i) (db_subs s)\<rparr>) s)
                     (\<lambda>s. (Inr target, s))))) s))"

definition over :: "int \<Rightarrow> UserSubscription \<Rightarrow> bool" where
  "over now r \<longleftrightarrow> us_status r = ACTIVE \<and> us_endTime r > 0 \<and> us_endTime r \<le> now"

definition expire_rows :: "int \<Rightarrow> int \<Rightarrow> Db \<Rightarrow> Db" where
  "expire_rows userId now s = s\<lparr>db_subs := map (\<lambda>r. if us_userId r = userId \<and> over now r
     then r\<lparr>us_status := EXPIRED, us_updatedAt := db_now s\<rparr> else r) (db_subs s)\<rparr>"

definition last_expired :: "int \<Rightarrow> Db \<Rightarrow> UserSubscription option \<times> Db" where
  "last_expired userId s =
     (case db_query (\<lambda>s. sort_by (\<lambda>a b. ends_before b a)
             (filter (\<lambda>r. us_userId r = userId \<and> us_status r = EXPIRED \<and> us_upgradeGroup r \<noteq> []) (db_subs s))) s of
        (Inr (r # _), s) \<Rightarrow> (Some r, s)
      | (_, s) \<Rightarrow> (None, s))"

definition fall_back :: "int \<Rightarrow> UserSubscription \<Rightarrow> Db \<Rightarrow> (gostr + unit) \<times> Db" where
  "fall_back userId r s =
     (let upgradeGroup = TrimSpace (us_upgradeGroup r); prevGroup = TrimSpace (us_prevUserGroup r) in
      if upgradeGroup = [] \<or> prevGroup = [] then (Inr (), s)
      else bind_db (getUserGroupByIdTx userId s) (\<lambda>currentGroup s.
        if currentGroup \<noteq> upgradeGroup \<or> currentGroup = prevGroup then (Inr (), s)
        else then_db (set_group userId prevGroup s) (\<lambda>s. (Inr (), s))))"

definition expire_user :: "int \<Rightarrow> int \<Rightarrow> Db \<Rightarrow> (gostr + unit) \<times> Db" where
  "expire_user now userId =
     transaction (\<lambda>s.
       then_db (db_exec (expire_rows userId now) s) (\<lambda>s.
         case other_upgrade (\<lambda>r. active_at userId now r \<and> us_upgradeGroup r \<noteq> []) s of
           (found, s) \<Rightarrow>
             if found then (Inr (), s)
             else
               (case last_expired userId s of
                  (None, s) \<Rightarrow> (Inr (), s)
                | (Some r, s) \<Rightarrow> fall_back userId r s)))"

fun expire_users :: "int \<Rightarrow> int list \<Rightarrow> Db \<Rightarrow> gostr option \<times> Db" where
  "expire_users now [] s = (None, s)"
| "expire_users now (u # us) s =
     (case expire_user now u s of (Inl e, s) \<Rightarrow> (Some e, s) | (Inr _, s) \<Rightarrow> expire_users now us s)"

text \<open>
  The users are taken in the order of their first row; the source takes them in no
  fixed order.  The number of rows that expired, which the source also returns, is
  left out.
\<close>

definition ExpireDueSubscriptions :: "int \<Rightarrow> Db \<Rightarrow> gostr option \<times> Db" where
  "ExpireDueSubscriptions limit s =
     (let now = db_now s in
      case db_query (\<lambda>s. take (page_limit limit) (sort_by ends_before (filter (over now) (db_subs s)))) s of
        (Inl e, s) \<Rightarrow> (Some e, s)
      | (Inr subs, s) \<Rightarrow> expire_users now (remdups (filter (\<lambda>u. u > 0) (map us_userId subs))) s)"

subsection \<open>Orders\<close>

definition PURCHASE_LIMIT :: gostr where
  "PURCHASE_LIMIT = [24050, 36798, 21040, 35813, 22871, 39184, 36141, 20080, 19978, 38480]"

definition upgrade_group :: "int \<Rightarrow> gostr \<Rightarrow> Db \<Rightarrow> (gostr + gostr) \<times> Db" where
  "upgrade_group userId g s =
     (if g = [] then (Inr [], s)
      else bind_db (getUserGroupByIdTx userId s) (\<lambda>currentGroup s.
        if currentGroup \<noteq> g then then_db (set_group userId g s) (\<lambda>s. (Inr currentGroup, s)) else (Inr [], s)))"

definition insert_sub :: "UserSubscription \<Rightarrow> Db \<Rightarrow> Db" where
  "insert_sub sub s = s\<lparr>db_subs := db_subs s @ [sub\<lparr>us_id := db_nextSubId s\<rparr>], db_nextSubId := db_nextSubId s + 1\<rparr>"

definition check_limit :: "int \<Rightarrow> SubscriptionPlan \<Rightarrow> Db \<Rightarrow> (gostr + unit) \<times> Db" where
  "check_limit userId plan s =
     (if pl_maxPurchasePerUser plan > 0 then
        bind_db (db_query (\<lambda>s. int (length (filter (\<lambda>r. us_userId r = userId \<and> us_planId r = pl_id plan) (db_subs s)))) s)
          (\<lambda>n s. if n \<ge> pl_maxPurchasePerUser plan then (Inl PURCHASE_LIMIT, s) else (Inr (), s))
      else (Inr (), s))"

definition CreateUserSubscriptionFromPlanTx ::
  "Zone \<Rightarrow> int \<Rightarrow> SubscriptionPlan \<Rightarrow> gostr \<Rightarrow> Db \<Rightarrow> (gostr + unit) \<times> Db" where
  "CreateUserSubscriptionFromPlanTx tz userId plan source s =
     (if pl_id plan = 0 then (Inl (js ''invalid plan''), s)
      else if userId \<le> 0 then (Inl (js ''invalid user id''), s)
      else bind_db (check_limit userId plan s) (\<lambda>_ s.
        (let now = db_now s in
         case calcPlanEndTime tz now plan of
           Inl e \<Rightarrow> (Inl e, s)
         | Inr endUnix \<Rightarrow>
             (let nextReset = calcNextResetTime tz now plan endUnix;
                  lastReset = (if nextReset > 0 then now else 0);
                  upgradeGroup = TrimSpace (pl_upgradeGroup plan) in
              bind_db (upgrade_group userId upgradeGroup s) (\<lambda>prevGroup s.
                then_db (db_exec (insert_sub
                  \<lparr>us_id = 0, us_userId = userId, us_planId = pl_id plan, us_amountTotal = pl_totalAmount plan,
                   us_amountUsed = 0, us_startTime = now, us_endTime = endUnix, us_status = ACTIVE, us_source = source,
                   us_lastResetTime = lastReset, us_nextResetTime = nextReset, us_upgradeGroup = upgradeGroup,
                   us_prevUserGroup = prevGroup, us_createdAt = now, us_updatedAt = now\<rparr>) s) (\<lambda>s. (Inr (), s)))))))"

definition PENDING :: gostr where "PENDING = js ''pending''"
definition SUCCESS :: gostr where "SUCCESS = js ''success''"

definition find_order :: "gostr \<Rightarrow> Db \<Rightarrow> SubscriptionOrder option" where
  "find_order tn s = find (\<lambda>r. or_tradeNo r = tn) (db_orders s)"

definition put_order :: "SubscriptionOrder \<Rightarrow> Db \<Rightarrow> Db" where
  "put_order r s = s\<lparr>db_orders := map (\<lambda>x. if or_tradeNo x = or_tradeNo r then r else x) (db_orders s)\<rparr>"

definition ErrSubscriptionOrderNotFound :: gostr where
  "ErrSubscriptionOrderNotFound = js ''subscription order not found''"

definition ErrSubscriptionOrderStatusInvalid :: gostr where
  "ErrSubscriptionOrderStatusInvalid = js ''subscription order status invalid''"

definition ErrPaymentMethodMismatch :: gostr where
  "ErrPaymentMethodMismatch = js ''payment method mismatch''"

definition put_topup :: "TopUp \<Rightarrow> Db \<Rightarrow> Db" where
  "put_topup r s = s\<lparr>db_topups := map (\<lambda>x. if tu_tradeNo x = tu_tradeNo r then r else x) (db_topups s)\<rparr>"

definition upsertSubscriptionTopUpTx :: "SubscriptionOrder \<Rightarrow> Db \<Rightarrow> (gostr + unit) \<times> Db" where
  "upsertSubscriptionTopUpTx order s =
     (let now = db_now s in
      bind_db (db_query (\<lambda>s. find (\<lambda>r. tu_tradeNo r = or_tradeNo order) (db_topups s)) s) (\<lambda>found s.
        case found of
          None \<Rightarrow>
            then_db (db_exec (\<lambda>s. s\<lparr>db_topups := db_topups s @ [\<lparr>tu_userId = or_userId order, tu_amount = 0,
              tu_money = or_money order, tu_tradeNo = or_tradeNo order, tu_paymentMethod = or_paymentMethod order,
              tu_createTime = or_createTime order, tu_completeTime = now, tu_status = SUCCESS\<rparr>]\<rparr>) s) (\<lambda>s. (Inr (), s))
        | Some topup \<Rightarrow>
            if tu_paymentMethod topup \<noteq> [] \<and> tu_paymentMethod topup \<noteq> or_paymentMethod order
            then (Inl ErrPaymentMethodMismatch, s)
            else
              then_db (db_exec (put_topup (topup\<lparr>tu_money := or_money order, tu_paymentMethod := or_paymentMethod order,
                tu_createTime := (if tu_createTime topup = 0 then or_createTime order else tu_createTime topup),
                tu_completeTime := now, tu_status := SUCCESS\<rparr>)) s) (\<lambda>s. (Inr (), s))))"

definition locked_order :: "gostr \<Rightarrow> gostr \<Rightarrow> Db \<Rightarrow> (gostr + SubscriptionOrder) \<times> Db" where
  "locked_order tradeNo expectedPaymentProvider s =
     (case db_query (find_order tradeNo) s of
        (Inr (Some order), s) \<Rightarrow>
          if expectedPaymentProvider \<noteq> [] \<and> or_paymentProvider order \<noteq> expectedPaymentProvider
          then (Inl ErrPaymentMethodMismatch, s) else (Inr order, s)
      | (_, s) \<Rightarrow> (Inl ErrSubscriptionOrderNotFound, s))"

definition completed :: "gostr \<Rightarrow> gostr \<Rightarrow> int \<Rightarrow> SubscriptionOrder \<Rightarrow> SubscriptionOrder" where
  "completed providerPayload actualPaymentMethod now order =
     order\<lparr>or_status := SUCCESS, or_completeTime := now,
       or_providerPayload := (if providerPayload \<noteq> [] then providerPayload else or_providerPayload order),
       or_paymentMethod := (if actualPaymentMethod \<noteq> [] \<and> or_paymentMethod order \<noteq> actualPaymentMethod
         then actualPaymentMethod else or_paymentMethod order)\<rparr>"

definition finish_order ::
  "Zone \<Rightarrow> (int \<Rightarrow> SubscriptionPlan option) \<Rightarrow> gostr \<Rightarrow> gostr \<Rightarrow> SubscriptionOrder \<Rightarrow> Db \<Rightarrow> (gostr + unit) \<times> Db" where
  "finish_order tz pc providerPayload actualPaymentMethod order s =
     bind_db (getSubscriptionPlanByIdTx pc (or_planId order) s) (\<lambda>plan s.
     bind_db (CreateUserSubscriptionFromPlanTx tz (or_userId order) plan (js ''order'') s) (\<lambda>_ s.
     bind_db (upsertSubscriptionTopUpTx order s) (\<lambda>_ s.
       then_db (db_exec (put_order (completed providerPayload actualPaymentMethod (db_now s) order)) s) (\<lambda>s. (Inr (), s)))))"

definition CompleteSubscriptionOrder ::
  "Zone \<Rightarrow> (int \<Rightarrow> SubscriptionPlan option) \<Rightarrow> gostr \<Rightarrow> gostr \<Rightarrow> gostr \<Rightarrow> gostr \<Rightarrow> Db \<Rightarrow> (gostr + unit) \<times> Db" where
  "CompleteSubscriptionOrder tz pc tradeNo providerPayload expectedPaymentProvider actualPaymentMethod s =
     (if tradeNo = [] then (Inl (js ''tradeNo is empty''), s)
      else
        transaction (\<lambda>s.
          bind_db (locked_order tradeNo expectedPaymentProvider s) (\<lambda>order s.
            if or_status order = SUCCESS then (Inr (), s)
            else if or_status order \<noteq> PENDING then (Inl ErrSubscriptionOrderStatusInvalid, s)
            else finish_order tz pc providerPayload actualPaymentMethod order s)) s)"

definition ExpireSubscriptionOrder :: "gostr \<Rightarrow> gostr \<Rightarrow> Db \<Rightarrow> (gostr + unit) \<times> Db" where
  "ExpireSubscriptionOrder tradeNo expectedPaymentProvider s =
     (if tradeNo = [] then (Inl (js ''tradeNo is empty''), s)
      else
        transaction (\<lambda>s.
          bind_db (locked_order tradeNo expectedPaymentProvider s) (\<lambda>order s.
            if or_status order \<noteq> PENDING then (Inr (), s)
            else then_db (db_exec (put_order (order\<lparr>or_status := EXPIRED, or_completeTime := db_now s\<rparr>)) s)
                   (\<lambda>s. (Inr (), s)))) s)"

definition AdminBindSubscription ::
  "Zone \<Rightarrow> (int \<Rightarrow> SubscriptionPlan option) \<Rightarrow> int \<Rightarrow> int \<Rightarrow> Db \<Rightarrow> (gostr + unit) \<times> Db" where
  "AdminBindSubscription tz pc userId planId s =
     (if userId \<le> 0 \<or> planId \<le> 0 then (Inl (js ''invalid userId or planId''), s)
      else bind_db (getSubscriptionPlanByIdTx pc planId s) (\<lambda>plan s.
        transaction (CreateUserSubscriptionFromPlanTx tz userId plan (js ''admin'')) s))"

end
