(* ===== verification/SubscriptionLaws.thy ===== *)
theory SubscriptionLaws
  imports Subscription
begin

text \<open>
  Properties of subscriptions: the reset loop ends, the used amount stays within the
  total over every sequence of operations and failures, a paid order creates one
  subscription, and consumption is counted once per request.
\<close>

subsection \<open>The reset loop\<close>

text \<open>A custom period whose length in nanoseconds fits 64 bits.\<close>

definition plan_ok :: "SubscriptionPlan \<Rightarrow> bool" where
  "plan_ok plan \<longleftrightarrow> NormalizeResetPeriod (pl_quotaResetPeriod plan) \<noteq> SubscriptionResetCustom \<or>
     pl_quotaResetCustomSeconds plan \<le> 9223372036"

context calendar
begin

lemma next_after:
  assumes "DAY \<le> base" and "plan_ok plan" and "period = NormalizeResetPeriod (pl_quotaResetPeriod plan)"
    and "next_of_period tz base plan period = Some n"
  shows "base < n"
  using assms next_day [OF assms(1), of 1] next_monday [OF assms(1)] next_month [OF assms(1)]
  by (auto simp: next_of_period_def plan_ok_def Let_def add_unix_seconds split: if_splits)

lemma next_reset:
  "DAY \<le> base \<Longrightarrow> plan_ok plan \<Longrightarrow> calcNextResetTime tz base plan e = 0 \<or> base < calcNextResetTime tz base plan e"
  using next_after [OF _ _ refl] by (auto simp: calcNextResetTime_def split: option.splits)

lemma loop_ends:
  assumes "DAY \<le> base" and "plan_ok plan" and "nat (now - base) < fuel"
    and "nxt = calcNextResetTime tz base plan e"
  shows "\<exists>b n a. reset_loop fuel tz plan e now base nxt adv = Some (b, n, a) \<and> (n = 0 \<or> now < n)"
  using assms(1,3,4)
proof (induction fuel arbitrary: base nxt adv)
  case (Suc fuel)
  have n: "nxt = 0 \<or> base < nxt" using next_reset Suc.prems(1,3) assms(2) by simp
  show ?case
  proof (cases "nxt > 0 \<and> nxt \<le> now")
    case True
    then have "base < nxt" using n by auto
    then have "nat (now - nxt) < fuel" using Suc.prems(2) True by linarith
    then show ?thesis using Suc.IH [of nxt] True \<open>base < nxt\<close> Suc.prems(1) by simp
  next
    case False
    then show ?thesis using n Suc.prems(1) by (auto simp: DAY_def)
  qed
qed simp

end

lemma then_db_simps [simp]: "then_db (None, s) f = f s" "then_db (Some e, s) f = (Inl e, s)"
  by (simp_all add: then_db_def)

lemma bind_db_simps [simp]: "bind_db (Inr a, s) f = f a s" "bind_db (Inl e, s) f = (Inl e, s)"
  by (simp_all add: bind_db_def)

text \<open>
  C21: Bringing a subscription up to date ends for every plan whose custom period fits
  64 bits of nanoseconds, however long ago the last reset was: the used amount is
  either kept or set to zero, and when it is set to zero the next reset is in the
  future or there is none.
\<close>

theorem reset_terminates:
  assumes "quiet s" and "plan_ok plan" and "DAY \<le> us_startTime sub" and "us_lastResetTime sub \<le> 0 \<or> DAY \<le> us_lastResetTime sub"
  shows "\<exists>sub' s'. maybeResetUserSubscriptionWithPlanTx (zone_at off) sub plan now s = (Inr sub', s') \<and>
     (us_amountUsed sub' = us_amountUsed sub \<or>
      us_amountUsed sub' = 0 \<and> (us_nextResetTime sub' = 0 \<or> now < us_nextResetTime sub'))"
proof -
  let ?b = "if us_lastResetTime sub \<le> 0 then us_startTime sub else us_lastResetTime sub"
  have b: "DAY \<le> ?b" using assms(3,4) by auto
  then have "nat (now - ?b) < nat now + 2" by (auto simp: DAY_def)
  then obtain base n a where "reset_loop (nat now + 2) (zone_at off) plan (us_endTime sub) now ?b
      (calcNextResetTime (zone_at off) ?b plan (us_endTime sub)) False = Some (base, n, a)" "n = 0 \<or> now < n"
    using fz.loop_ends [OF b assms(2) _ refl] by blast
  then show ?thesis
    using assms(1) by (auto simp: maybeResetUserSubscriptionWithPlanTx_def Let_def save_sub_def simp del: reset_loop.simps)
qed

definition sample_plan :: SubscriptionPlan where
  "sample_plan = \<lparr>pl_id = 3, pl_title = [], pl_durationUnit = js ''month'', pl_durationValue = 1, pl_customSeconds = 0,
     pl_maxPurchasePerUser = 0, pl_upgradeGroup = [], pl_totalAmount = 100, pl_quotaResetPeriod = js ''daily'',
     pl_quotaResetCustomSeconds = 0\<rparr>"

definition sample_sub :: UserSubscription where
  "sample_sub = \<lparr>us_id = 5, us_userId = 1, us_planId = 3, us_amountTotal = 100, us_amountUsed = 80, us_startTime = 1700000000,
     us_endTime = 1800000000, us_status = ACTIVE, us_source = [], us_lastResetTime = 0, us_nextResetTime = 0,
     us_upgradeGroup = [], us_prevUserGroup = [], us_createdAt = 0, us_updatedAt = 0\<rparr>"

theorem reset_terminates_witness:
  "\<exists>sub' s'. maybeResetUserSubscriptionWithPlanTx (zone_at 25200) sample_sub sample_plan 1710000000 sample_db = (Inr sub', s')"
proof -
  have "quiet sample_db" "plan_ok sample_plan" "DAY \<le> us_startTime sample_sub" "us_lastResetTime sample_sub \<le> 0"
    by (code_simp, code_simp, code_simp, code_simp)
  from reset_terminates [OF this(1-3) disjI1 [OF this(4)], of 25200 1710000000] show ?thesis by blast
qed

text \<open>
  C23: A custom period of \<open>2 ^ 55\<close> seconds passes the admin check, yet its length in
  nanoseconds wraps to zero: once it is due the loop does not end, whatever the
  number of iterations.
\<close>

theorem reset_never_ends:
  assumes "NormalizeResetPeriod (pl_quotaResetPeriod plan) = SubscriptionResetCustom"
    and "pl_quotaResetCustomSeconds plan = 2 ^ 55" and "0 < base" and "base \<le> now" and "base \<le> e"
  shows "reset_loop fuel tz plan e now base (calcNextResetTime tz base plan e) adv = None"
proof -
  have d: "wrap64 (36028797018963968 * SECOND) = 0" by (simp add: wrap64_def SECOND_def)
  have "next_of_period tz base plan SubscriptionResetCustom = Some base"
    using assms(2) by (simp add: next_of_period_def d add_unix_def SubscriptionResetDaily_def SubscriptionResetWeekly_def
        SubscriptionResetMonthly_def SubscriptionResetCustom_def)
  then have c: "calcNextResetTime tz base plan e = base"
    using assms(1,5) by (simp add: calcNextResetTime_def)
  show ?thesis using assms(3,4) c by (induction fuel arbitrary: adv) simp_all
qed

theorem reset_never_ends_witness:
  "reset_loop 1000 (zone_at 0) (sample_plan\<lparr>pl_quotaResetPeriod := js ''custom'', pl_quotaResetCustomSeconds := 2 ^ 55\<rparr>)
     1800000000 1710000000 1700000000
     (calcNextResetTime (zone_at 0) 1700000000 (sample_plan\<lparr>pl_quotaResetPeriod := js ''custom'',
        pl_quotaResetCustomSeconds := 2 ^ 55\<rparr>) 1800000000) False = None"
proof -
  have "NormalizeResetPeriod (js ''custom'') = SubscriptionResetCustom" by code_simp
  then show ?thesis by (intro reset_never_ends) simp_all
qed

subsection \<open>Invariants of the tables\<close>

text \<open>What a property of the tables needs to be kept by requests and transactions.\<close>

locale db_invariant =
  fixes I :: "Db \<Rightarrow> bool"
  assumes faults: "I (s\<lparr>db_faults := fs\<rparr>) = I s"
begin

lemma asked: "I (asked s) = I s"
  by (simp add: asked_def faults)

lemma exec: "I s \<Longrightarrow> (\<And>t. I t \<Longrightarrow> I (f t)) \<Longrightarrow> I (snd (db_exec f s))"
  by (simp add: db_exec_def asked split: option.splits)

lemma query: "I (snd (db_query f s)) = I s"
  by (simp add: db_query_def asked split: option.splits)

lemma query_cases:
  assumes "db_query f s = (r, s')"
  shows "I s' = I s"
  using query [of f s] assms by simp

lemma bind:
  "I (snd r) \<Longrightarrow> (\<And>a s. r = (Inr a, s) \<Longrightarrow> I s \<Longrightarrow> I (snd (f a s))) \<Longrightarrow> I (snd (bind_db r f))"
  by (cases r) (auto simp: bind_db_def split: sum.splits)

lemma and_then: "I (snd r) \<Longrightarrow> (\<And>s. I s \<Longrightarrow> I (snd (f s))) \<Longrightarrow> I (snd (then_db r f))"
  by (cases r) (auto simp: then_db_def split: option.splits)

lemma tx:
  assumes "I s" and "\<And>a s'. body s = (Inr a, s') \<Longrightarrow> I s'"
  shows "I (snd (transaction body s))"
  using assms by (auto simp: transaction_def faults asked split: prod.splits sum.splits option.splits)

lemma tx_keep:
  assumes "I s" and "\<And>s. I s \<Longrightarrow> I (snd (body s))"
  shows "I (snd (transaction body s))"
  using assms(2) [OF assms(1)] by (intro tx [OF assms(1)]) (metis snd_conv)

lemma error: "I (snd (error_of r)) = I (snd r)"
  by (cases r) (simp add: error_of_def split: sum.splits)

end

subsection \<open>Properties of every row\<close>

text \<open>
  A property of the rows of a table of subscriptions, of the plans and of the amounts
  in the records of consumption.
\<close>

definition tables :: "(UserSubscription \<Rightarrow> bool) \<Rightarrow> (SubscriptionPlan \<Rightarrow> bool) \<Rightarrow> (int \<Rightarrow> bool) \<Rightarrow> Db \<Rightarrow> bool" where
  "tables ok pok aok s \<longleftrightarrow>
     list_all ok (db_subs s) \<and> list_all pok (db_plans s) \<and> list_all (\<lambda>r. aok (pr_preConsumed r)) (db_records s)"

lemma find_in: "find P xs = Some x \<Longrightarrow> x \<in> set xs \<and> P x"
  by (auto simp: find_Some_iff)

lemma query_value: "db_query f s = (Inr a, s') \<Longrightarrow> a = f s"
  by (simp add: db_query_def split: option.splits)

lemma then_value: "then_db r (\<lambda>s. (Inr x, s)) = (Inr a, s') \<Longrightarrow> a = x"
  by (auto simp: then_db_def split: prod.splits option.splits)

text \<open>
  Such a property depends on the two amounts of a row alone, and holds of a row whose
  used amount is cleared and of a new row.
\<close>

locale rows_invariant =
  fixes ok :: "UserSubscription \<Rightarrow> bool" and pok :: "SubscriptionPlan \<Rightarrow> bool" and aok :: "int \<Rightarrow> bool"
  assumes amounts: "us_amountUsed r' = us_amountUsed r \<Longrightarrow> us_amountTotal r' = us_amountTotal r \<Longrightarrow> ok r' = ok r"
    and cleared: "ok r \<Longrightarrow> us_amountUsed r' = 0 \<Longrightarrow> us_amountTotal r' = us_amountTotal r \<Longrightarrow> ok r'"
    and fresh: "pok plan \<Longrightarrow> us_amountUsed r = 0 \<Longrightarrow> us_amountTotal r = pl_totalAmount plan \<Longrightarrow> ok r"

sublocale rows_invariant \<subseteq> db: db_invariant "tables ok pok aok"
  by unfold_locales (simp add: tables_def)

context rows_invariant
begin

abbreviation "T \<equiv> tables ok pok aok"

lemma same_amounts [simp]:
  "ok (r\<lparr>us_updatedAt := x\<rparr>) = ok r" "ok (r\<lparr>us_nextResetTime := x\<rparr>) = ok r" "ok (r\<lparr>us_lastResetTime := x\<rparr>) = ok r"
  "ok (r\<lparr>us_status := st\<rparr>) = ok r" "ok (r\<lparr>us_endTime := x\<rparr>) = ok r" "ok (r\<lparr>us_id := x\<rparr>) = ok r"
  by (rule amounts, simp, simp)+

lemma cleared_row: "ok r \<Longrightarrow> ok (r\<lparr>us_amountUsed := 0, us_lastResetTime := x, us_nextResetTime := y\<rparr>)"
  by (rule cleared) simp_all

lemma found_kept: "T s \<Longrightarrow> find_sub i s = Some r \<Longrightarrow> ok r"
  using find_in by (fastforce simp: tables_def find_sub_def list_all_iff)

lemma put_kept: "ok sub \<Longrightarrow> T s \<Longrightarrow> T (put_sub sub s)"
  by (auto simp: tables_def put_sub_def list_all_iff)

lemma save_kept: "ok sub \<Longrightarrow> T s \<Longrightarrow> T (snd (save_sub sub s))"
  unfolding save_sub_def by (rule db.exec) (simp_all add: put_kept)

lemma plan_kept: "T (snd (getSubscriptionPlanByIdTx pc i s)) = T s"
  by (auto simp: getSubscriptionPlanByIdTx_def bind_db_def db_query_def db.asked split: option.splits)

lemma plan_found:
  assumes "T s" and "\<And>i p. pc i = Some p \<Longrightarrow> pok p" and "getSubscriptionPlanByIdTx pc i s = (Inr plan, t)"
  shows "pok plan"
proof -
  have "pc i = Some plan \<or> find (\<lambda>p. pl_id p = i) (db_plans s) = Some plan"
    using assms(3) by (auto simp: getSubscriptionPlanByIdTx_def bind_db_def db_query_def split: if_splits option.splits)
  then show ?thesis
    using assms(1,2) find_in [of "\<lambda>p. pl_id p = i" "db_plans s" plan] by (auto simp: tables_def list_all_iff)
qed

lemma reset_row:
  assumes "maybeResetUserSubscriptionWithPlanTx tz sub plan now s = (Inr sub', s')" and "ok sub"
  shows "ok sub'"
  using assms
  by (auto simp: maybeResetUserSubscriptionWithPlanTx_def Let_def split: if_splits option.splits
      simp del: reset_loop.simps dest!: then_value intro: cleared_row)

lemma reset_kept:
  assumes "T s" and "ok sub"
  shows "T (snd (maybeResetUserSubscriptionWithPlanTx tz sub plan now s))"
proof -
  have "T (snd (then_db (save_sub sub' s) (\<lambda>s. (Inr sub', s))))" if "ok sub'" for sub'
    using save_kept [OF that assms(1)] by (intro db.and_then) simp_all
  then show ?thesis
    using assms cleared_row by (simp add: maybeResetUserSubscriptionWithPlanTx_def Let_def split: option.splits del: reset_loop.simps)
qed

lemma reset_one_kept:
  assumes "T s"
  shows "T (snd (reset_one tz plan i now s))"
  unfolding reset_one_def
proof (rule db.tx_keep [OF assms])
  fix t
  assume t: "T t"
  obtain r u where q: "db_query (\<lambda>s. find (\<lambda>r. us_id r = i \<and> due now r) (db_subs s)) t = (r, u)" by fastforce
  have u: "T u" using db.query_cases [OF q] t by simp
  have "ok sub" if "r = Inr (Some sub)" for sub
  proof -
    have "find (\<lambda>r. us_id r = i \<and> due now r) (db_subs t) = Some sub" using query_value [OF q [unfolded that]] by simp
    then show ?thesis using find_in [of _ "db_subs t"] t by (auto simp: tables_def list_all_iff)
  qed
  then have "T (snd (bind_db (maybeResetUserSubscriptionWithPlanTx tz sub plan now u) (\<lambda>_ s. (Inr True, s))))"
    if "r = Inr (Some sub)" for sub
    using that reset_kept [OF u] by (intro db.bind) simp_all
  then show "T (snd (reset_locked tz plan i now t))"
    using q u by (auto simp: reset_locked_def split: sum.splits option.splits)
qed

lemma created_kept:
  assumes "T s" and "\<And>t. T t \<Longrightarrow> list_all (\<lambda>r. aok (pr_preConsumed r)) (f t)"
  shows "T (snd (db_exec (\<lambda>s. s\<lparr>db_records := f s\<rparr>) s))"
  using assms by (intro db.exec) (simp_all add: tables_def)

lemma mark_kept: "T s \<Longrightarrow> aok (pr_preConsumed rec) \<Longrightarrow> T (snd (mark_refunded rec s))"
  by (auto simp: mark_refunded_def db_exec_def asked_def tables_def put_record_def list_all_iff split: option.splits)

lemma reset_all_kept:
  "T s \<Longrightarrow> T (snd (reset_all tz pc now subs n s))"
proof (induction subs arbitrary: n s)
  case (Cons sub subs)
  obtain r t where p: "getSubscriptionPlanByIdTx pc (us_planId sub) s = (r, t)" by fastforce
  have t: "T t" using plan_kept [of pc "us_planId sub" s] p Cons.prems by simp
  have "T u" if "reset_one tz plan (us_id sub) now t = (q, u)" for plan q u
    using reset_one_kept [OF t, of tz plan "us_id sub" now] that by simp
  then show ?case using Cons.IH p t by (auto simp: Let_def split: sum.splits prod.splits)
qed simp

lemma reset_due_kept:
  assumes "T s"
  shows "T (snd (ResetDueSubscriptions tz pc limit s))"
proof -
  have "T t" if "db_query f s = (r, t)" for f :: "Db \<Rightarrow> UserSubscription list" and r t
    using that db.query_cases assms by metis
  then show ?thesis
    using reset_all_kept by (auto simp: ResetDueSubscriptions_def Let_def split: sum.splits prod.splits)
qed

lemma update_user_kept: "T s \<Longrightarrow> T (snd (update_user i f s))"
  unfolding update_user_def by (rule db.exec) (simp_all add: tables_def)

lemma group_kept: "T (snd (getUserGroupByIdTx i s)) = T s"
  by (simp add: getUserGroupByIdTx_def db.query)

lemma set_group_kept: "T s \<Longrightarrow> T (snd (then_db (set_group i g s) (\<lambda>s. (Inr x, s))))"
  using update_user_kept by (intro db.and_then) (simp_all add: set_group_def)

lemma other_kept: "other_upgrade P s = (b, t) \<Longrightarrow> T t = T s"
  using db.query [of "\<lambda>s. list_ex P (db_subs s)" s] by (auto simp: other_upgrade_def split: prod.splits sum.splits)

lemma downgrade_kept:
  assumes "T s"
  shows "T (snd (downgradeUserGroupForSubscriptionTx sub now s))"
  unfolding downgradeUserGroupForSubscriptionTx_def Let_def
  using assms by (auto intro!: db.bind set_group_kept simp: group_kept other_kept split: prod.splits)

lemma rows_kept:
  assumes "T s" and "\<And>r. ok r \<Longrightarrow> ok (g r)"
  shows "T (s\<lparr>db_subs := map g (db_subs s)\<rparr>)"
  using assms by (auto simp: tables_def list_all_iff)

lemma invalidate_kept:
  assumes "T s"
  shows "T (snd (AdminInvalidateUserSubscription i s))"
proof -
  have "T (snd (db_exec (end_sub i now) t))" if "T t" for now t
    using that unfolding end_sub_def by (intro db.exec rows_kept) simp_all
  then show ?thesis
    unfolding AdminInvalidateUserSubscription_def Let_def
    using assms by (auto intro!: db.tx_keep db.bind db.and_then downgrade_kept simp: db.query split: option.splits)
qed

lemma delete_kept:
  assumes "T s"
  shows "T (snd (AdminDeleteUserSubscription i s))"
proof -
  have "T (snd (db_exec (\<lambda>s. s\<lparr>db_subs := filter P (db_subs s)\<rparr>) t))" if "T t" for P t
    using that by (intro db.exec) (auto simp: tables_def list_all_iff)
  then show ?thesis
    unfolding AdminDeleteUserSubscription_def Let_def
    using assms by (auto intro!: db.tx_keep db.bind db.and_then downgrade_kept simp: db.query split: option.splits)
qed

lemma last_kept: "last_expired u s = (r, t) \<Longrightarrow> T t = T s"
  unfolding last_expired_def by (auto split: prod.splits sum.splits list.splits dest: db.query_cases)

lemma expire_user_kept:
  assumes "T s"
  shows "T (snd (expire_user now u s))"
proof -
  have "T (snd (db_exec (expire_rows u now) t))" if "T t" for t
    using that unfolding expire_rows_def by (intro db.exec rows_kept) simp_all
  moreover have "T (snd (fall_back u r t))" if "T t" for r t
    unfolding fall_back_def Let_def using that by (auto intro!: db.bind set_group_kept simp: group_kept)
  ultimately show ?thesis
    unfolding expire_user_def using assms
    by (auto intro!: db.tx_keep db.and_then split: prod.splits option.splits simp: other_kept last_kept)
qed

lemma expire_due_kept:
  assumes "T s"
  shows "T (snd (ExpireDueSubscriptions limit s))"
proof -
  have e: "T t \<Longrightarrow> T (snd (expire_users now us t))" for now us t
  proof (induction us arbitrary: t)
    case (Cons u us)
    then show ?case using expire_user_kept [of t now u] by (auto split: prod.splits sum.splits)
  qed simp
  have "T t" if "db_query f s = (r, t)" for f :: "Db \<Rightarrow> UserSubscription list" and r t
    using that db.query_cases assms by metis
  then show ?thesis using e by (auto simp: ExpireDueSubscriptions_def Let_def split: sum.splits prod.splits)
qed

lemma create_kept:
  assumes "T s" and "pok plan"
  shows "T (snd (CreateUserSubscriptionFromPlanTx tz u plan src s))"
proof -
  have i: "T (snd (db_exec (insert_sub sub) t))" if "T t" "us_amountUsed sub = 0" "us_amountTotal sub = pl_totalAmount plan" for sub t
    using that fresh [OF assms(2)] by (intro db.exec) (auto simp: insert_sub_def tables_def)
  have g: "T (snd (upgrade_group u g t))" if "T t" for g t
    unfolding upgrade_group_def using that by (auto intro!: db.bind set_group_kept simp: group_kept)
  have c: "T (snd (check_limit u plan t))" if "T t" for t
    unfolding check_limit_def using that by (auto intro!: db.bind simp: db.query)
  show ?thesis
    unfolding CreateUserSubscriptionFromPlanTx_def Let_def
    using assms by (auto intro!: db.bind c g i db.and_then split: sum.splits)
qed

lemma locked_kept: "T (snd (locked_order tn p s)) = T s"
  using db.query [of "find_order tn" s] by (auto simp: locked_order_def split: prod.splits sum.splits option.splits)

lemma order_kept: "T s \<Longrightarrow> T (snd (db_exec (put_order r) s))"
  by (rule db.exec) (simp_all add: put_order_def tables_def)

lemma topup_kept: "T (s\<lparr>db_topups := ts\<rparr>) = T s" "T (put_topup r s) = T s"
  by (simp_all add: put_topup_def tables_def)

lemma upsert_kept: "T s \<Longrightarrow> T (snd (upsertSubscriptionTopUpTx r s))"
  unfolding upsertSubscriptionTopUpTx_def Let_def
  by (auto intro!: db.bind db.and_then db.exec simp: db.query topup_kept split: option.splits)

lemma complete_kept:
  assumes "T s" and "\<And>i p. pc i = Some p \<Longrightarrow> pok p"
  shows "T (snd (CompleteSubscriptionOrder tz pc tn pl ep am s))"
  unfolding CompleteSubscriptionOrder_def finish_order_def
  using assms(1) plan_found [OF _ assms(2)]
  by (auto intro!: db.tx_keep db.bind db.and_then create_kept upsert_kept order_kept simp: locked_kept plan_kept)

lemma expire_order_kept: "T s \<Longrightarrow> T (snd (ExpireSubscriptionOrder tn ep s))"
  unfolding ExpireSubscriptionOrder_def
  by (auto intro!: db.tx_keep db.bind db.and_then order_kept simp: locked_kept)

lemma bind_kept:
  assumes "T s" and "\<And>i p. pc i = Some p \<Longrightarrow> pok p"
  shows "T (snd (AdminBindSubscription tz pc u pl s))"
  unfolding AdminBindSubscription_def
  using assms(1) plan_found [OF _ assms(2)] by (auto intro!: db.tx_keep db.bind create_kept simp: plan_kept)

lemma cleanup_kept: "T s \<Longrightarrow> T (snd (CleanupSubscriptionPreConsumeRecords n s))"
  unfolding CleanupSubscriptionPreConsumeRecords_def Let_def
  by (rule created_kept) (auto simp: tables_def list_all_iff)

end

text \<open>
  The step that takes or moves the amount \<open>a\<close>, from one property of the rows to another:
  the sums are those of 64-bit integers.
\<close>

locale rows_step = before: rows_invariant ok pok aok + after: rows_invariant ok' pok aok for ok ok' pok aok +
  fixes a :: int
  assumes weaken: "ok r \<Longrightarrow> ok' r"
    and taken_row: "ok r \<Longrightarrow> 0 < a \<Longrightarrow> \<not> (us_amountTotal r > 0 \<and> wrap64 (us_amountTotal r - us_amountUsed r) < a) \<Longrightarrow>
      ok' (r\<lparr>us_amountUsed := wrap64 (us_amountUsed r + a)\<rparr>)"
    and moved_row: "ok r \<Longrightarrow> \<not> (us_amountTotal r > 0 \<and> max 0 (wrap64 (us_amountUsed r + a)) > us_amountTotal r) \<Longrightarrow>
      ok' (r\<lparr>us_amountUsed := max 0 (wrap64 (us_amountUsed r + a))\<rparr>)"
    and recorded: "0 < a \<Longrightarrow> aok a"
begin

lemma weaken_tables: "before.T s \<Longrightarrow> after.T s"
  using weaken by (auto simp: tables_def list_all_iff)

lemma consume_kept:
  assumes "before.T s" and "ok sub" and "0 < a"
    and "\<not> (us_amountTotal sub > 0 \<and> wrap64 (us_amountTotal sub - us_amountUsed sub) < a)"
  shows "after.T (snd (consume_sub rid uid a sub s))"
proof -
  let ?sub = "sub\<lparr>us_amountUsed := wrap64 (us_amountUsed sub + a)\<rparr>"
  let ?rec = "\<lambda>s. \<lparr>pr_requestId = rid, pr_userId = uid, pr_userSubscriptionId = us_id sub, pr_preConsumed = a,
      pr_status = CONSUMED, pr_createdAt = db_now s, pr_updatedAt = db_now s\<rparr>"
  have w: "ok' ?sub" using taken_row [OF assms(2-4)] .
  note t = weaken_tables [OF assms(1)]
  have "after.T (snd (then_db (save_sub ?sub u) (\<lambda>s. (Inr (pre_result ?sub a (us_amountUsed sub)), s))))" if "after.T u" for u
    using after.save_kept [OF w that] by (intro after.db.and_then) simp_all
  moreover have "after.T u" if "db_exec (\<lambda>t. t\<lparr>db_records := db_records t @ [?rec s]\<rparr>) s = (r, u)" for r u
    using after.created_kept [OF t, of "\<lambda>t. db_records t @ [?rec s]"] recorded [OF assms(3)] that by (simp add: tables_def)
  moreover have "after.T v" if "db_query g u = (r, v)" "after.T u" for g :: "Db \<Rightarrow> SubscriptionPreConsumeRecord option" and r u v
    using that after.db.query_cases by metis
  ultimately show ?thesis
    using t after.db.asked [of s]
    by (fastforce simp: consume_sub_def Let_def split: prod.splits sum.splits option.splits if_splits)
qed

lemma try_kept:
  assumes "before.T s" and "0 < a" and "list_all ok subs"
  shows "after.T (snd (try_subs tz pc rid uid a now subs s))"
  using assms(1,3)
proof (induction subs arbitrary: s)
  case (Cons c cs)
  show ?case
    unfolding try_subs.simps
  proof (intro after.db.bind)
    show "after.T (snd (getSubscriptionPlanByIdTx pc (us_planId c) s))"
      using weaken_tables [OF Cons.prems(1)] by (simp add: after.plan_kept)
  next
    fix plan t
    assume "getSubscriptionPlanByIdTx pc (us_planId c) s = (Inr plan, t)"
    then have t: "before.T t" using before.plan_kept [of pc "us_planId c" s] Cons.prems(1) by simp
    have r: "before.T (snd (maybeResetUserSubscriptionWithPlanTx tz c plan now t))"
      using before.reset_kept [OF t] Cons.prems(2) by simp
    then show "after.T (snd (maybeResetUserSubscriptionWithPlanTx tz c plan now t))" by (rule weaken_tables)
    fix sub u
    assume u: "maybeResetUserSubscriptionWithPlanTx tz c plan now t = (Inr sub, u)"
    then have "ok sub" "before.T u" using before.reset_row r Cons.prems(2) by auto
    then show "after.T (snd (if us_amountTotal sub > 0 \<and> wrap64 (us_amountTotal sub - us_amountUsed sub) < a
        then try_subs tz pc rid uid a now cs u else consume_sub rid uid a sub u))"
      using Cons.IH [of u] Cons.prems(2) consume_kept [of u sub] assms(2) by simp
  qed
qed (simp add: weaken_tables)

lemma choose_kept:
  assumes "0 < a" and "before.T t"
  shows "after.T (snd (case db_query (\<lambda>s. sort_by ends_before (filter P (db_subs s))) t of
      (Inl _, s) \<Rightarrow> (Inl NO_ACTIVE, s)
    | (Inr subs, s) \<Rightarrow> if subs = [] then (Inl NO_ACTIVE, s) else try_subs tz pc rid uid a now subs s))"
proof -
  let ?q = "\<lambda>s. sort_by ends_before (filter P (db_subs s))"
  obtain r u where q: "db_query ?q t = (r, u)" by fastforce
  have u: "before.T u" using before.db.query_cases [OF q] assms(2) by simp
  show ?thesis
  proof (cases r)
    case (Inr subs)
    then have "subs = ?q t" using query_value [OF q [unfolded Inr]] by simp
    then have "list_all ok subs" using assms(2) by (auto simp: tables_def list_all_iff)
    then show ?thesis using q Inr u weaken_tables [OF u] try_kept [OF u assms(1)] by simp
  qed (use q weaken_tables [OF u] in simp)
qed

lemma body_kept:
  assumes "before.T s" and "after.T (snd (body s))"
  shows "after.T (snd (transaction body s))"
  using assms(2) by (intro after.db.tx [OF weaken_tables [OF assms(1)]]) (metis snd_conv)

lemma pre_kept:
  assumes "before.T s"
  shows "after.T (snd (PreConsumeUserSubscription tz pc rid uid a s))"
proof (cases "0 < a")
  case True
  have q: "before.T t" if "db_query (find_record rid) s = (r, t)" for r t using before.db.query_cases [OF that] assms by simp
  show ?thesis
    unfolding PreConsumeUserSubscription_def Let_def
    using weaken_tables [OF assms] choose_kept [OF True] q
    by (auto intro!: body_kept [OF assms] after.db.bind simp: after.db.query split: option.split)
qed (use weaken_tables [OF assms] in \<open>simp add: PreConsumeUserSubscription_def\<close>)

lemma post_kept:
  assumes "before.T s"
  shows "after.T (snd (PostConsumeUserSubscriptionDelta i a s))"
proof -
  have "after.T (snd (then_db (save_sub (sub\<lparr>us_amountUsed := max 0 (wrap64 (us_amountUsed sub + a))\<rparr>) t) (\<lambda>s. (Inr (), s))))"
    if "after.T t" "ok sub" "\<not> (us_amountTotal sub > 0 \<and> max 0 (wrap64 (us_amountUsed sub + a)) > us_amountTotal sub)" for sub t
    using after.save_kept [OF moved_row [OF that(2,3)] that(1)] by (intro after.db.and_then) simp_all
  moreover have "ok sub" if "db_query (find_sub i) s = (Inr (Some sub), t)" for sub t
    using query_value [OF that] before.found_kept [OF assms] by simp
  ultimately show ?thesis
    unfolding PostConsumeUserSubscriptionDelta_def Let_def
    using weaken_tables [OF assms]
    by (auto intro!: body_kept [OF assms] after.db.bind simp: after.db.query after.db.error split: option.splits)
qed

end

text \<open>A refund moves the negated amount of a record.\<close>

lemma refund_kept:
  assumes "\<And>x. aok x \<Longrightarrow> 0 < x \<Longrightarrow> rows_step ok ok pok aok (- x)" and "rows_invariant ok pok" and "tables ok pok aok s"
  shows "tables ok pok aok (snd (RefundSubscriptionPreConsume rid s))"
proof -
  have q: "tables ok pok aok t" if "db_query (find_record rid) s = (r, t)" for r t
    using that assms(3) by (auto simp: db_query_def asked_def tables_def split: option.splits)
  have a: "aok (pr_preConsumed rec)" if "db_query (find_record rid) s = (Inr (Some rec), t)" for rec t
    using query_value [OF that] find_in [of "\<lambda>r. pr_requestId r = rid" "db_records s" rec] assms(3)
    by (auto simp: find_record_def tables_def list_all_iff)
  have p: "tables ok pok aok u"
    if "PostConsumeUserSubscriptionDelta i (- x) t = (r, u)" "tables ok pok aok t" "aok x" "0 < x" for i x t r u
    using rows_step.post_kept [OF assms(1) [OF that(3,4)] that(2), of i] that(1) by simp
  note m = rows_invariant.mark_kept [OF assms(2)]
  show ?thesis
    using assms(3) q a p m
    by (fastforce simp: RefundSubscriptionPreConsume_def tables_def asked_def split: prod.splits sum.splits option.splits)
qed

subsection \<open>The used amount stays within the total\<close>

text \<open>Amounts are 64-bit integers; only a positive total is a limit.\<close>

definition within_row :: "UserSubscription \<Rightarrow> bool" where
  "within_row r \<longleftrightarrow> int64 (us_amountTotal r) \<and> int64 (us_amountUsed r) \<and>
     (us_amountTotal r > 0 \<longrightarrow> 0 \<le> us_amountUsed r \<and> us_amountUsed r \<le> us_amountTotal r)"

definition plan64 :: "SubscriptionPlan \<Rightarrow> bool" where
  "plan64 p \<longleftrightarrow> int64 (pl_totalAmount p)"

lemma wrap64_up: "int64 x \<Longrightarrow> x + y < 2 ^ 63 \<Longrightarrow> 0 \<le> y \<Longrightarrow> wrap64 (x + y) = x + y"
  by (rule wrap64_int64) (simp add: int64_def)

lemma int64_max [simp]: "int64 (max 0 (wrap64 x))"
  using wrap64_range [of x] by (auto simp: int64_def max_def)

interpretation wr: rows_step within_row within_row plan64 "\<lambda>_. True" a for a
proof (unfold_locales, goal_cases)
  case (5 r)
  show ?case
  proof (cases "us_amountTotal r > 0")
    case True
    then have "wrap64 (us_amountTotal r - us_amountUsed r) = us_amountTotal r - us_amountUsed r"
      using 5(1) by (intro wrap64_int64) (auto simp: within_row_def int64_def)
    then have "us_amountUsed r + a \<le> us_amountTotal r" using 5(3) True by simp
    then show ?thesis using 5(1,2) True wrap64_up [of "us_amountUsed r" a] by (auto simp: within_row_def int64_def)
  qed (use 5(1) in \<open>simp add: within_row_def\<close>)
qed (auto simp: within_row_def plan64_def int64_def [of 0])

text \<open>A row of which between zero and \<open>m\<close> is used; an unlimited one may have any \<open>m\<close>.\<close>

definition upto :: "int \<Rightarrow> UserSubscription \<Rightarrow> bool" where
  "upto m r \<longleftrightarrow> 0 \<le> us_amountUsed r \<and> us_amountUsed r \<le> m"

lemma upto_rows: "0 \<le> m \<Longrightarrow> rows_invariant (upto m) (\<lambda>_. True)"
  by unfold_locales (auto simp: upto_def)

lemma upto_step:
  assumes "0 \<le> m" and "- (2 ^ 63) \<le> a" and "m + max 0 a < 2 ^ 63"
  shows "rows_step (upto m) (upto (m + max 0 a)) (\<lambda>_. True) (\<lambda>x. x \<le> 2 ^ 63) a"
proof -
  have w: "wrap64 (us_amountUsed r + a) = us_amountUsed r + a" if "upto m r" for r
    using that assms by (intro wrap64_int64) (auto simp: upto_def int64_def max_def split: if_splits)
  show ?thesis
    by (intro rows_step.intro rows_step_axioms.intro upto_rows) (use assms in \<open>auto simp: w, auto simp: upto_def\<close>)
qed

text \<open>All operations that change the tables, with the passing of time.\<close>

datatype sub_op =
    PreConsume gostr int int
  | PostDelta int int
  | RefundPre gostr
  | ResetDue int
  | Cleanup int
  | ExpireDue int
  | Invalidate int
  | Delete int
  | Complete gostr gostr gostr gostr
  | ExpireOrder gostr gostr
  | AdminBind int int
  | Clock int

fun sub_step :: "Zone \<Rightarrow> (int \<Rightarrow> SubscriptionPlan option) \<Rightarrow> Db \<Rightarrow> sub_op \<Rightarrow> Db" where
  "sub_step tz pc s (PreConsume rid uid amount) = snd (PreConsumeUserSubscription tz pc rid uid amount s)"
| "sub_step tz pc s (PostDelta i d) = snd (PostConsumeUserSubscriptionDelta i d s)"
| "sub_step tz pc s (RefundPre rid) = snd (RefundSubscriptionPreConsume rid s)"
| "sub_step tz pc s (ResetDue n) = snd (ResetDueSubscriptions tz pc n s)"
| "sub_step tz pc s (Cleanup n) = snd (CleanupSubscriptionPreConsumeRecords n s)"
| "sub_step tz pc s (ExpireDue n) = snd (ExpireDueSubscriptions n s)"
| "sub_step tz pc s (Invalidate i) = snd (AdminInvalidateUserSubscription i s)"
| "sub_step tz pc s (Delete i) = snd (AdminDeleteUserSubscription i s)"
| "sub_step tz pc s (Complete tn pl ep am) = snd (CompleteSubscriptionOrder tz pc tn pl ep am s)"
| "sub_step tz pc s (ExpireOrder tn ep) = snd (ExpireSubscriptionOrder tn ep s)"
| "sub_step tz pc s (AdminBind u pl) = snd (AdminBindSubscription tz pc u pl s)"
| "sub_step tz pc s (Clock t) = s\<lparr>db_now := t\<rparr>"

text \<open>The amount that an operation asks for, and what a sequence asks for at most.\<close>

fun asks :: "sub_op \<Rightarrow> int" where
  "asks (PreConsume rid uid amount) = amount"
| "asks (PostDelta i d) = d"
| "asks _ = 0"

fun spends :: "sub_op list \<Rightarrow> int" where
  "spends [] = 0"
| "spends (op # ops) = max 0 (asks op) + spends ops"

lemma spends_pos: "0 \<le> spends ops"
  by (induction ops) simp_all

lemma sub_step_kept:
  assumes "rows_step ok ok' pok aok (asks op)" and "\<And>x. aok x \<Longrightarrow> 0 < x \<Longrightarrow> rows_step ok' ok' pok aok (- x)"
    and "\<And>i p. pc i = Some p \<Longrightarrow> pok p" and "tables ok pok aok s"
  shows "tables ok' pok aok (sub_step tz pc s op)"
proof -
  have i: "rows_invariant ok' pok" using assms(1) by (simp add: rows_step_def)
  have t: "tables ok' pok aok s" using rows_step.weaken_tables [OF assms(1,4)] .
  show ?thesis
  proof (cases op)
    case (PreConsume rid uid a)
    then show ?thesis using rows_step.pre_kept [OF _ assms(4)] assms(1) by simp
  next
    case (PostDelta i d)
    then show ?thesis using rows_step.post_kept [OF _ assms(4)] assms(1) by simp
  next
    case (RefundPre rid)
    then show ?thesis using refund_kept [OF assms(2) i t] by simp
  next
    case (Clock n)
    then show ?thesis using t by (simp add: tables_def)
  qed (use t rows_invariant.reset_due_kept [OF i t] rows_invariant.cleanup_kept [OF i t] rows_invariant.expire_due_kept [OF i t]
      rows_invariant.invalidate_kept [OF i t] rows_invariant.delete_kept [OF i t] rows_invariant.complete_kept [OF i t assms(3)]
      rows_invariant.expire_order_kept [OF i t] rows_invariant.bind_kept [OF i t assms(3)] in simp_all)
qed

lemma run_within:
  assumes "\<And>i p. pc i = Some p \<Longrightarrow> plan64 p" and "tables within_row plan64 (\<lambda>_. True) s"
  shows "tables within_row plan64 (\<lambda>_. True) (foldl (sub_step tz pc) s ops)"
  using assms(2)
  by (induction ops arbitrary: s)
    (simp_all add: sub_step_kept [OF wr.rows_step_axioms wr.rows_step_axioms assms(1)])

lemma run_upto:
  assumes "tables (upto m) (\<lambda>_. True) (\<lambda>x. x \<le> 2 ^ 63) s" and "0 \<le> m" and "list_all (\<lambda>op. - (2 ^ 63) \<le> asks op) ops"
    and "m + spends ops < 2 ^ 63"
  shows "tables (upto (m + spends ops)) (\<lambda>_. True) (\<lambda>x. x \<le> 2 ^ 63) (foldl (sub_step tz pc) s ops)"
  using assms
proof (induction ops arbitrary: m s)
  case (Cons op ops)
  let ?m = "m + max 0 (asks op)"
  have m: "0 \<le> ?m" "?m < 2 ^ 63" using Cons.prems(2,4) spends_pos [of ops] by simp_all
  have r: "rows_step (upto ?m) (upto ?m) (\<lambda>_. True) (\<lambda>x. x \<le> 2 ^ 63) (- x)" if "x \<le> 2 ^ 63" "0 < x" for x
    using upto_step [OF m(1), of "- x"] that m(2) by simp
  have "rows_step (upto m) (upto ?m) (\<lambda>_. True) (\<lambda>x. x \<le> 2 ^ 63) (asks op)"
    using upto_step [OF Cons.prems(2)] Cons.prems(3) m(2) by simp
  then have "tables (upto ?m) (\<lambda>_. True) (\<lambda>x. x \<le> 2 ^ 63) (sub_step tz pc s op)"
    using sub_step_kept [OF _ r _ Cons.prems(1)] by blast
  then show ?case using Cons.IH [of ?m] m(1) Cons.prems(3,4) by (simp add: add.assoc)
qed simp

text \<open>
  C4: Whatever sequence of purchases, consumption, settlement, refunds, resets and
  expiry runs, in whatever zone and with whatever failures of the database, a
  subscription with a limit is never used below zero or beyond its total.  An unlimited
  one, which has no such check, is not used below zero either, and at most by what was
  asked for, as long as that sum stays below \<open>2 ^ 63\<close>; beyond it the amount wraps.
\<close>

theorem usage_in_bounds:
  assumes "list_all within_row (db_subs s)" and "list_all plan64 (db_plans s)" and "\<forall>i p. pc i = Some p \<longrightarrow> plan64 p"
  shows "list_all within_row (db_subs (foldl (sub_step tz pc) s ops)) \<and>
     (list_all (upto m) (db_subs s) \<and> 0 \<le> m \<and> list_all (\<lambda>r. int64 (pr_preConsumed r)) (db_records s) \<and>
      list_all (\<lambda>op. int64 (asks op)) ops \<and> m + spends ops < 2 ^ 63 \<longrightarrow>
      list_all (upto (m + spends ops)) (db_subs (foldl (sub_step tz pc) s ops)))"
proof -
  have 1: "tables within_row plan64 (\<lambda>_. True) (foldl (sub_step tz pc) s ops)"
    using assms by (intro run_within) (auto simp: tables_def list_all_iff)
  have 2: "tables (upto (m + spends ops)) (\<lambda>_. True) (\<lambda>x. x \<le> 2 ^ 63) (foldl (sub_step tz pc) s ops)"
    if "list_all (upto m) (db_subs s)" "0 \<le> m" "list_all (\<lambda>r. int64 (pr_preConsumed r)) (db_records s)"
      "list_all (\<lambda>op. int64 (asks op)) ops" "m + spends ops < 2 ^ 63"
    using that by (intro run_upto) (auto simp: tables_def list_all_iff int64_def)
  show ?thesis using 1 2 unfolding tables_def by blast
qed

definition sub_db :: Db where
  "sub_db = sample_db\<lparr>db_now := 1710000000, db_subs := [sample_sub], db_plans := [sample_plan]\<rparr>"

abbreviation sample_ops :: "sub_op list" where
  "sample_ops \<equiv> [PreConsume (js ''r1'') 1 20, PreConsume (js ''r2'') 1 90, PostDelta 5 (- 500), RefundPre (js ''r1'')]"

theorem usage_in_bounds_witness:
  "list_all within_row (db_subs (foldl (sub_step (zone_at 0) (\<lambda>_. None)) sub_db sample_ops)) \<and>
   list_all (upto 190) (db_subs (foldl (sub_step (zone_at 0) (\<lambda>_. None)) sub_db sample_ops))"
proof -
  have "list_all within_row (db_subs sub_db)" "list_all plan64 (db_plans sub_db)" "list_all (upto 80) (db_subs sub_db)"
      "db_records sub_db = []" "list_all (\<lambda>op. int64 (asks op)) sample_ops" "spends sample_ops = 110"
    by (simp_all add: sub_db_def sample_db_def empty_db_def sample_sub_def sample_plan_def within_row_def upto_def plan64_def int64_def)
  then show ?thesis using usage_in_bounds [of sub_db "\<lambda>_. None" "zone_at 0" sample_ops 80] by simp
qed

subsection \<open>An order is completed once\<close>

definition same_size :: "SubscriptionOrder list \<Rightarrow> nat \<Rightarrow> Db \<Rightarrow> bool" where
  "same_size os n s \<longleftrightarrow> db_orders s = os \<and> length (db_subs s) = n"

interpretation sz: db_invariant "same_size os n" for os n
  by unfold_locales (simp add: same_size_def)

lemma bind_ok: "bind_db r f = (Inr b, s') \<Longrightarrow> \<exists>a s1. r = (Inr a, s1) \<and> f a s1 = (Inr b, s')"
  by (auto simp: bind_db_def split: prod.splits sum.splits)

lemma then_ok: "then_db r f = (Inr b, s') \<Longrightarrow> \<exists>s1. r = (None, s1) \<and> f s1 = (Inr b, s')"
  by (auto simp: then_db_def split: prod.splits option.splits)

lemma exec_ok: "db_exec f s = (None, s') \<Longrightarrow> s' = f (asked s)"
  by (simp add: db_exec_def split: option.splits)

lemma user_size: "same_size os n s \<Longrightarrow> same_size os n (snd (update_user i f s))"
  unfolding update_user_def by (rule sz.exec) (simp_all add: same_size_def)

lemma plan_size: "same_size os n s \<Longrightarrow> same_size os n (snd (getSubscriptionPlanByIdTx pc i s))"
  unfolding getSubscriptionPlanByIdTx_def
  by (auto intro!: sz.bind simp: sz.query split: option.splits)

lemma limit_size: "same_size os n s \<Longrightarrow> same_size os n (snd (check_limit u plan s))"
  unfolding check_limit_def by (auto intro!: sz.bind simp: sz.query)

lemma upgrade_size: "same_size os n s \<Longrightarrow> same_size os n (snd (upgrade_group u g s))"
  unfolding upgrade_group_def getUserGroupByIdTx_def set_group_def
  by (auto intro!: sz.bind sz.and_then user_size simp: sz.query)

lemma topup_size: "same_size os n (s\<lparr>db_topups := ts\<rparr>) = same_size os n s" "same_size os n (put_topup r s) = same_size os n s"
  by (simp_all add: put_topup_def same_size_def)

lemma upsert_size: "same_size os n s \<Longrightarrow> same_size os n (snd (upsertSubscriptionTopUpTx r s))"
  unfolding upsertSubscriptionTopUpTx_def Let_def
  by (auto intro!: sz.bind sz.and_then sz.exec simp: sz.query topup_size split: option.splits)

lemma create_size:
  assumes "CreateUserSubscriptionFromPlanTx tz u plan src s = (Inr x, s')" and "same_size os n s"
  shows "same_size os (Suc n) s'"
proof -
  obtain s1 endUnix s2 s3 sub where c: "check_limit u plan s = (Inr (), s1)" and
    g: "\<exists>g. upgrade_group u (TrimSpace (pl_upgradeGroup plan)) s1 = (Inr g, s2)" and
    i: "db_exec (insert_sub sub) s2 = (None, s3)" and e: "s' = s3"
    using assms(1) by (auto simp: CreateUserSubscriptionFromPlanTx_def Let_def
        split: if_splits sum.splits dest!: bind_ok then_ok) 
  have "same_size os n s1" using limit_size [OF assms(2), of u plan] c by simp
  then have "same_size os n s2" using upgrade_size [of os n s1 u "TrimSpace (pl_upgradeGroup plan)"] g by auto
  then show ?thesis using exec_ok [OF i] e by (simp add: insert_sub_def asked_def same_size_def)
qed

definition order_inv :: "gostr \<Rightarrow> nat \<Rightarrow> Db \<Rightarrow> bool" where
  "order_inv tn n s \<longleftrightarrow>
     (case find_order tn s of
        None \<Rightarrow> False
      | Some r \<Rightarrow> length (db_subs s) = n + (if or_status r = SUCCESS then 1 else 0))"

interpretation oi: db_invariant "order_inv tn n" for tn n
  by unfold_locales (simp add: order_inv_def find_order_def split: option.splits)

lemma find_put:
  "find (\<lambda>r. or_tradeNo r = tn) os \<noteq> None \<Longrightarrow> or_tradeNo r' = tn \<Longrightarrow>
     find (\<lambda>r. or_tradeNo r = tn) (map (\<lambda>x. if or_tradeNo x = or_tradeNo r' then r' else x) os) = Some r'"
  by (induction os) (auto split: if_splits)

lemma locked_ok:
  assumes "locked_order tn p s = (Inr r, s')"
  shows "find_order tn s = Some r \<and> or_tradeNo r = tn \<and> s' = asked s"
proof -
  have "find_order tn s = Some r \<and> s' = asked s"
    using assms by (auto simp: locked_order_def db_query_def split: option.splits if_splits)
  then show ?thesis using find_in by (fastforce simp: find_order_def)
qed

lemma put_order_inv:
  assumes "find_order tn s = Some r" and "or_tradeNo r' = tn" and "length (db_subs s) = n + (if or_status r' = SUCCESS then 1 else 0)"
  shows "order_inv tn n (put_order r' s)"
  using assms find_put [of tn "db_orders s" r'] by (simp add: order_inv_def find_order_def put_order_def)

lemma finish_inv:
  assumes "finish_order tz pc pl am r s = (Inr x, s')" and "find_order tn s = Some r" and "or_tradeNo r = tn"
    and "length (db_subs s) = n"
  shows "order_inv tn n s'"
proof -
  obtain plan s1 s2 s3 where c: "getSubscriptionPlanByIdTx pc (or_planId r) s = (Inr plan, s1)"
      "\<exists>x. CreateUserSubscriptionFromPlanTx tz (or_userId r) plan (js ''order'') s1 = (Inr x, s2)"
      "\<exists>x. upsertSubscriptionTopUpTx r s2 = (Inr x, s3)" "db_exec (put_order (completed pl am (db_now s3) r)) s3 = (None, s')"
    using assms(1) unfolding finish_order_def by (auto dest!: bind_ok then_ok)
  have "same_size (db_orders s) n s" using assms(4) by (simp add: same_size_def)
  then have "same_size (db_orders s) n s1"
    using plan_size [of "db_orders s" n s pc "or_planId r"] c(1) by simp
  then have "same_size (db_orders s) (Suc n) s2" using create_size c(2) by blast
  then have s3: "same_size (db_orders s) (Suc n) s3"
    using upsert_size [of "db_orders s" "Suc n" s2 r] c(3) by auto
  have "order_inv tn n (put_order (completed pl am (db_now s3) r) (asked s3))"
    using assms(2,3) s3 by (intro put_order_inv) (simp_all add: find_order_def same_size_def asked_def completed_def)
  then show ?thesis using exec_ok [OF c(4)] by simp
qed

lemma complete_inv:
  assumes "order_inv tn n s"
  shows "order_inv tn n (snd (CompleteSubscriptionOrder tz pc tn pl ep am s))"
proof -
  let ?next = "\<lambda>r s. if or_status r = SUCCESS then (Inr (), s)
      else if or_status r \<noteq> PENDING then (Inl ErrSubscriptionOrderStatusInvalid, s)
      else finish_order tz pc pl am r s"
  have "order_inv tn n s'" if b: "bind_db (locked_order tn ep s) ?next = (Inr a, s')" for a s'
  proof -
    obtain r s1 where l: "locked_order tn ep s = (Inr r, s1)" and c: "?next r s1 = (Inr a, s')"
      using bind_ok [OF b] by blast
    have k: "find_order tn s1 = Some r" "or_tradeNo r = tn" "order_inv tn n s1"
      using locked_ok [OF l] assms oi.asked by (simp_all add: find_order_def asked_def)
    show ?thesis
    proof (cases "or_status r = SUCCESS")
      case False
      then have "length (db_subs s1) = n" using k by (simp add: order_inv_def)
      then show ?thesis using c False finish_inv [OF _ k(1,2)] by (simp split: if_splits)
    qed (use c k in simp)
  qed
  then show ?thesis
    unfolding CompleteSubscriptionOrder_def using assms by (auto simp: oi.tx)
qed

lemma expire_inv:
  assumes "order_inv tn n s"
  shows "order_inv tn n (snd (ExpireSubscriptionOrder tn ep s))"
proof -
  let ?next = "\<lambda>r s. if or_status r \<noteq> PENDING then (Inr (), s)
      else then_db (db_exec (put_order (r\<lparr>or_status := EXPIRED, or_completeTime := db_now s\<rparr>)) s) (\<lambda>s. (Inr (), s))"
  have d: "EXPIRED \<noteq> SUCCESS" "PENDING \<noteq> SUCCESS" by code_simp+
  have "order_inv tn n s'" if b: "bind_db (locked_order tn ep s) ?next = (Inr a, s')" for a s'
  proof -
    obtain r s1 where l: "locked_order tn ep s = (Inr r, s1)" and c: "?next r s1 = (Inr a, s')"
      using bind_ok [OF b] by blast
    have k: "find_order tn s1 = Some r" "or_tradeNo r = tn" "order_inv tn n s1"
      using locked_ok [OF l] assms oi.asked by (simp_all add: find_order_def asked_def)
    show ?thesis
    proof (cases "or_status r = PENDING")
      case True
      have "order_inv tn n (put_order (r\<lparr>or_status := EXPIRED, or_completeTime := db_now s1\<rparr>) (asked s1))"
        using k True d by (intro put_order_inv) (simp_all add: find_order_def asked_def order_inv_def)
      then show ?thesis using c True by (auto dest!: then_ok exec_ok)
    qed (use c k in simp)
  qed
  then show ?thesis
    unfolding ExpireSubscriptionOrder_def using assms by (auto simp: oi.tx)
qed

datatype callback = Paid gostr gostr gostr | TimedOut gostr

fun order_step :: "Zone \<Rightarrow> (int \<Rightarrow> SubscriptionPlan option) \<Rightarrow> gostr \<Rightarrow> Db \<Rightarrow> callback \<Rightarrow> Db" where
  "order_step tz pc tn s (Paid pl ep am) = snd (CompleteSubscriptionOrder tz pc tn pl ep am s)"
| "order_step tz pc tn s (TimedOut ep) = snd (ExpireSubscriptionOrder tn ep s)"

text \<open>
  C5: However often and in whatever order the payment providers report an order as
  paid or timed out, and whichever database requests fail, the order is there to the
  end and exactly one subscription has been created if it ended as paid, none
  otherwise.
\<close>

theorem order_completed_once:
  assumes "find_order tn s = Some r" and "or_status r \<noteq> SUCCESS" and "s' = foldl (order_step tz pc tn) s cs"
  shows "\<exists>r'. find_order tn s' = Some r' \<and>
     length (db_subs s') = length (db_subs s) + (if or_status r' = SUCCESS then 1 else 0)"
proof -
  have "order_inv tn n t \<Longrightarrow> order_inv tn n (foldl (order_step tz pc tn) t cs)" for n t
  proof (induction cs arbitrary: t)
    case (Cons c cs)
    then show ?case using complete_inv expire_inv by (cases c) simp_all
  qed simp
  moreover have "order_inv tn (length (db_subs s)) s" using assms by (simp add: order_inv_def)
  ultimately have "order_inv tn (length (db_subs s)) s'" unfolding assms(3) by blast
  then show ?thesis unfolding order_inv_def by (cases "find_order tn s'") (simp_all)
qed

definition sample_order :: SubscriptionOrder where
  "sample_order = \<lparr>or_userId = 1, or_planId = 3, or_money = Fin 9, or_tradeNo = js ''T1'', or_paymentMethod = js ''stripe'',
     or_paymentProvider = js ''stripe'', or_status = PENDING, or_createTime = 0, or_completeTime = 0, or_providerPayload = []\<rparr>"

definition order_db :: Db where
  "order_db = sub_db\<lparr>db_subs := [], db_orders := [sample_order]\<rparr>"

theorem order_completed_once_witness:
  "\<exists>r'. find_order (js ''T1'') (foldl (order_step (zone_at 0) (\<lambda>_. None) (js ''T1'')) order_db
       [Paid [] (js ''epay'') [], Paid [] [] [], Paid [] [] [], TimedOut []]) = Some r' \<and>
     length (db_subs (foldl (order_step (zone_at 0) (\<lambda>_. None) (js ''T1'')) order_db
       [Paid [] (js ''epay'') [], Paid [] [] [], Paid [] [] [], TimedOut []])) = (if or_status r' = SUCCESS then 1 else 0)"
proof -
  have "find_order (js ''T1'') order_db = Some sample_order"
    by (simp add: find_order_def order_db_def sample_order_def)
  moreover have "or_status sample_order \<noteq> SUCCESS" by code_simp
  ultimately show ?thesis
    using order_completed_once [OF _ _ refl, of "js ''T1''" order_db sample_order "zone_at 0" "\<lambda>_. None"
        "[Paid [] (js ''epay'') [], Paid [] [] [], Paid [] [] [], TimedOut []]"] by (simp add: order_db_def)
qed

end
