(* ===== verification/BillingSession.thy ===== *)
theory BillingSession
  imports SubscriptionLaws
begin

text \<open>
  Charging one request: \<open>service/billing_session.go\<close>, \<open>service/funding_source.go\<close>,
  \<open>service/billing.go\<close>, \<open>service/pre_consume_quota.go\<close> and the quota operations of
  \<open>service/quota.go\<close>.  A session is a value that is passed on with the tables; the mutex of
  the source makes each operation one step, and the goroutine that pays back runs at
  once (it works on values that no later operation of the session changes).  Log lines,
  notices to the user, the amounts printed in error texts, the retry options of errors
  and the model name of a subscription request, which nothing reads, are left out.
\<close>

subsection \<open>Data\<close>

datatype ErrorCode =
  ErrorCodeInvalidRequest | ErrorCodeQueryDataError | ErrorCodeUpdateDataError | ErrorCodeInsufficientUserQuota |
  ErrorCodePreConsumeTokenQuotaFailed

record NewAPIError =
  ae_code :: ErrorCode
  ae_status :: nat
  ae_text :: gostr

definition NewError :: "gostr \<Rightarrow> ErrorCode \<Rightarrow> NewAPIError" where
  "NewError e c = \<lparr>ae_code = c, ae_status = 500, ae_text = e\<rparr>"

definition NewErrorWithStatusCode :: "gostr \<Rightarrow> ErrorCode \<Rightarrow> nat \<Rightarrow> NewAPIError" where
  "NewErrorWithStatusCode e c st = \<lparr>ae_code = c, ae_status = st, ae_text = e\<rparr>"

text \<open>
  What a request finds outside the tables: the zone, the caches, the trust threshold
  and the quota of the token that the authentication step left in the context.
\<close>

record Env =
  en_tz :: Zone
  en_plans :: "int \<Rightarrow> SubscriptionPlan option"
  en_planInfo :: "SubscriptionPlanInfo option"
  en_user :: "int option"
  en_token :: "Token option"
  en_trustQuota :: int
  en_tokenQuota :: int

record RelayInfo =
  ri_UserId :: int
  ri_TokenId :: int
  ri_TokenKey :: gostr
  ri_IsPlayground :: bool
  ri_TokenUnlimited :: bool
  ri_ForcePreConsume :: bool
  ri_RequestId :: gostr
  ri_BillingPreference :: gostr
  ri_UserQuota :: int
  ri_FinalPreConsumedQuota :: int
  ri_BillingSource :: gostr
  ri_SubscriptionId :: int
  ri_SubscriptionPreConsumed :: int
  ri_SubscriptionPostDelta :: int
  ri_SubscriptionAmountTotal :: int
  ri_SubscriptionAmountUsedAfterPreConsume :: int
  ri_SubscriptionPlanId :: int
  ri_SubscriptionPlanTitle :: gostr

definition BillingSourceWallet :: gostr where "BillingSourceWallet = js ''wallet''"
definition BillingSourceSubscription :: gostr where "BillingSourceSubscription = js ''subscription''"

subsection \<open>Funding sources\<close>

record WalletFunding =
  wf_userId :: int
  wf_consumed :: int

record SubscriptionFunding =
  sf_requestId :: gostr
  sf_userId :: int
  sf_amount :: int
  sf_subscriptionId :: int
  sf_preConsumed :: int
  sf_AmountTotal :: int
  sf_AmountUsedAfter :: int
  sf_PlanId :: int
  sf_PlanTitle :: gostr

datatype FundingSource = Wallet WalletFunding | Subscription SubscriptionFunding

fun Source :: "FundingSource \<Rightarrow> gostr" where
  "Source (Wallet w) = BillingSourceWallet"
| "Source (Subscription f) = BillingSourceSubscription"

definition wallet_PreConsume :: "WalletFunding \<Rightarrow> int \<Rightarrow> Db \<Rightarrow> (gostr + WalletFunding) \<times> Db" where
  "wallet_PreConsume w amount s =
     (if amount \<le> 0 then (Inr w, s)
      else then_db (DecreaseUserQuota (wf_userId w) amount False s) (\<lambda>s. (Inr (w\<lparr>wf_consumed := amount\<rparr>), s)))"

definition wallet_Settle :: "WalletFunding \<Rightarrow> int \<Rightarrow> Db \<Rightarrow> gostr option \<times> Db" where
  "wallet_Settle w delta s =
     (if delta = 0 then (None, s)
      else if delta > 0 then DecreaseUserQuota (wf_userId w) delta False s
      else IncreaseUserQuota (wf_userId w) (- delta) False s)"

definition wallet_Refund :: "WalletFunding \<Rightarrow> Db \<Rightarrow> gostr option \<times> Db" where
  "wallet_Refund w s =
     (if wf_consumed w \<le> 0 then (None, s) else IncreaseUserQuota (wf_userId w) (wf_consumed w) False s)"

definition sub_PreConsume :: "Env \<Rightarrow> SubscriptionFunding \<Rightarrow> Db \<Rightarrow> (gostr + SubscriptionFunding) \<times> Db" where
  "sub_PreConsume env f s =
     bind_db (PreConsumeUserSubscription (en_tz env) (en_plans env) (sf_requestId f) (sf_userId f) (sf_amount f) s) (\<lambda>res s.
       let f1 = f\<lparr>sf_subscriptionId := sr_userSubscriptionId res, sf_preConsumed := sr_preConsumed res,
                  sf_AmountTotal := sr_amountTotal res, sf_AmountUsedAfter := sr_amountUsedAfter res\<rparr> in
       case GetSubscriptionPlanInfoByUserSubscriptionId (en_planInfo env) (en_plans env) (sr_userSubscriptionId res) s of
         (Inr info, s) \<Rightarrow> (Inr (f1\<lparr>sf_PlanId := pi_planId info, sf_PlanTitle := pi_planTitle info\<rparr>), s)
       | (Inl _, s) \<Rightarrow> (Inr f1, s))"

definition sub_Settle :: "SubscriptionFunding \<Rightarrow> int \<Rightarrow> Db \<Rightarrow> gostr option \<times> Db" where
  "sub_Settle f delta s =
     (if delta = 0 then (None, s) else PostConsumeUserSubscriptionDelta (sf_subscriptionId f) delta s)"

text \<open>Attempts left; the pauses between them are left out.\<close>

fun retry :: "nat \<Rightarrow> (Db \<Rightarrow> gostr option \<times> Db) \<Rightarrow> Db \<Rightarrow> gostr option \<times> Db" where
  "retry 0 fn s = (None, s)"
| "retry (Suc n) fn s =
     (case fn s of
        (None, s) \<Rightarrow> (None, s)
      | (Some e, s) \<Rightarrow> if n = 0 then (Some e, s) else retry n fn s)"

definition refundWithRetry :: "(Db \<Rightarrow> gostr option \<times> Db) \<Rightarrow> Db \<Rightarrow> gostr option \<times> Db" where
  "refundWithRetry = retry 3"

definition sub_Refund :: "SubscriptionFunding \<Rightarrow> Db \<Rightarrow> gostr option \<times> Db" where
  "sub_Refund f s =
     (if sf_preConsumed f \<le> 0 then (None, s)
      else refundWithRetry (RefundSubscriptionPreConsume (sf_requestId f)) s)"

fun funding_PreConsume :: "Env \<Rightarrow> FundingSource \<Rightarrow> int \<Rightarrow> Db \<Rightarrow> (gostr + FundingSource) \<times> Db" where
  "funding_PreConsume env (Wallet w) amount s = bind_db (wallet_PreConsume w amount s) (\<lambda>w s. (Inr (Wallet w), s))"
| "funding_PreConsume env (Subscription f) amount s = bind_db (sub_PreConsume env f s) (\<lambda>f s. (Inr (Subscription f), s))"

fun funding_Settle :: "FundingSource \<Rightarrow> int \<Rightarrow> Db \<Rightarrow> gostr option \<times> Db" where
  "funding_Settle (Wallet w) delta s = wallet_Settle w delta s"
| "funding_Settle (Subscription f) delta s = sub_Settle f delta s"

fun funding_Refund :: "FundingSource \<Rightarrow> Db \<Rightarrow> gostr option \<times> Db" where
  "funding_Refund (Wallet w) s = wallet_Refund w s"
| "funding_Refund (Subscription f) s = sub_Refund f s"

subsection \<open>Tokens\<close>

definition PreConsumeTokenQuota :: "Env \<Rightarrow> RelayInfo \<Rightarrow> int \<Rightarrow> Db \<Rightarrow> gostr option \<times> Db" where
  "PreConsumeTokenQuota env info quota s =
     (if quota < 0 then (Some NEGATIVE, s)
      else if ri_IsPlayground info then (None, s)
      else
        (case GetTokenByKey (en_token env) (ri_TokenKey info) s of
           (Inl e, s) \<Rightarrow> (Some e, s)
         | (Inr token, s) \<Rightarrow>
             if \<not> ri_TokenUnlimited info \<and> tk_remainQuota token < quota
             then (Some (js ''token quota is not enough''), s)
             else DecreaseTokenQuota (ri_TokenId info) quota s))"

subsection \<open>The session\<close>

record BillingSession =
  bs_relayInfo :: RelayInfo
  bs_funding :: FundingSource
  bs_preConsumedQuota :: int
  bs_tokenConsumed :: int
  bs_extraReserved :: int
  bs_trusted :: bool
  bs_fundingSettled :: bool
  bs_settled :: bool
  bs_refunded :: bool

definition adjust_token :: "RelayInfo \<Rightarrow> int \<Rightarrow> Db \<Rightarrow> gostr option \<times> Db" where
  "adjust_token info delta s =
     (if ri_IsPlayground info then (None, s)
      else if delta > 0 then DecreaseTokenQuota (ri_TokenId info) delta s
      else IncreaseTokenQuota (ri_TokenId info) (- delta) s)"

definition finish_settle :: "int \<Rightarrow> BillingSession \<Rightarrow> Db \<Rightarrow> gostr option \<times> BillingSession \<times> Db" where
  "finish_settle delta sess s =
     (case adjust_token (bs_relayInfo sess) delta s of
        (tokenErr, s) \<Rightarrow>
          (tokenErr,
           sess\<lparr>bs_fundingSettled := True, bs_settled := True,
                bs_relayInfo := (if Source (bs_funding sess) = BillingSourceSubscription
                  then (bs_relayInfo sess)\<lparr>ri_SubscriptionPostDelta := ri_SubscriptionPostDelta (bs_relayInfo sess) + delta\<rparr>
                  else bs_relayInfo sess)\<rparr>, s))"

definition Settle :: "int \<Rightarrow> BillingSession \<Rightarrow> Db \<Rightarrow> gostr option \<times> BillingSession \<times> Db" where
  "Settle actualQuota sess s =
     (if bs_settled sess then (None, sess, s)
      else
        (let delta = actualQuota - bs_preConsumedQuota sess in
         if delta = 0 then (None, sess\<lparr>bs_settled := True\<rparr>, s)
         else if bs_fundingSettled sess then finish_settle delta sess s
         else
           (case funding_Settle (bs_funding sess) delta s of
              (Some e, s) \<Rightarrow> (Some e, sess, s)
            | (None, s) \<Rightarrow> finish_settle delta sess s)))"

definition needsRefundLocked :: "BillingSession \<Rightarrow> bool" where
  "needsRefundLocked sess =
     (if bs_settled sess \<or> bs_refunded sess \<or> bs_fundingSettled sess then False
      else if bs_tokenConsumed sess > 0 then True
      else (case bs_funding sess of Subscription f \<Rightarrow> sf_preConsumed f > 0 | Wallet _ \<Rightarrow> False))"

definition refund_funding :: "BillingSession \<Rightarrow> Db \<Rightarrow> Db" where
  "refund_funding sess s =
     (let s1 = snd (funding_Refund (bs_funding sess) s); subscriptionId = ri_SubscriptionId (bs_relayInfo sess) in
      if bs_extraReserved sess > 0 \<and> Source (bs_funding sess) = BillingSourceSubscription \<and> subscriptionId > 0
      then snd (PostConsumeUserSubscriptionDelta subscriptionId (- bs_extraReserved sess) s1) else s1)"

definition pay_back :: "BillingSession \<Rightarrow> Db \<Rightarrow> Db" where
  "pay_back sess s =
     (let info = bs_relayInfo sess; s1 = refund_funding sess s in
      if bs_tokenConsumed sess > 0 \<and> \<not> ri_IsPlayground info
      then snd (IncreaseTokenQuota (ri_TokenId info) (bs_tokenConsumed sess) s1) else s1)"

definition Refund :: "BillingSession \<Rightarrow> Db \<Rightarrow> BillingSession \<times> Db" where
  "Refund sess s =
     (if bs_settled sess \<or> bs_refunded sess \<or> \<not> needsRefundLocked sess then (sess, s)
      else (sess\<lparr>bs_refunded := True\<rparr>, pay_back sess s))"

definition INSUFFICIENT_PREFIX :: gostr where
  "INSUFFICIENT_PREFIX = [35746, 38405, 39069, 24230, 19981, 36275, 25110, 26410, 37197, 32622, 35746, 38405, 58, 32]"

definition reserveFunding :: "int \<Rightarrow> FundingSource \<Rightarrow> Db \<Rightarrow> (NewAPIError + FundingSource) \<times> Db" where
  "reserveFunding delta funding s =
     (case funding of
        Wallet w \<Rightarrow>
          (case DecreaseUserQuota (wf_userId w) delta False s of
             (Some e, s) \<Rightarrow> (Inl (NewError e ErrorCodeUpdateDataError), s)
           | (None, s) \<Rightarrow> (Inr (Wallet (w\<lparr>wf_consumed := wf_consumed w + delta\<rparr>)), s))
      | Subscription f \<Rightarrow>
          (case PostConsumeUserSubscriptionDelta (sf_subscriptionId f) delta s of
             (Some e, s) \<Rightarrow> (Inl (NewErrorWithStatusCode (INSUFFICIENT_PREFIX @ e) ErrorCodeInsufficientUserQuota 403), s)
           | (None, s) \<Rightarrow> (Inr funding, s)))"

definition rollbackFundingReserve :: "int \<Rightarrow> FundingSource \<Rightarrow> Db \<Rightarrow> FundingSource \<times> Db" where
  "rollbackFundingReserve delta funding s =
     (case funding of
        Wallet w \<Rightarrow>
          (case IncreaseUserQuota (wf_userId w) delta False s of
             (Some e, s) \<Rightarrow> (funding, s)
           | (None, s) \<Rightarrow> (Wallet (w\<lparr>wf_consumed := wf_consumed w - delta\<rparr>), s))
      | Subscription f \<Rightarrow> (funding, snd (PostConsumeUserSubscriptionDelta (sf_subscriptionId f) (- delta) s)))"

definition reserveToken :: "Env \<Rightarrow> int \<Rightarrow> RelayInfo \<Rightarrow> Db \<Rightarrow> NewAPIError option \<times> Db" where
  "reserveToken env delta info s =
     (if delta \<le> 0 \<or> ri_IsPlayground info then (None, s)
      else
        (case PreConsumeTokenQuota env info delta s of
           (Some e, s) \<Rightarrow> (Some (NewErrorWithStatusCode e ErrorCodePreConsumeTokenQuotaFailed 403), s)
         | (None, s) \<Rightarrow> (None, s)))"

definition syncRelayInfo :: "BillingSession \<Rightarrow> BillingSession" where
  "syncRelayInfo sess =
     (let info = (bs_relayInfo sess)\<lparr>ri_FinalPreConsumedQuota := bs_preConsumedQuota sess,
            ri_BillingSource := Source (bs_funding sess)\<rparr> in
      sess\<lparr>bs_relayInfo :=
        (case bs_funding sess of
           Subscription sub \<Rightarrow>
             info\<lparr>ri_SubscriptionId := sf_subscriptionId sub,
               ri_SubscriptionPreConsumed := sf_preConsumed sub + bs_extraReserved sess,
               ri_SubscriptionPostDelta := 0,
               ri_SubscriptionAmountTotal := sf_AmountTotal sub,
               ri_SubscriptionAmountUsedAfterPreConsume := sf_AmountUsedAfter sub + bs_extraReserved sess,
               ri_SubscriptionPlanId := sf_PlanId sub,
               ri_SubscriptionPlanTitle := sf_PlanTitle sub\<rparr>
         | Wallet _ \<Rightarrow> info\<lparr>ri_SubscriptionId := 0, ri_SubscriptionPreConsumed := 0\<rparr>)\<rparr>)"

definition Reserve :: "Env \<Rightarrow> int \<Rightarrow> BillingSession \<Rightarrow> Db \<Rightarrow> NewAPIError option \<times> BillingSession \<times> Db" where
  "Reserve env targetQuota sess s =
     (if bs_settled sess \<or> bs_refunded sess \<or> bs_trusted sess \<or> targetQuota \<le> bs_preConsumedQuota sess
      then (None, sess, s)
      else
        (let delta = targetQuota - bs_preConsumedQuota sess in
         case reserveFunding delta (bs_funding sess) s of
           (Inl e, s) \<Rightarrow> (Some e, sess, s)
         | (Inr funding, s) \<Rightarrow>
             (case reserveToken env delta (bs_relayInfo sess) s of
                (Some e, s) \<Rightarrow>
                  (case rollbackFundingReserve delta funding s of
                     (funding', s) \<Rightarrow> (Some e, sess\<lparr>bs_funding := funding'\<rparr>, s))
              | (None, s) \<Rightarrow>
                  (None,
                   syncRelayInfo (sess\<lparr>bs_funding := funding,
                     bs_preConsumedQuota := bs_preConsumedQuota sess + delta,
                     bs_tokenConsumed := bs_tokenConsumed sess + delta,
                     bs_extraReserved := bs_extraReserved sess + delta\<rparr>), s))))"

subsection \<open>Opening a session\<close>

definition shouldTrust :: "Env \<Rightarrow> BillingSession \<Rightarrow> bool" where
  "shouldTrust env sess =
     (if ri_ForcePreConsume (bs_relayInfo sess) then False
      else if en_trustQuota env \<le> 0 then False
      else if \<not> (ri_TokenUnlimited (bs_relayInfo sess) \<or> en_tokenQuota env > en_trustQuota env) then False
      else Source (bs_funding sess) = BillingSourceWallet \<and> ri_UserQuota (bs_relayInfo sess) > en_trustQuota env)"

definition funding_error :: "gostr \<Rightarrow> NewAPIError" where
  "funding_error e =
     (if str_includes e (js ''no active subscription'') \<or> str_includes e (js ''subscription quota insufficient'')
      then NewErrorWithStatusCode (INSUFFICIENT_PREFIX @ e) ErrorCodeInsufficientUserQuota 403
      else NewError e ErrorCodeUpdateDataError)"

definition consume_funding :: "Env \<Rightarrow> int \<Rightarrow> BillingSession \<Rightarrow> Db \<Rightarrow> (NewAPIError + BillingSession) \<times> Db" where
  "consume_funding env effectiveQuota sess s =
     (case funding_PreConsume env (bs_funding sess) effectiveQuota s of
        (Inl e, s) \<Rightarrow>
          (Inl (funding_error e),
           if bs_tokenConsumed sess > 0 \<and> \<not> ri_IsPlayground (bs_relayInfo sess)
           then snd (IncreaseTokenQuota (ri_TokenId (bs_relayInfo sess)) (bs_tokenConsumed sess) s) else s)
      | (Inr funding, s) \<Rightarrow>
          (Inr (syncRelayInfo (sess\<lparr>bs_funding := funding, bs_preConsumedQuota := effectiveQuota\<rparr>)), s))"

definition preConsume :: "Env \<Rightarrow> int \<Rightarrow> BillingSession \<Rightarrow> Db \<Rightarrow> (NewAPIError + BillingSession) \<times> Db" where
  "preConsume env quota sess s =
     (let trust = shouldTrust env sess;
          effectiveQuota = (if trust then 0 else quota);
          sess1 = (if trust then sess\<lparr>bs_trusted := True\<rparr> else sess) in
      if effectiveQuota > 0 then
        (case PreConsumeTokenQuota env (bs_relayInfo sess1) effectiveQuota s of
           (Some e, s) \<Rightarrow> (Inl (NewErrorWithStatusCode e ErrorCodePreConsumeTokenQuotaFailed 403), s)
         | (None, s) \<Rightarrow> consume_funding env effectiveQuota (sess1\<lparr>bs_tokenConsumed := effectiveQuota\<rparr>) s)
      else consume_funding env effectiveQuota sess1 s)"

definition new_session :: "RelayInfo \<Rightarrow> FundingSource \<Rightarrow> BillingSession" where
  "new_session info funding =
     \<lparr>bs_relayInfo = info, bs_funding = funding, bs_preConsumedQuota = 0, bs_tokenConsumed = 0, bs_extraReserved = 0,
      bs_trusted = False, bs_fundingSettled = False, bs_settled = False, bs_refunded = False\<rparr>"

definition NormalizeBillingPreference :: "gostr \<Rightarrow> gostr" where
  "NormalizeBillingPreference pref =
     (if TrimSpace pref \<in> {js ''subscription_first'', js ''wallet_first'', js ''subscription_only'', js ''wallet_only''}
      then TrimSpace pref else js ''subscription_first'')"

definition CREDIT_TEXT :: gostr where
  "CREDIT_TEXT = [3648, 3588, 3619, 3604, 3636, 3605, 3652, 3617, 3656, 3648, 3614, 3637, 3618, 3591, 3614, 3629]"

text \<open>
  The request's \<open>relayInfo\<close> is shared, so what a failed attempt wrote to it stays for the
  next one: both attempts return it.
\<close>

definition tryWallet :: "Env \<Rightarrow> int \<Rightarrow> RelayInfo \<Rightarrow> Db \<Rightarrow> (NewAPIError + BillingSession) \<times> RelayInfo \<times> Db" where
  "tryWallet env preConsumedQuota info s =
     (case GetUserQuota (en_user env) (ri_UserId info) s of
        (Inl e, s) \<Rightarrow> (Inl (NewError e ErrorCodeQueryDataError), info, s)
      | (Inr userQuota, s) \<Rightarrow>
          if userQuota \<le> 0 \<or> userQuota - preConsumedQuota < 0
          then (Inl (NewErrorWithStatusCode CREDIT_TEXT ErrorCodeInsufficientUserQuota 403), info, s)
          else
            (let info1 = info\<lparr>ri_UserQuota := userQuota\<rparr> in
             case preConsume env preConsumedQuota
               (new_session info1 (Wallet \<lparr>wf_userId = ri_UserId info, wf_consumed = 0\<rparr>)) s of
               (r, s) \<Rightarrow> (r, info1, s)))"

definition trySubscription :: "Env \<Rightarrow> int \<Rightarrow> RelayInfo \<Rightarrow> Db \<Rightarrow> (NewAPIError + BillingSession) \<times> RelayInfo \<times> Db" where
  "trySubscription env preConsumedQuota info s =
     (let subConsume = (if preConsumedQuota \<le> 0 then 1 else preConsumedQuota) in
      case preConsume env subConsume
        (new_session info (Subscription
          \<lparr>sf_requestId = ri_RequestId info, sf_userId = ri_UserId info, sf_amount = subConsume, sf_subscriptionId = 0,
           sf_preConsumed = 0, sf_AmountTotal = 0, sf_AmountUsedAfter = 0, sf_PlanId = 0, sf_PlanTitle = []\<rparr>)) s of
        (r, s) \<Rightarrow> (r, info, s))"

definition or_else ::
  "(NewAPIError + BillingSession) \<times> RelayInfo \<times> Db \<Rightarrow> (RelayInfo \<Rightarrow> Db \<Rightarrow> (NewAPIError + BillingSession) \<times> RelayInfo \<times> Db) \<Rightarrow>
   (NewAPIError + BillingSession) \<times> RelayInfo \<times> Db" where
  "or_else r next =
     (case r of
        (Inl e, info, s) \<Rightarrow> if ae_code e = ErrorCodeInsufficientUserQuota then next info s else r
      | (Inr sess, info, s) \<Rightarrow> r)"

definition NewBillingSession :: "Env \<Rightarrow> RelayInfo \<Rightarrow> int \<Rightarrow> Db \<Rightarrow> (NewAPIError + BillingSession) \<times> Db" where
  "NewBillingSession env info preConsumedQuota s =
     (let pref = NormalizeBillingPreference (ri_BillingPreference info);
          wallet = tryWallet env preConsumedQuota;
          subscription = trySubscription env preConsumedQuota;
          r = (if pref = js ''subscription_only'' then subscription info s
               else if pref = js ''wallet_only'' then wallet info s
               else if pref = js ''wallet_first'' then or_else (wallet info s) subscription
               else
                 (case HasActiveUserSubscription (ri_UserId info) s of
                    (Inl e, s) \<Rightarrow> (Inl (NewError e ErrorCodeQueryDataError), info, s)
                  | (Inr hasSub, s) \<Rightarrow>
                      if \<not> hasSub then wallet info s else or_else (subscription info s) wallet))
      in (fst r, snd (snd r)))"

subsection \<open>Entry points\<close>

text \<open>The session that a request keeps, if one could be opened.\<close>

definition PreConsumeBilling :: "Env \<Rightarrow> int \<Rightarrow> RelayInfo \<Rightarrow> Db \<Rightarrow> NewAPIError option \<times> BillingSession option \<times> Db" where
  "PreConsumeBilling env preConsumedQuota info s =
     (case NewBillingSession env info preConsumedQuota s of
        (Inl e, s) \<Rightarrow> (Some e, None, s)
      | (Inr sess, s) \<Rightarrow> (None, Some sess, s))"

definition PostConsumeQuota :: "RelayInfo \<Rightarrow> int \<Rightarrow> Db \<Rightarrow> gostr option \<times> RelayInfo \<times> Db" where
  "PostConsumeQuota info quota s =
     (if ri_BillingSource info = BillingSourceSubscription then
        (if ri_SubscriptionId info = 0 then (Some (js ''subscription id is missing''), info, s)
         else if quota = 0 then (case adjust_token info quota s of (e, s) \<Rightarrow> (e, info, s))
         else
           (case PostConsumeUserSubscriptionDelta (ri_SubscriptionId info) quota s of
              (Some e, s) \<Rightarrow> (Some e, info, s)
            | (None, s) \<Rightarrow>
                (case adjust_token info quota s of
                   (e, s) \<Rightarrow> (e, info\<lparr>ri_SubscriptionPostDelta := ri_SubscriptionPostDelta info + quota\<rparr>, s))))
      else
        (case (if quota > 0 then DecreaseUserQuota (ri_UserId info) quota False s
               else IncreaseUserQuota (ri_UserId info) (- quota) False s) of
           (Some e, s) \<Rightarrow> (Some e, info, s)
         | (None, s) \<Rightarrow> (case adjust_token info quota s of (e, s) \<Rightarrow> (e, info, s))))"

definition SettleBilling ::
  "int \<Rightarrow> BillingSession option \<Rightarrow> RelayInfo \<Rightarrow> Db \<Rightarrow> gostr option \<times> BillingSession option \<times> RelayInfo \<times> Db" where
  "SettleBilling actualQuota billing info s =
     (case billing of
        Some sess \<Rightarrow> (case Settle actualQuota sess s of (e, sess, s) \<Rightarrow> (e, Some sess, bs_relayInfo sess, s))
      | None \<Rightarrow>
          (let quotaDelta = actualQuota - ri_FinalPreConsumedQuota info in
           if quotaDelta \<noteq> 0
           then (case PostConsumeQuota info quotaDelta s of (e, info, s) \<Rightarrow> (e, None, info, s))
           else (None, None, info, s)))"

definition ReturnPreConsumedQuota :: "RelayInfo \<Rightarrow> Db \<Rightarrow> Db" where
  "ReturnPreConsumedQuota info s =
     (if ri_FinalPreConsumedQuota info \<noteq> 0
      then snd (snd (PostConsumeQuota info (- ri_FinalPreConsumedQuota info) s)) else s)"

definition PreConsumeQuota :: "Env \<Rightarrow> int \<Rightarrow> RelayInfo \<Rightarrow> Db \<Rightarrow> NewAPIError option \<times> RelayInfo \<times> Db" where
  "PreConsumeQuota env preConsumedQuota info s =
     (case GetUserQuota (en_user env) (ri_UserId info) s of
        (Inl e, s) \<Rightarrow> (Some (NewError e ErrorCodeQueryDataError), info, s)
      | (Inr userQuota, s) \<Rightarrow>
          if userQuota \<le> 0 \<or> userQuota - preConsumedQuota < 0
          then (Some (NewErrorWithStatusCode CREDIT_TEXT ErrorCodeInsufficientUserQuota 403), info, s)
          else
            (let info1 = info\<lparr>ri_UserQuota := userQuota\<rparr>;
                 quota = (if userQuota > en_trustQuota env \<and>
                             (ri_TokenUnlimited info \<or> en_tokenQuota env > en_trustQuota env)
                          then 0 else preConsumedQuota) in
             if quota > 0 then
               (case PreConsumeTokenQuota env info1 quota s of
                  (Some e, s) \<Rightarrow> (Some (NewErrorWithStatusCode e ErrorCodePreConsumeTokenQuotaFailed 403), info1, s)
                | (None, s) \<Rightarrow>
                    (case DecreaseUserQuota (ri_UserId info) quota False s of
                       (Some e, s) \<Rightarrow> (Some (NewError e ErrorCodeUpdateDataError), info1, s)
                     | (None, s) \<Rightarrow> (None, info1\<lparr>ri_FinalPreConsumedQuota := quota\<rparr>, s)))
             else (None, info1\<lparr>ri_FinalPreConsumedQuota := quota\<rparr>, s)))"

end
