(* ===== verification/BillingLaws.thy ===== *)
theory BillingLaws
  imports BillingSession
begin

text \<open>
  What a billing session charges.  The books are read through the pending amounts of
  the batch updater; the two funding sources meet one contract, the locale
  \<open>funding_source\<close>, from which the laws of a session are proved once.
\<close>

subsection \<open>Books\<close>

definition fine :: "Db \<Rightarrow> bool" where
  "fine s \<longleftrightarrow> quiet s \<and> stores_ok s"

definition balance :: "int \<Rightarrow> Db \<Rightarrow> int" where
  "balance i s = (case lg_users (ledger s) i of None \<Rightarrow> 0 | Some u \<Rightarrow> u_quota u)"

definition token_left :: "int \<Rightarrow> Db \<Rightarrow> int option" where
  "token_left i s = map_option fst (map_of (lg_tokens (ledger s)) i)"

definition sub_used :: "int \<Rightarrow> Db \<Rightarrow> int" where
  "sub_used i s = (case find_sub i s of None \<Rightarrow> 0 | Some r \<Rightarrow> us_amountUsed r)"

definition deduct :: "int \<Rightarrow> int option \<Rightarrow> int option" where
  "deduct q = map_option (\<lambda>r. r - q)"

lemma deduct_simps [simp]: "deduct 0 t = t" "deduct a (deduct b t) = deduct (b + a) t"
  by (simp_all add: deduct_def option.map_comp comp_def option.map_ident diff_diff_eq)

text \<open>The rows that a session does not share with the quota of users and tokens.\<close>

definition same_rows :: "Db \<Rightarrow> Db \<Rightarrow> bool" where
  "same_rows s t \<longleftrightarrow> db_subs t = db_subs s \<and> db_records t = db_records s \<and> db_now t = db_now s \<and> db_plans t = db_plans s"

lemma map_of_token:
  "map_of (map (\<lambda>(k, r, u). if k = i then (k, r + q, u - q) else (k, r, u :: int)) xs) j =
     map_option (\<lambda>(r, u). if j = i then (r + q, u - q) else (r, u)) (map_of xs j)"
  by (induction xs) (auto split: if_splits)

lemma token_add:
  "ledger t = add_token i q (ledger s) \<Longrightarrow> token_left j t = (if j = i then deduct (- q) (token_left j s) else token_left j s)"
  by (auto simp: token_left_def add_token_def map_of_token deduct_def option.map_comp comp_def split_beta
      intro!: map_option_cong)

lemma token_user: "ledger t = add_user i q u c (ledger s) \<Longrightarrow> token_left j t = token_left j s"
  by (simp add: token_left_def add_user_def)

lemma user_token: "ledger t = add_token i q (ledger s) \<Longrightarrow> lg_users (ledger t) = lg_users (ledger s)"
  by (simp add: add_token_def)

lemma balance_add:
  "ledger t = add_user i q 0 0 (ledger s) \<Longrightarrow> lg_users (ledger s) i \<noteq> None \<Longrightarrow> balance i t = balance i s + q"
  by (auto simp: balance_def add_user_def)

lemma users_add: "ledger t = add_user i q 0 0 (ledger s) \<Longrightarrow> (lg_users (ledger t) j = None) = (lg_users (ledger s) j = None)"
  by (auto simp: add_user_def)

lemma quota_rows: "same_rows s (quota_step s op)" if "op \<noteq> BatchTick"
  using that by (cases op) (auto simp: same_rows_def Quota_defs quota_defs db_exec_def asked_def split: option.splits)

lemma quota_none:
  assumes "fine s" and "0 \<le> q"
  shows "fst (IncreaseUserQuota i q False s) = None" and "fst (DecreaseUserQuota i q False s) = None"
    and "fst (IncreaseTokenQuota i q s) = None" and "fst (DecreaseTokenQuota i q s) = None"
  using assms by (simp_all add: fine_def Quota_defs quota_defs)

lemma quota_effect:
  assumes "fine s" and "0 \<le> q"
  shows "\<exists>t. IncreaseUserQuota i q False s = (None, t) \<and> fine t \<and> same_rows s t \<and> ledger t = add_user i q 0 0 (ledger s)"
    and "\<exists>t. DecreaseUserQuota i q False s = (None, t) \<and> fine t \<and> same_rows s t \<and> ledger t = add_user i (- q) 0 0 (ledger s)"
    and "\<exists>t. IncreaseTokenQuota i q s = (None, t) \<and> fine t \<and> same_rows s t \<and> ledger t = add_token i q (ledger s)"
    and "\<exists>t. DecreaseTokenQuota i q s = (None, t) \<and> fine t \<and> same_rows s t \<and> ledger t = add_token i (- q) (ledger s)"
  using quota_none [OF assms, of i] assms quota_step_refines [of s "IncUser i q"] quota_step_refines [of s "DecUser i q"]
    quota_step_refines [of s "IncToken i q"] quota_step_refines [of s "DecToken i q"]
    quota_rows [of "IncUser i q" s] quota_rows [of "DecUser i q" s] quota_rows [of "IncToken i q" s] quota_rows [of "DecToken i q" s]
  by (auto simp: fine_def prod_eq_iff)

lemma rows_refl [simp]: "same_rows s s"
  by (simp add: same_rows_def)

lemma rows_trans [trans]: "same_rows r s \<Longrightarrow> same_rows s t \<Longrightarrow> same_rows r t"
  by (simp add: same_rows_def)

lemma rows_fold: "(\<And>x t. same_rows t (f x t)) \<Longrightarrow> same_rows s (fold f xs s)"
  by (induction xs arbitrary: s) (auto intro: rows_trans)

lemma tick_rows: "same_rows s (batchUpdate s)"
proof -
  let ?s0 = "s\<lparr>db_userStore := [], db_tokenStore := [], db_usedStore := [], db_channelStore := [], db_countStore := []\<rparr>"
  have e: "same_rows t (snd (db_exec f t))" if "\<And>t. same_rows t (f t)" for f t
    using that [of "asked t"] by (auto simp: db_exec_def same_rows_def asked_def split: option.splits)
  have "same_rows s ?s0" by (simp add: same_rows_def)
  moreover have "same_rows t (snd (increaseTokenQuota k v t))" for k v t
    unfolding increaseTokenQuota_def update_token_def by (rule e) (simp add: same_rows_def)
  moreover have "same_rows t (updateChannelUsedQuota k v t)" for k v t
    unfolding updateChannelUsedQuota_def by (rule e) (simp add: same_rows_def)
  moreover have "same_rows t (snd (update_user k f t))" for k f t
    unfolding update_user_def by (rule e) (simp add: same_rows_def)
  then have "same_rows t (updateUserQuotaUsedQuotaAndRequestCount k a b c t)" for k a b c t
    by (simp add: updateUserQuotaUsedQuotaAndRequestCount_def)
  ultimately show ?thesis
    unfolding batchUpdate_def Let_def
    by (cases "db_userStore s = [] \<and> db_tokenStore s = [] \<and> db_usedStore s = [] \<and> db_channelStore s = [] \<and> db_countStore s = []")
      (simp, simp only: if_False, intro rows_trans [OF _ rows_fold], auto)
qed

lemma tick_books: "fine s \<Longrightarrow> fine (batchUpdate s) \<and> ledger (batchUpdate s) = ledger s"
  using batch_ledger [of s] by (simp add: fine_def)

subsection \<open>Tokens of a request\<close>

definition token_charge :: "RelayInfo \<Rightarrow> int \<Rightarrow> int" where
  "token_charge info q = (if ri_IsPlayground info then 0 else q)"

lemma token_pre_cases:
  assumes "fine s" and "0 \<le> q" and "PreConsumeTokenQuota env info q s = (r, t)"
  shows "r \<noteq> None \<and> t = s \<or> r = None \<and> ri_IsPlayground info \<and> t = s \<or>
     r = None \<and> \<not> ri_IsPlayground info \<and> fine t \<and> same_rows s t \<and> ledger t = add_token (ri_TokenId info) (- q) (ledger s)"
proof -
  obtain u where u: "DecreaseTokenQuota (ri_TokenId info) q s = (None, u)" "fine u" "same_rows s u"
      "ledger u = add_token (ri_TokenId info) (- q) (ledger s)"
    using quota_effect(4) [OF assms(1,2)] by metis
  have q: "quiet s" using assms(1) by (simp add: fine_def)
  have "r \<noteq> None \<and> t = s \<or> r = None \<and> ri_IsPlayground info \<and> t = s \<or> r = None \<and> \<not> ri_IsPlayground info \<and> t = u"
    using assms(2,3) q u(1)
    by (auto simp: PreConsumeTokenQuota_def GetTokenByKey_def split: if_splits option.splits sum.splits)
  then show ?thesis using u by auto
qed

lemma token_pre:
  assumes "fine s" and "0 \<le> q" and "PreConsumeTokenQuota env info q s = (r, t)"
  shows "fine t \<and> same_rows s t \<and> lg_users (ledger t) = lg_users (ledger s) \<and>
     token_left i t = (if r = None \<and> i = ri_TokenId info then deduct (token_charge info q) (token_left i s) else token_left i s)"
  using token_pre_cases [OF assms] assms(1) user_token token_add by (auto simp: token_charge_def)

lemma token_adjust:
  assumes "fine s" and "d \<noteq> 0"
  obtains t where "adjust_token info d s = (None, t)" and "fine t" and "same_rows s t"
    and "lg_users (ledger t) = lg_users (ledger s)"
    and "token_left (ri_TokenId info) t = deduct (token_charge info d) (token_left (ri_TokenId info) s)"
proof (cases "ri_IsPlayground info")
  case True
  then show ?thesis using that [of s] assms(1) by (simp add: adjust_token_def token_charge_def)
next
  case False
  have "\<exists>t. adjust_token info d s = (None, t) \<and> fine t \<and> same_rows s t \<and> ledger t = add_token (ri_TokenId info) (- d) (ledger s)"
    using False assms quota_effect(3) [OF assms(1), of "- d"] quota_effect(4) [OF assms(1), of d]
    by (auto simp: adjust_token_def)
  then obtain t where t: "adjust_token info d s = (None, t)" "fine t" "same_rows s t"
      "ledger t = add_token (ri_TokenId info) (- d) (ledger s)" by blast
  then show ?thesis
    using that [OF t(1-3) user_token [OF t(4)]] token_add [OF t(4)] False by (simp add: token_charge_def)
qed

subsection \<open>Sessions that are backed\<close>

fun account :: "FundingSource \<Rightarrow> int" where
  "account (Wallet w) = wf_userId w"
| "account (Subscription f) = sf_subscriptionId f"

text \<open>
  An open session on the account \<open>a\<close>: beyond the \<open>c\<close> that the account had paid before and
  the \<open>left\<close> that the token had left, exactly the amount of the session is held.
\<close>

definition backed ::
  "(FundingSource \<Rightarrow> Db \<Rightarrow> int) \<Rightarrow> (FundingSource \<Rightarrow> int \<Rightarrow> int \<Rightarrow> Db \<Rightarrow> bool) \<Rightarrow> int \<Rightarrow> int \<Rightarrow> int \<Rightarrow> bool \<Rightarrow> int option \<Rightarrow>
   BillingSession \<Rightarrow> Db \<Rightarrow> bool" where
  "backed spent holds a c tid pg left b s \<longleftrightarrow>
     fine s \<and> holds (bs_funding b) (bs_preConsumedQuota b) (bs_extraReserved b) s \<and>
     account (bs_funding b) = a \<and> spent (bs_funding b) s = c + bs_preConsumedQuota b \<and>
     ri_TokenId (bs_relayInfo b) = tid \<and> ri_IsPlayground (bs_relayInfo b) = pg \<and>
     token_left tid s = deduct (token_charge (bs_relayInfo b) (bs_preConsumedQuota b)) left \<and>
     0 \<le> bs_preConsumedQuota b \<and> 0 \<le> bs_extraReserved b \<and> bs_tokenConsumed b = bs_preConsumedQuota b \<and>
     \<not> bs_settled b \<and> \<not> bs_refunded b \<and> \<not> bs_fundingSettled b \<and> syncRelayInfo b = b"

lemma sync_ids [simp]:
  "ri_TokenId (bs_relayInfo (syncRelayInfo b)) = ri_TokenId (bs_relayInfo b)"
  "ri_IsPlayground (bs_relayInfo (syncRelayInfo b)) = ri_IsPlayground (bs_relayInfo b)"
  "bs_funding (syncRelayInfo b) = bs_funding b" "bs_preConsumedQuota (syncRelayInfo b) = bs_preConsumedQuota b"
  "bs_extraReserved (syncRelayInfo b) = bs_extraReserved b" "bs_tokenConsumed (syncRelayInfo b) = bs_tokenConsumed b"
  "bs_settled (syncRelayInfo b) = bs_settled b" "bs_refunded (syncRelayInfo b) = bs_refunded b"
  "bs_fundingSettled (syncRelayInfo b) = bs_fundingSettled b" "syncRelayInfo (syncRelayInfo b) = syncRelayInfo b"
  by (simp_all add: syncRelayInfo_def Let_def split: FundingSource.splits)

lemma charge_sync [simp]: "token_charge (bs_relayInfo (syncRelayInfo b)) = token_charge (bs_relayInfo b)"
  by (simp add: token_charge_def fun_eq_iff)

lemma charge_add: "token_charge info (p + q) = token_charge info p + token_charge info q"
  by (simp add: token_charge_def)

lemma account_kept:
  "reserveFunding d f s = (Inr f', t) \<Longrightarrow> account f' = account f \<and> Source f' = Source f"
  "rollbackFundingReserve d f s = (f', t) \<Longrightarrow> account f' = account f \<and> Source f' = Source f"
  by (auto simp: reserveFunding_def rollbackFundingReserve_def split: FundingSource.splits prod.splits option.splits)

lemma sync_wallet:
  "bs_funding b = Wallet w \<Longrightarrow> syncRelayInfo (b\<lparr>bs_funding := Wallet w'\<rparr>) = (syncRelayInfo b)\<lparr>bs_funding := Wallet w'\<rparr>"
  by (simp add: syncRelayInfo_def)

lemma rollback_kind:
  assumes "reserveFunding d f0 s = (Inr f, t)" and "rollbackFundingReserve d f t' = (f', u)"
  shows "f' = f0 \<or> (\<exists>w w'. f0 = Wallet w \<and> f' = Wallet w')"
  using assms
  by (auto simp: reserveFunding_def rollbackFundingReserve_def split: FundingSource.splits prod.splits option.splits)

lemma sync_rollback:
  assumes "reserveFunding d (bs_funding b) s = (Inr f, t)" and "rollbackFundingReserve d f t' = (f', u)" and "syncRelayInfo b = b"
  shows "syncRelayInfo (b\<lparr>bs_funding := f'\<rparr>) = b\<lparr>bs_funding := f'\<rparr>"
  using rollback_kind [OF assms(1,2)]
proof
  assume "f' = bs_funding b"
  then show ?thesis using assms(3) by simp
next
  assume "\<exists>w w'. bs_funding b = Wallet w \<and> f' = Wallet w'"
  then show ?thesis using sync_wallet [of b] assms(3) by auto
qed

lemma token_rows: "lg_tokens (ledger t) = lg_tokens (ledger s) \<Longrightarrow> token_left i t = token_left i s"
  by (simp add: token_left_def)

subsection \<open>The contract of a funding source\<close>

text \<open>
  \<open>spent f s\<close> is what the account behind \<open>f\<close> has paid so far; \<open>holds f p e s\<close> says that the
  source holds \<open>p\<close> for the request, \<open>e\<close> of it reserved after the request was opened.  The
  laws are those of requests that never ask for more than \<open>cap\<close>.
\<close>

locale funding_source =
  fixes spent :: "FundingSource \<Rightarrow> Db \<Rightarrow> int"
    and holds :: "FundingSource \<Rightarrow> int \<Rightarrow> int \<Rightarrow> Db \<Rightarrow> bool"
    and cap :: int
  assumes frame: "lg_users (ledger t) = lg_users (ledger s) \<Longrightarrow> same_rows s t \<Longrightarrow>
      spent f t = spent f s \<and> holds f p e t = holds f p e s"
    and settle: "fine s \<Longrightarrow> holds f p e s \<Longrightarrow> 0 \<le> p + d \<Longrightarrow> p + d \<le> cap \<Longrightarrow> d \<noteq> 0 \<Longrightarrow> funding_Settle f d s = (None, t) \<Longrightarrow>
      fine t \<and> spent f t = spent f s + d \<and> lg_tokens (ledger t) = lg_tokens (ledger s)"
    and reserve: "fine s \<Longrightarrow> holds f p e s \<Longrightarrow> 0 < d \<Longrightarrow> p + d \<le> cap \<Longrightarrow> reserveFunding d f s = (Inr f', t) \<Longrightarrow>
      fine t \<and> spent f' t = spent f s + d \<and> holds f' (p + d) (e + d) t \<and> lg_tokens (ledger t) = lg_tokens (ledger s)"
    and refuse: "fine s \<Longrightarrow> holds f p e s \<Longrightarrow> 0 < d \<Longrightarrow> reserveFunding d f s = (Inl x, t) \<Longrightarrow> t = s"
    and rollback: "fine s \<Longrightarrow> holds f (p + d) (e + d) s \<Longrightarrow> 0 < d \<Longrightarrow> 0 \<le> e \<Longrightarrow> rollbackFundingReserve d f s = (f', t) \<Longrightarrow>
      fine t \<and> spent f' t = spent f s - d \<and> holds f' p e t \<and> lg_tokens (ledger t) = lg_tokens (ledger s)"
    and refund: "fine s \<Longrightarrow> holds (bs_funding b) (bs_preConsumedQuota b) (bs_extraReserved b) s \<Longrightarrow> 0 < bs_preConsumedQuota b \<Longrightarrow>
      syncRelayInfo b = b \<Longrightarrow>
      fine (refund_funding b s) \<and> spent (bs_funding b) (refund_funding b s) = spent (bs_funding b) s - bs_preConsumedQuota b \<and>
      lg_tokens (ledger (refund_funding b s)) = lg_tokens (ledger s)"
begin

abbreviation "bk \<equiv> backed spent holds"

lemma tick_backed: "bk a c tid pg left b s \<Longrightarrow> bk a c tid pg left b (batchUpdate s)"
  using tick_books [of s] frame [of "batchUpdate s" s] tick_rows [of s] by (simp add: backed_def token_left_def)

lemma reserve_backed:
  assumes "bk a c tid pg left b s" and "q \<le> cap" and "Reserve env q b s = (r, b', t)"
  shows "bk a c tid pg left b' t"
proof (cases "bs_trusted b \<or> q \<le> bs_preConsumedQuota b")
  case True
  then show ?thesis using assms by (auto simp: Reserve_def)
next
  case False
  let ?p = "bs_preConsumedQuota b" and ?d = "q - bs_preConsumedQuota b" and ?i = "bs_relayInfo b"
  have b: "fine s" "holds (bs_funding b) ?p (bs_extraReserved b) s" "\<not> bs_settled b" "\<not> bs_refunded b"
      "0 \<le> bs_extraReserved b"
    using assms(1) by (simp_all add: backed_def)
  have d: "0 < ?d" using False by simp
  obtain x u where x: "reserveFunding ?d (bs_funding b) s = (x, u)" by fastforce
  show ?thesis
  proof (cases x)
    case (Inl e)
    then show ?thesis using refuse [OF b(1,2) d x [unfolded Inl]] x assms False b(3,4) by (simp add: Reserve_def Let_def)
  next
    case (Inr f)
    have f: "fine u \<and> spent f u = spent (bs_funding b) s + ?d \<and> holds f (?p + ?d) (bs_extraReserved b + ?d) u \<and> lg_tokens (ledger u) = lg_tokens (ledger s)"
      using reserve [OF b(1,2) d _ x [unfolded Inr]] assms(2) by simp
    obtain y v where y: "reserveToken env ?d ?i u = (y, v)" by fastforce
    have v: "fine v \<and> same_rows u v \<and> lg_users (ledger v) = lg_users (ledger u) \<and>
        token_left tid v = (if y = None then deduct (token_charge ?i ?d) (token_left tid u) else token_left tid u)"
      using token_pre [of u ?d env ?i _ _ tid] y d f assms(1)
      by (auto simp: reserveToken_def token_charge_def backed_def split: if_splits prod.splits option.splits)
    have g: "spent f v = spent (bs_funding b) s + ?d \<and> holds f (?p + ?d) (bs_extraReserved b + ?d) v"
      using frame [of v u] v f by simp
    have tl: "token_left tid u = deduct (token_charge ?i ?p) left"
      using token_rows [of u s] f assms(1) by (simp add: backed_def)
    show ?thesis
    proof (cases y)
      case None
      have "b' = syncRelayInfo (b\<lparr>bs_funding := f, bs_preConsumedQuota := ?p + ?d, bs_tokenConsumed := bs_tokenConsumed b + ?d,
          bs_extraReserved := bs_extraReserved b + ?d\<rparr>)" "t = v"
        using assms(3) x y Inr None False b(3,4) by (simp_all add: Reserve_def Let_def)
      moreover have "spent f v = c + (?p + ?d)" using g assms(1) by (simp add: backed_def)
      moreover have "token_left tid v = deduct (token_charge ?i (?p + ?d)) left"
        using v tl None charge_add [of ?i ?p ?d] by simp
      ultimately show ?thesis
        using assms(1) g v d account_kept(1) [OF x [unfolded Inr]] unfolding backed_def by (simp add: token_charge_def)
    next
      case (Some e)
      obtain f' w where w: "rollbackFundingReserve ?d f v = (f', w)" by fastforce
      note h = rollback [OF conjunct1 [OF v] conjunct2 [OF g] d b(5) w]
      have "spent f' w = c + ?p" using h g assms(1) by (simp add: backed_def)
      moreover have "token_left tid w = deduct (token_charge ?i ?p) left"
        using token_rows [of w v tid] h v tl Some by simp
      moreover have "account f' = a"
        using account_kept(1) [OF x [unfolded Inr]] account_kept(2) [OF w] assms(1) by (simp add: backed_def)
      moreover have "syncRelayInfo (b\<lparr>bs_funding := f'\<rparr>) = b\<lparr>bs_funding := f'\<rparr>"
        using sync_rollback [OF x [unfolded Inr] w] assms(1) by (simp add: backed_def)
      moreover have "b' = b\<lparr>bs_funding := f'\<rparr>" "t = w"
        using assms(3) x y Inr Some w False b(3,4) by (simp_all add: Reserve_def Let_def)
      ultimately show ?thesis using assms(1) h unfolding backed_def by simp
    qed
  qed
qed

text \<open>Settling charges the amount that was used, on the account and on the token.\<close>

lemma settle_charges:
  assumes "bk a c tid pg left b s" and "0 \<le> q" and "q \<le> cap" and "Settle q b s = (None, b', t)"
  shows "fine t \<and> bs_settled b' \<and> spent (bs_funding b) t = c + q \<and>
     token_left tid t = deduct (if pg then 0 else q) left"
proof (cases "q = bs_preConsumedQuota b")
  case True
  then show ?thesis using assms by (auto simp: Settle_def backed_def token_charge_def)
next
  case False
  let ?d = "q - bs_preConsumedQuota b" and ?i = "bs_relayInfo b"
  have b: "fine s" "holds (bs_funding b) (bs_preConsumedQuota b) (bs_extraReserved b) s" "\<not> bs_settled b" "\<not> bs_fundingSettled b"
    using assms(1) by (simp_all add: backed_def)
  obtain u where u: "funding_Settle (bs_funding b) ?d s = (None, u)" and r: "finish_settle ?d b u = (None, b', t)"
    using assms(4) b(3,4) False by (auto simp: Settle_def Let_def split: prod.splits option.splits)
  have f: "fine u \<and> spent (bs_funding b) u = spent (bs_funding b) s + ?d \<and> lg_tokens (ledger u) = lg_tokens (ledger s)"
    using settle [OF b(1,2) _ _ _ u] assms(2,3) False by simp
  obtain v where v: "adjust_token ?i ?d u = (None, v)" "fine v" "same_rows u v" "lg_users (ledger v) = lg_users (ledger u)"
      "token_left (ri_TokenId ?i) v = deduct (token_charge ?i ?d) (token_left (ri_TokenId ?i) u)"
    using token_adjust [of u ?d ?i] f False by auto
  have "t = v" "bs_settled b'" using r v(1) by (auto simp: finish_settle_def)
  then show ?thesis
    using v f frame [OF v(4,3)] token_rows [of u s tid] assms(1) by (auto simp: backed_def token_charge_def)
qed

text \<open>Paying back leaves the account and the token as they were before the request.\<close>

lemma refund_restores:
  assumes "bk a c tid pg left b s" and "bs_preConsumedQuota b = 0 \<longrightarrow> (\<forall>f. bs_funding b \<noteq> Subscription f)"
    and "Refund b s = (b', t)"
  shows "fine t \<and> spent (bs_funding b) t = c \<and> token_left tid t = left"
proof (cases "bs_preConsumedQuota b = 0")
  case True
  then have "\<not> needsRefundLocked b"
    using assms(1,2) by (auto simp: needsRefundLocked_def backed_def split: FundingSource.splits)
  then show ?thesis using assms True by (auto simp: Refund_def backed_def token_charge_def)
next
  case False
  let ?p = "bs_preConsumedQuota b" and ?i = "bs_relayInfo b" and ?u = "refund_funding b s"
  have p: "0 < ?p" "bs_tokenConsumed b = ?p" using False assms(1) by (simp_all add: backed_def)
  then have t: "t = pay_back b s" using assms(1,3) by (auto simp: Refund_def needsRefundLocked_def backed_def)
  have f: "fine ?u \<and> spent (bs_funding b) ?u = spent (bs_funding b) s - ?p \<and> lg_tokens (ledger ?u) = lg_tokens (ledger s)"
    using refund [of s b] p assms(1) by (simp add: backed_def)
  then have tl: "token_left tid ?u = deduct (token_charge ?i ?p) left"
    using token_rows [of ?u s tid] assms(1) by (simp add: backed_def)
  obtain v where v: "IncreaseTokenQuota tid ?p ?u = (None, v)" "fine v" "same_rows ?u v" "ledger v = add_token tid ?p (ledger ?u)"
    using quota_effect(3) [of ?u ?p tid] f p by auto
  have i: "ri_TokenId ?i = tid" using assms(1) by (simp add: backed_def)
  show ?thesis
    using t f tl v p i assms(1) token_add [OF v(4), of tid] frame [OF user_token [OF v(4)] v(3)]
    by (auto simp: pay_back_def Let_def token_charge_def backed_def)
qed

end

subsection \<open>The wallet\<close>

fun wallet_spent :: "FundingSource \<Rightarrow> Db \<Rightarrow> int" where
  "wallet_spent (Wallet w) s = - balance (wf_userId w) s"
| "wallet_spent (Subscription f) s = 0"

fun wallet_holds :: "FundingSource \<Rightarrow> int \<Rightarrow> int \<Rightarrow> Db \<Rightarrow> bool" where
  "wallet_holds (Wallet w) p e s \<longleftrightarrow> wf_consumed w = p \<and> lg_users (ledger s) (wf_userId w) \<noteq> None"
| "wallet_holds (Subscription f) p e s \<longleftrightarrow> False"

lemma tokens_user: "ledger t = add_user i q u c (ledger s) \<Longrightarrow> lg_tokens (ledger t) = lg_tokens (ledger s)"
  by (simp add: add_user_def)

lemma source_distinct [simp]: "BillingSourceWallet \<noteq> BillingSourceSubscription" "BillingSourceSubscription \<noteq> BillingSourceWallet"
  by (simp_all add: BillingSourceWallet_def BillingSourceSubscription_def js_def)

lemma wallet_moves:
  assumes "fine s" and "lg_users (ledger s) i \<noteq> None" and "0 \<le> q"
  obtains t where "IncreaseUserQuota i q False s = (None, t)" and "fine t" and "balance i t = balance i s + q"
      and "lg_users (ledger t) i \<noteq> None" and "lg_tokens (ledger t) = lg_tokens (ledger s)"
  using quota_effect(1) [OF assms(1,3), of i] balance_add [OF _ assms(2)] users_add tokens_user assms(2) by metis

lemma wallet_pays:
  assumes "fine s" and "lg_users (ledger s) i \<noteq> None" and "0 \<le> q"
  obtains t where "DecreaseUserQuota i q False s = (None, t)" and "fine t" and "balance i t = balance i s - q"
      and "lg_users (ledger t) i \<noteq> None" and "lg_tokens (ledger t) = lg_tokens (ledger s)"
  using quota_effect(2) [OF assms(1,3), of i] balance_add [OF _ assms(2), of _ "- q"] users_add tokens_user assms(2)
  by (metis add_uminus_conv_diff)

interpretation wl: funding_source wallet_spent wallet_holds cap for cap
proof (unfold_locales, goal_cases)
  case (1 t s f p e)
  then show ?case by (cases f) (simp_all add: balance_def)
next
  case (2 s f p e d t)
  then show ?case
    by (cases f) (auto simp: wallet_Settle_def split: if_splits
        elim: wallet_moves [of s _ "- d"] wallet_pays [of s _ d])
next
  case (3 s f p e d f' t)
  then obtain w where f: "f = Wallet w" and u: "lg_users (ledger s) (wf_userId w) \<noteq> None" and c: "wf_consumed w = p"
    by (cases f) auto
  obtain t' where "DecreaseUserQuota (wf_userId w) (d) False s = (None, t')" "fine t'" "balance (wf_userId w) t' = balance (wf_userId w) s - d"
      "lg_users (ledger t') (wf_userId w) \<noteq> None" "lg_tokens (ledger t') = lg_tokens (ledger s)"
    using wallet_pays [OF 3(1) u, of d] 3(3) by auto
  then show ?case using 3 f c by (auto simp: reserveFunding_def)
next
  case (4 s f p e d x t)
  then obtain w where f: "f = Wallet w" and u: "lg_users (ledger s) (wf_userId w) \<noteq> None" by (cases f) auto
  obtain t' where "DecreaseUserQuota (wf_userId w) (d) False s = (None, t')" "fine t'" "balance (wf_userId w) t' = balance (wf_userId w) s - d"
      "lg_users (ledger t') (wf_userId w) \<noteq> None" "lg_tokens (ledger t') = lg_tokens (ledger s)"
    using wallet_pays [OF 4(1) u, of d] 4(3) by auto
  then show ?case using 4 f by (auto simp: reserveFunding_def)
next
  case (5 s f p d e f' t)
  then obtain w where f: "f = Wallet w" and u: "lg_users (ledger s) (wf_userId w) \<noteq> None" by (cases f) auto
  obtain t' where "IncreaseUserQuota (wf_userId w) (d) False s = (None, t')" "fine t'" "balance (wf_userId w) t' = balance (wf_userId w) s + d"
      "lg_users (ledger t') (wf_userId w) \<noteq> None" "lg_tokens (ledger t') = lg_tokens (ledger s)"
    using wallet_moves [OF 5(1) u, of d] 5(3) by auto
  then show ?case using 5 f by (auto simp: rollbackFundingReserve_def)
next
  case (6 s b)
  then obtain w where f: "bs_funding b = Wallet w" and u: "lg_users (ledger s) (wf_userId w) \<noteq> None"
    by (cases "bs_funding b") auto
  obtain t' where "IncreaseUserQuota (wf_userId w) (bs_preConsumedQuota b) False s = (None, t')" "fine t'" "balance (wf_userId w) t' = balance (wf_userId w) s + bs_preConsumedQuota b"
      "lg_users (ledger t') (wf_userId w) \<noteq> None" "lg_tokens (ledger t') = lg_tokens (ledger s)"
    using wallet_moves [OF 6(1) u, of "bs_preConsumedQuota b"] 6(3) by auto
  then show ?case using 6 f by (auto simp: refund_funding_def wallet_Refund_def Let_def)
qed

subsection \<open>The subscription\<close>

fun sub_spent :: "FundingSource \<Rightarrow> Db \<Rightarrow> int" where
  "sub_spent (Wallet w) s = 0"
| "sub_spent (Subscription f) s = sub_used (sf_subscriptionId f) s"

text \<open>The row holds \<open>p\<close> and stays below \<open>2 ^ 63\<close> when it holds \<open>cap\<close>.\<close>

definition row_ok :: "int \<Rightarrow> int \<Rightarrow> UserSubscription \<Rightarrow> bool" where
  "row_ok cap p r \<longleftrightarrow> p \<le> us_amountUsed r \<and> p \<le> cap \<and> us_amountUsed r - p + cap < 2 ^ 63 \<and>
     (us_amountTotal r > 0 \<longrightarrow> us_amountUsed r \<le> us_amountTotal r)"

fun sub_holds :: "int \<Rightarrow> FundingSource \<Rightarrow> int \<Rightarrow> int \<Rightarrow> Db \<Rightarrow> bool" where
  "sub_holds cap (Wallet w) p e s \<longleftrightarrow> False"
| "sub_holds cap (Subscription f) p e s \<longleftrightarrow>
     0 < sf_subscriptionId f \<and> (\<exists>r. find_sub (sf_subscriptionId f) s = Some r \<and> row_ok cap p r) \<and>
     TrimSpace (sf_requestId f) \<noteq> [] \<and>
     (\<exists>rec. find_record (sf_requestId f) s = Some rec \<and> pr_status rec = CONSUMED \<and>
        pr_userSubscriptionId rec = sf_subscriptionId f \<and> pr_preConsumed rec = sf_preConsumed f) \<and>
     0 < sf_preConsumed f \<and> sf_preConsumed f + e = p \<and> 0 \<le> e"

lemma find_replaced: "find P xs = Some x \<Longrightarrow> P y \<Longrightarrow> find P (map (\<lambda>x. if P x then y else x) xs) = Some y"
  by (induction xs) (auto split: if_splits)

lemma find_sub_put:
  "find_sub i s = Some r \<Longrightarrow> us_id sub = i \<Longrightarrow> find_sub i (put_sub sub s) = Some (sub\<lparr>us_updatedAt := db_now s\<rparr>)"
  using find_replaced [of "\<lambda>r. us_id r = i" "db_subs s" r "sub\<lparr>us_updatedAt := db_now s\<rparr>"]
  by (simp add: find_sub_def put_sub_def)

lemma put_sub_frame [simp]:
  "ledger (put_sub sub s) = ledger s" "fine (put_sub sub s) = fine s" "find_record i (put_sub sub s) = find_record i s"
  "db_records (put_sub sub s) = db_records s" "db_faults (put_sub sub s) = db_faults s" "db_now (put_sub sub s) = db_now s"
  by (simp_all add: put_sub_def ledger_def fine_def stores_ok_def find_record_def)

lemma put_record_frame [simp]:
  "ledger (put_record rec s) = ledger s" "fine (put_record rec s) = fine s" "find_sub i (put_record rec s) = find_sub i s"
  "db_faults (put_record rec s) = db_faults s"
  by (simp_all add: put_record_def ledger_def fine_def stores_ok_def find_sub_def)

lemma found_id: "find_sub i s = Some r \<Longrightarrow> us_id r = i"
  using find_in [of "\<lambda>r. us_id r = i" "db_subs s" r] by (simp add: find_sub_def)

lemma post_effect:
  assumes "fine s" and "0 < i" and "find_sub i s = Some r" and "d \<noteq> 0" and "n = max 0 (wrap64 (us_amountUsed r + d))"
  shows "PostConsumeUserSubscriptionDelta i d s =
     (if us_amountTotal r > 0 \<and> n > us_amountTotal r then (Some (js ''subscription used exceeds total''), s)
      else (None, put_sub (r\<lparr>us_amountUsed := n\<rparr>) s))"
  unfolding assms(5) using assms(1-4)
  by (auto simp: PostConsumeUserSubscriptionDelta_def transaction_def error_of_def fine_def save_sub_def Let_def)

lemma post_delta:
  assumes "fine s" and "0 < i" and "find_sub i s = Some r" and "d \<noteq> 0" and "0 \<le> us_amountUsed r + d" and "us_amountUsed r + d < 2 ^ 63"
  shows "PostConsumeUserSubscriptionDelta i d s =
     (if us_amountTotal r > 0 \<and> us_amountUsed r + d > us_amountTotal r then (Some (js ''subscription used exceeds total''), s)
      else (None, put_sub (r\<lparr>us_amountUsed := us_amountUsed r + d\<rparr>) s))"
  using post_effect [OF assms(1-4) refl] wrap64_int64 [of "us_amountUsed r + d"] assms(5,6) by (simp add: int64_def)

text \<open>
  Beyond \<open>2 ^ 63\<close> the sum wraps below zero and is clamped: the used amount is cleared,
  whatever the total is.
\<close>

lemma overflow_cleared:
  assumes "fine s" and "0 < i" and "find_sub i s = Some r" and "int64 (us_amountUsed r)" and "int64 d" and "2 ^ 63 \<le> us_amountUsed r + d"
  shows "PostConsumeUserSubscriptionDelta i d s = (None, put_sub (r\<lparr>us_amountUsed := 0\<rparr>) s)"
proof -
  let ?x = "us_amountUsed r + d"
  have "?x + 2 ^ 63 - 2 ^ 64 \<ge> 0" "?x + 2 ^ 63 - 2 ^ 64 < 2 ^ 64" using assms(4-6) by (simp_all add: int64_def)
  then have "(?x + 2 ^ 63 - 2 ^ 64) mod 2 ^ 64 = ?x + 2 ^ 63 - 2 ^ 64" by (rule mod_pos_pos_trivial)
  then have "(?x + 2 ^ 63) mod 2 ^ 64 = ?x + 2 ^ 63 - 2 ^ 64" unfolding minus_mod_self2 .
  then have "wrap64 ?x \<le> 0" using assms(4,5) by (simp add: wrap64_def int64_def)
  then have "max 0 (wrap64 ?x) = 0" by simp
  moreover have "d \<noteq> 0" using assms(4,6) by (auto simp: int64_def)
  ultimately show ?thesis using post_effect [OF assms(1-3) _ refl, of d] by auto
qed

lemma post_moves:
  assumes "fine s" and "0 < i" and "find_sub i s = Some r" and "row_ok cap p r" and "d \<noteq> 0" and "0 \<le> p + d" and "p + d \<le> cap"
    and "PostConsumeUserSubscriptionDelta i d s = (None, t)"
  shows "fine t \<and> sub_used i t = sub_used i s + d \<and> ledger t = ledger s \<and> (\<forall>j. find_record j t = find_record j s) \<and>
     (\<exists>r'. find_sub i t = Some r' \<and> row_ok cap (p + d) r')"
proof -
  have u: "0 \<le> us_amountUsed r + d" "us_amountUsed r + d < 2 ^ 63" using assms(4,6,7) by (simp_all add: row_ok_def)
  then have t: "t = put_sub (r\<lparr>us_amountUsed := us_amountUsed r + d\<rparr>) s"
      "us_amountTotal r > 0 \<longrightarrow> us_amountUsed r + d \<le> us_amountTotal r"
    using post_delta [OF assms(1-3,5) u] assms(8) by (auto split: if_splits)
  then show ?thesis
    using assms(1,3,4,7) find_sub_put [OF assms(3), of "r\<lparr>us_amountUsed := us_amountUsed r + d\<rparr>"] found_id [OF assms(3)]
    by (simp add: sub_used_def row_ok_def)
qed

lemma post_down:
  assumes "fine s" and "0 < i" and "find_sub i s = Some r" and "row_ok cap p r" and "0 < d" and "d \<le> p"
  obtains t where "PostConsumeUserSubscriptionDelta i (- d) s = (None, t)"
  using post_delta [OF assms(1-3), of "- d"] assms(4-6) by (auto simp: row_ok_def)

lemma mark_quiet: "fine s \<Longrightarrow> mark_refunded rec s = (None, put_record (rec\<lparr>pr_status := REFUNDED\<rparr>) s)"
  by (simp add: mark_refunded_def fine_def)

lemma refund_once:
  assumes "fine s" and "find_record i s = Some rec" and "pr_status rec = CONSUMED" and "TrimSpace i \<noteq> []" and "0 < pr_preConsumed rec"
    and "PostConsumeUserSubscriptionDelta (pr_userSubscriptionId rec) (- pr_preConsumed rec) s = (None, t)" and "fine t"
  shows "RefundSubscriptionPreConsume i s = (None, put_record (rec\<lparr>pr_status := REFUNDED\<rparr>) t)"
proof -
  have "CONSUMED \<noteq> REFUNDED" by (simp add: CONSUMED_def REFUNDED_def js_def)
  then show ?thesis using assms by (simp add: RefundSubscriptionPreConsume_def fine_def mark_quiet [OF assms(7)])
qed

lemma refund_quiet:
  assumes "fine s" and "find_record i s = Some rec" and "pr_status rec = CONSUMED" and "TrimSpace i \<noteq> []" and "0 < pr_preConsumed rec"
    and "PostConsumeUserSubscriptionDelta (pr_userSubscriptionId rec) (- pr_preConsumed rec) s = (None, t)" and "fine t"
  shows "refundWithRetry (RefundSubscriptionPreConsume i) s = (None, put_record (rec\<lparr>pr_status := REFUNDED\<rparr>) t)"
  using refund_once [OF assms] by (simp add: refundWithRetry_def eval_nat_numeral)

lemma sub_refund:
  assumes "fine s" and "sub_holds cap (Subscription f) p e s"
  obtains t r where "sub_Refund f s = (None, t)" and "fine t" and "ledger t = ledger s"
    and "sub_used (sf_subscriptionId f) t = sub_used (sf_subscriptionId f) s - sf_preConsumed f"
    and "find_sub (sf_subscriptionId f) t = Some r" and "row_ok cap e r"
proof -
  let ?i = "sf_subscriptionId f" and ?q = "sf_preConsumed f"
  obtain r rec where r: "find_sub ?i s = Some r" "row_ok cap p r" and rec: "find_record (sf_requestId f) s = Some rec"
      "pr_status rec = CONSUMED" "pr_userSubscriptionId rec = ?i" "pr_preConsumed rec = ?q"
    and f: "0 < ?i" "TrimSpace (sf_requestId f) \<noteq> []" "0 < ?q" "?q + e = p" "0 \<le> e"
    using assms(2) by auto
  obtain t where t: "PostConsumeUserSubscriptionDelta ?i (- ?q) s = (None, t)"
    using post_down [OF assms(1) f(1) r f(3)] f by auto
  have m: "fine t \<and> sub_used ?i t = sub_used ?i s - ?q \<and> ledger t = ledger s \<and> (\<exists>r'. find_sub ?i t = Some r' \<and> row_ok cap e r')"
    using post_moves [OF assms(1) f(1) r _ _ _ t] f r(2) by (auto simp: row_ok_def)
  then obtain r' where r': "find_sub ?i t = Some r'" "row_ok cap e r'" by blast
  have "sub_Refund f s = (None, put_record (rec\<lparr>pr_status := REFUNDED\<rparr>) t)"
    using refund_quiet [OF assms(1) rec(1,2) f(2)] rec t m f by (simp add: sub_Refund_def)
  then show thesis by (rule that) (use m r' in \<open>simp_all add: sub_used_def\<close>)
qed

lemma sub_moves:
  assumes "fine s" and "sub_holds cap (Subscription g) p e s" and "d \<noteq> 0" and "0 \<le> p + d" and "p + d \<le> cap"
    and "PostConsumeUserSubscriptionDelta (sf_subscriptionId g) d s = (None, t)"
  shows "fine t \<and> sub_used (sf_subscriptionId g) t = sub_used (sf_subscriptionId g) s + d \<and> ledger t = ledger s"
    and "0 \<le> e + d \<Longrightarrow> sub_holds cap (Subscription g) (p + d) (e + d) t"
proof -
  obtain r where r: "0 < sf_subscriptionId g" "find_sub (sf_subscriptionId g) s = Some r" "row_ok cap p r" using assms(2) by auto
  note m = post_moves [OF assms(1) r assms(3-6)]
  show "fine t \<and> sub_used (sf_subscriptionId g) t = sub_used (sf_subscriptionId g) s + d \<and> ledger t = ledger s" using m by simp
  show "sub_holds cap (Subscription g) (p + d) (e + d) t" if "0 \<le> e + d" using m assms(2) that by auto
qed

lemma sub_returns:
  assumes "fine s" and "sub_holds cap (Subscription g) p e s" and "0 < d" and "d \<le> p"
  obtains t where "PostConsumeUserSubscriptionDelta (sf_subscriptionId g) (- d) s = (None, t)"
proof -
  obtain r where "0 < sf_subscriptionId g" "find_sub (sf_subscriptionId g) s = Some r" "row_ok cap p r" using assms(2) by auto
  then show thesis using post_down [OF assms(1) _ _ _ assms(3,4)] that by blast
qed

interpretation sb: funding_source sub_spent "sub_holds cap" cap for cap
proof (unfold_locales, goal_cases)
  case (1 t s f p e)
  then show ?case by (cases f) (simp_all add: sub_used_def find_sub_def find_record_def same_rows_def)
next
  case (2 s f p e d t)
  then obtain g where f: "f = Subscription g" by (cases f) auto
  then show ?case using 2 sub_moves(1) [of s cap g p e d t] by (simp add: sub_Settle_def del: sub_holds.simps)
next
  case (3 s f p e d f' t)
  then obtain g where f: "f = Subscription g" by (cases f) auto
  have t: "PostConsumeUserSubscriptionDelta (sf_subscriptionId g) d s = (None, t)" "f' = f"
    using 3(5) f by (auto simp: reserveFunding_def split: prod.splits option.splits)
  have "0 \<le> p" "0 \<le> e" using 3(2) f by auto
  then show ?case
    using 3(3,4) t f sub_moves [OF 3(1) 3(2) [unfolded f] _ _ _ t(1)] by (simp del: sub_holds.simps)
next
  case (4 s f p e d x t)
  then obtain g r where f: "f = Subscription g" and r: "0 < sf_subscriptionId g" "find_sub (sf_subscriptionId g) s = Some r" "row_ok cap p r" "0 \<le> p"
    by (cases f) auto
  then show ?case
    using 4 post_effect [OF 4(1) r(1,2) _ refl, of d] by (auto simp: reserveFunding_def split: if_splits)
next
  case (5 s f p d e f' t)
  then obtain g where f: "f = Subscription g" by (cases f) auto
  have h: "sub_holds cap (Subscription g) (p + d) (e + d) s" using 5(2) f by simp
  then have p: "0 \<le> p" and c: "p \<le> cap" using 5(3,4) by (auto simp: row_ok_def)
  obtain u where u: "PostConsumeUserSubscriptionDelta (sf_subscriptionId g) (- d) s = (None, u)"
    using sub_returns [OF 5(1) h 5(3)] p by auto
  then have "t = u" "f' = f" using 5(5) f by (auto simp: rollbackFundingReserve_def)
  then show ?case using sub_moves [OF 5(1) h _ _ _ u] f p c 5(3,4) by (simp del: sub_holds.simps)
next
  case (6 s b)
  then obtain f where f: "bs_funding b = Subscription f" by (cases "bs_funding b") auto
  let ?i = "sf_subscriptionId f" and ?e = "bs_extraReserved b"
  have h: "0 < ?i" "sf_preConsumed f + ?e = bs_preConsumedQuota b" "0 \<le> ?e" using 6(2) f by auto
  have i: "ri_SubscriptionId (bs_relayInfo b) = ?i"
    using arg_cong [OF 6(4), of "\<lambda>b. ri_SubscriptionId (bs_relayInfo b)"] f by (simp add: syncRelayInfo_def Let_def)
  obtain t r where t: "sub_Refund f s = (None, t)" "fine t" "ledger t = ledger s"
      "sub_used ?i t = sub_used ?i s - sf_preConsumed f" "find_sub ?i t = Some r" "row_ok cap ?e r"
    using sub_refund [OF 6(1) 6(2) [unfolded f]] by blast
  have c: "0 \<le> cap" using t(6) h(3) by (simp add: row_ok_def)
  show ?case
  proof (cases "?e = 0")
    case True
    then show ?thesis using t f h i by (simp add: refund_funding_def Let_def)
  next
    case False
    then obtain u where u: "PostConsumeUserSubscriptionDelta ?i (- ?e) t = (None, u)"
      using post_down [OF t(2) h(1) t(5,6), of ?e] h(3) by auto
    then show ?thesis
      using post_moves [OF t(2) h(1) t(5,6) _ _ _ u] c False t f h i by (simp add: refund_funding_def Let_def)
  qed
qed

end
