(* ===== verification/BillingExact.thy ===== *)
theory BillingExact
  imports BillingLaws
begin

text \<open>
  Opening a session, and the properties of a whole request: what the account and the
  token pay when the request is settled, and what is left when it is paid back.
\<close>

subsection \<open>Taking from a subscription\<close>

text \<open>Primary keys are positive and unique, and no row is used below zero or beyond its total.\<close>

definition sound_row :: "UserSubscription \<Rightarrow> bool" where
  "sound_row r \<longleftrightarrow> within_row r \<and> 0 \<le> us_amountUsed r"

definition subs_ok :: "Db \<Rightarrow> bool" where
  "subs_ok s \<longleftrightarrow> distinct (map us_id (db_subs s)) \<and> list_all (\<lambda>r. 0 < us_id r) (db_subs s) \<and> list_all sound_row (db_subs s)"

lemma find_of_key: "distinct (map us_id rows) \<Longrightarrow> r \<in> set rows \<Longrightarrow> find (\<lambda>x. us_id x = us_id r) rows = Some r"
  by (induction rows) auto

lemma find_of_row: "subs_ok s \<Longrightarrow> r \<in> set (db_subs s) \<Longrightarrow> find_sub (us_id r) s = Some r"
  by (simp add: subs_ok_def find_sub_def find_of_key)

text \<open>
  A new period has begun: no future reset is noted, the plan resets, and the first reset
  after the last one (after the start when there was none) is in the past.
\<close>

definition reset_due :: "Zone \<Rightarrow> UserSubscription \<Rightarrow> SubscriptionPlan \<Rightarrow> int \<Rightarrow> bool" where
  "reset_due tz r plan now \<longleftrightarrow>
     \<not> (0 < us_nextResetTime r \<and> now < us_nextResetTime r) \<and> NormalizeResetPeriod (pl_quotaResetPeriod plan) \<noteq> SubscriptionResetNever \<and>
     (let first = calcNextResetTime tz (if us_lastResetTime r \<le> 0 then us_startTime r else us_lastResetTime r) plan (us_endTime r)
      in 0 < first \<and> first \<le> now)"

definition plan_of :: "(int \<Rightarrow> SubscriptionPlan option) \<Rightarrow> int \<Rightarrow> Db \<Rightarrow> SubscriptionPlan option" where
  "plan_of pc i s = (case pc i of Some plan \<Rightarrow> Some plan | None \<Rightarrow> find (\<lambda>p. pl_id p = i) (db_plans s))"

text \<open>What is used of a subscription at the present time: nothing once a new period has begun.\<close>

definition used_now :: "Zone \<Rightarrow> (int \<Rightarrow> SubscriptionPlan option) \<Rightarrow> int \<Rightarrow> Db \<Rightarrow> int" where
  "used_now tz pc i s =
     (case find_sub i s of
        None \<Rightarrow> 0
      | Some r \<Rightarrow>
          (case plan_of pc (us_planId r) s of
             None \<Rightarrow> us_amountUsed r
           | Some plan \<Rightarrow> if reset_due tz r plan (db_now s) then 0 else us_amountUsed r))"

lemma used_now_cases: "used_now tz pc i s = sub_used i s \<or> used_now tz pc i s = 0"
  by (simp add: used_now_def sub_used_def split: option.splits)

lemma loop_advanced: "reset_loop fuel tz plan e now base nxt True = Some (b, n, a) \<Longrightarrow> a"
  by (induction fuel arbitrary: base nxt) (auto split: if_splits)

lemma loop_advances: "reset_loop fuel tz plan e now base nxt False = Some (b, n, a) \<Longrightarrow> a = (0 < nxt \<and> nxt \<le> now)"
  by (cases fuel) (auto split: if_splits dest: loop_advanced)

lemma reset_effect:
  assumes "fine s" and "maybeResetUserSubscriptionWithPlanTx tz sub plan now s = (Inr sub', t)"
  shows "us_id sub' = us_id sub \<and> us_amountTotal sub' = us_amountTotal sub \<and>
     us_amountUsed sub' = (if reset_due tz sub plan now then 0 else us_amountUsed sub) \<and> (t = s \<and> sub' = sub \<or> t = put_sub sub' s)"
proof -
  let ?b = "if us_lastResetTime sub \<le> 0 then us_startTime sub else us_lastResetTime sub"
  let ?l = "reset_loop (nat now + 2) tz plan (us_endTime sub) now ?b (calcNextResetTime tz ?b plan (us_endTime sub)) False"
  note d = maybeResetUserSubscriptionWithPlanTx_def Let_def
  show ?thesis
  proof (cases "us_nextResetTime sub > 0 \<and> us_nextResetTime sub > now \<or> NormalizeResetPeriod (pl_quotaResetPeriod plan) = SubscriptionResetNever")
    case True
    then show ?thesis using assms by (auto simp: d reset_due_def split: if_splits)
  next
    case False
    then obtain b n a where l: "?l = Some (b, n, a)"
      using assms(2) unfolding d by (cases ?l) (auto simp del: reset_loop.simps split: if_splits)
    have n: "\<not> (us_nextResetTime sub > 0 \<and> us_nextResetTime sub > now)" "NormalizeResetPeriod (pl_quotaResetPeriod plan) \<noteq> SubscriptionResetNever"
      using False by auto
    have a: "reset_due tz sub plan now = a"
      using loop_advances [OF l] n by (auto simp: reset_due_def Let_def)
    show ?thesis
      using assms unfolding d l if_not_P [OF n(1)] if_not_P [OF n(2)]
      by (auto simp: a fine_def save_sub_def simp del: reset_loop.simps split: if_splits)
  qed
qed

lemma reset_refused:
  "fine s \<Longrightarrow> maybeResetUserSubscriptionWithPlanTx tz sub plan now s = (Inl e, t) \<Longrightarrow> t = s"
  by (auto simp: maybeResetUserSubscriptionWithPlanTx_def Let_def fine_def save_sub_def simp del: reset_loop.simps
      split: if_splits option.splits)

lemma plan_quiet: "fine s \<Longrightarrow> snd (getSubscriptionPlanByIdTx pc i s) = s"
  by (auto simp: getSubscriptionPlanByIdTx_def fine_def split: option.splits)

lemma plan_value:
  "fine s \<Longrightarrow> getSubscriptionPlanByIdTx pc i s = (Inr plan, t) \<Longrightarrow> plan_of pc i s = Some plan"
  by (auto simp: getSubscriptionPlanByIdTx_def plan_of_def fine_def split: if_splits option.splits)

lemma consume_effect:
  assumes "fine s" and "find_record i s = None"
  shows "consume_sub i u q sub s =
     (Inr (pre_result (sub\<lparr>us_amountUsed := wrap64 (us_amountUsed sub + q)\<rparr>) q (us_amountUsed sub)),
      put_sub (sub\<lparr>us_amountUsed := wrap64 (us_amountUsed sub + q)\<rparr>) (s\<lparr>db_records := db_records s @
        [\<lparr>pr_requestId = i, pr_userId = u, pr_userSubscriptionId = us_id sub, pr_preConsumed = q, pr_status = CONSUMED,
          pr_createdAt = db_now s, pr_updatedAt = db_now s\<rparr>]\<rparr>))"
  using assms by (simp add: consume_sub_def fine_def save_sub_def Let_def)

lemma put_sub_ids: "map us_id (db_subs (put_sub sub s)) = map us_id (db_subs s)"
  by (simp add: put_sub_def)

lemma put_sub_other: "r \<in> set (db_subs s) \<Longrightarrow> us_id r \<noteq> us_id sub \<Longrightarrow> r \<in> set (db_subs (put_sub sub s))"
  by (force simp: put_sub_def)

lemma find_unchanged: "\<not> P y \<Longrightarrow> (\<And>x. Q x \<Longrightarrow> \<not> P x) \<Longrightarrow> find P (map (\<lambda>x. if Q x then y else x) xs) = find P xs"
  by (induction xs) auto

lemma find_put_other: "j \<noteq> us_id sub \<Longrightarrow> find_sub j (put_sub sub s) = find_sub j s"
  using find_unchanged [of "\<lambda>r. us_id r = j" "sub\<lparr>us_updatedAt := db_now s\<rparr>" "\<lambda>r. us_id r = us_id sub" "db_subs s"]
  by (simp add: find_sub_def put_sub_def)

lemma used_put_other:
  assumes "j \<noteq> us_id sub"
  shows "sub_used j (put_sub sub s) = sub_used j s" and "used_now tz pc j (put_sub sub s) = used_now tz pc j s"
proof -
  have "plan_of pc i (put_sub sub s) = plan_of pc i s" for i by (simp add: plan_of_def put_sub_def split: option.split)
  then show "sub_used j (put_sub sub s) = sub_used j s" "used_now tz pc j (put_sub sub s) = used_now tz pc j s"
    by (simp_all only: sub_used_def used_now_def find_put_other [OF assms] put_sub_frame)
qed

lemma subs_ok_ids:
  "subs_ok s \<longleftrightarrow> distinct (map us_id (db_subs s)) \<and> list_all (\<lambda>i. 0 < i) (map us_id (db_subs s)) \<and> list_all sound_row (db_subs s)"
  by (simp add: subs_ok_def list.pred_map comp_def)

lemma put_ok: "subs_ok s \<Longrightarrow> sound_row sub \<Longrightarrow> subs_ok (put_sub sub s)"
  unfolding subs_ok_ids put_sub_ids by (auto simp: put_sub_def list_all_iff sound_row_def within_row_def)

lemma find_new_record:
  "find_record i s = None \<Longrightarrow> pr_requestId rec = i \<Longrightarrow> find_record i (s\<lparr>db_records := db_records s @ [rec]\<rparr>) = Some rec"
proof -
  have "find P xs = None \<Longrightarrow> P x \<Longrightarrow> find P (xs @ [x]) = Some x" for P :: "'a \<Rightarrow> bool" and xs x by (induction xs) auto
  then show "find_record i s = None \<Longrightarrow> pr_requestId rec = i \<Longrightarrow> find_record i (s\<lparr>db_records := db_records s @ [rec]\<rparr>) = Some rec"
    by (simp add: find_record_def)
qed

text \<open>
  What a request finds once a subscription has paid \<open>q\<close> for it: the amount in use at the
  time and \<open>q\<close>, as a 64-bit sum, which is within the total when there is one.
\<close>

definition charged_row :: "int \<Rightarrow> int \<Rightarrow> UserSubscription \<Rightarrow> bool" where
  "charged_row base q r \<longleftrightarrow> us_amountUsed r = wrap64 (base + q) \<and> 0 \<le> base \<and> base < 2 ^ 63 \<and>
     (us_amountTotal r > 0 \<longrightarrow> base + q \<le> us_amountTotal r)"

definition taken :: "Zone \<Rightarrow> (int \<Rightarrow> SubscriptionPlan option) \<Rightarrow> gostr \<Rightarrow> int \<Rightarrow> Db \<Rightarrow> SubscriptionPreConsumeResult \<Rightarrow> Db \<Rightarrow> bool" where
  "taken tz pc i q s res t \<longleftrightarrow>
     fine t \<and> ledger t = ledger s \<and> sr_preConsumed res = q \<and> 0 < sr_userSubscriptionId res \<and>
     (\<exists>r. find_sub (sr_userSubscriptionId res) t = Some r \<and> charged_row (used_now tz pc (sr_userSubscriptionId res) s) q r) \<and>
     (\<exists>rec. find_record i t = Some rec \<and> pr_status rec = CONSUMED \<and>
        pr_userSubscriptionId rec = sr_userSubscriptionId res \<and> pr_preConsumed rec = q)"

lemma charged_holds: "charged_row base q r \<Longrightarrow> 0 < q \<Longrightarrow> q \<le> cap \<Longrightarrow> base + cap < 2 ^ 63 \<Longrightarrow> row_ok cap q r \<and> us_amountUsed r = base + q"
  using wrap64_int64 [of "base + q"] by (auto simp: charged_row_def row_ok_def int64_def)

text \<open>Giving the amount back leaves the amount in use before, also after a sum that wrapped.\<close>

lemma charged_back:
  assumes "fine s" and "0 < i" and "find_sub i s = Some r" and "charged_row base q r" and "0 < q"
  shows "PostConsumeUserSubscriptionDelta i (- q) s = (None, put_sub (r\<lparr>us_amountUsed := base\<rparr>) s)"
proof -
  have "wrap64 (us_amountUsed r + - q) = base"
    using wrap64_back [of base q] wrap64_int64 [of base] assms(4) by (simp add: charged_row_def int64_def)
  then show ?thesis
    using post_effect [OF assms(1-3) _ refl, of "- q"] assms(4,5) by (auto simp: charged_row_def)
qed

lemma consume_taken:
  assumes "fine s" and "find_record i s = None" and "find_sub (us_id sub) s = Some r" and "sound_row sub" and "0 < us_id sub" and "0 < q"
    and "us_amountTotal sub > 0 \<longrightarrow> q \<le> us_amountTotal sub - us_amountUsed sub"
    and "us_amountUsed sub = used_now tz pc (us_id sub) s0" and "ledger s = ledger s0"
    and "consume_sub i u q sub s = (Inr res, t)"
  shows "taken tz pc i q s0 res t \<and> sr_userSubscriptionId res = us_id sub"
proof -
  let ?sub = "sub\<lparr>us_amountUsed := wrap64 (us_amountUsed sub + q)\<rparr>"
  let ?rec = "\<lparr>pr_requestId = i, pr_userId = u, pr_userSubscriptionId = us_id sub, pr_preConsumed = q, pr_status = CONSUMED,
      pr_createdAt = db_now s, pr_updatedAt = db_now s\<rparr>"
  let ?s = "s\<lparr>db_records := db_records s @ [?rec]\<rparr>"
  have c: "res = pre_result ?sub q (us_amountUsed sub)" "t = put_sub ?sub ?s"
    using consume_effect [OF assms(1,2), of u q sub] assms(10) by simp_all
  have "find_sub (us_id sub) ?s = Some r" using assms(3) by (simp add: find_sub_def)
  then have f: "find_sub (us_id sub) t = Some (?sub\<lparr>us_updatedAt := db_now ?s\<rparr>)"
    using find_sub_put [of "us_id sub" ?s r ?sub] c(2) by simp
  have "find_record i t = Some ?rec" using find_new_record [OF assms(2), of ?rec] c(2) by simp
  moreover have "fine ?s" "ledger ?s = ledger s" using assms(1) by (simp_all add: fine_def stores_ok_def ledger_def)
  then have "fine t" "ledger t = ledger s0" using assms(9) c(2) by simp_all
  moreover have "charged_row (used_now tz pc (us_id sub) s0) q (?sub\<lparr>us_updatedAt := db_now ?s\<rparr>)"
    using assms(4,7) unfolding assms(8) [symmetric] by (auto simp: charged_row_def sound_row_def within_row_def int64_def)
  ultimately show ?thesis
    using c(1) f assms(5) by (simp add: taken_def pre_result_def)
qed

lemma try_taken:
  assumes "fine s" and "find_record i s = None" and "subs_ok s" and "0 < q" and "set subs \<subseteq> set (db_subs s)" and "distinct (map us_id subs)"
    and "try_subs tz pc i u q (db_now s) subs s = (Inr res, t)"
  shows "taken tz pc i q s res t \<and> sr_userSubscriptionId res \<in> us_id ` set subs"
  using assms
proof (induction subs arbitrary: s)
  case (Cons c subs)
  have row: "c \<in> set (db_subs s)" using Cons.prems(5) by simp
  then have w: "sound_row c" "0 < us_id c" using Cons.prems(3) by (auto simp: subs_ok_def list_all_iff)
  have f: "find_sub (us_id c) s = Some c" using find_of_row [OF Cons.prems(3) row] .
  obtain plan sub v where p: "plan_of pc (us_planId c) s = Some plan"
      and m: "maybeResetUserSubscriptionWithPlanTx tz c plan (db_now s) s = (Inr sub, v)"
      and n: "(if us_amountTotal sub > 0 \<and> wrap64 (us_amountTotal sub - us_amountUsed sub) < q
         then try_subs tz pc i u q (db_now s) subs v else consume_sub i u q sub v) = (Inr res, t)"
  proof -
    obtain plan s1 where a: "getSubscriptionPlanByIdTx pc (us_planId c) s = (Inr plan, s1)"
        and b: "bind_db (maybeResetUserSubscriptionWithPlanTx tz c plan (db_now s) s1) (\<lambda>sub s'.
          if us_amountTotal sub > 0 \<and> wrap64 (us_amountTotal sub - us_amountUsed sub) < q
          then try_subs tz pc i u q (db_now s) subs s' else consume_sub i u q sub s') = (Inr res, t)"
      using bind_ok [OF Cons.prems(7) [unfolded try_subs.simps]] by blast
    have "s1 = s" using plan_quiet [OF Cons.prems(1), of pc "us_planId c"] a by simp
    then show thesis using that plan_value [OF Cons.prems(1) a] bind_ok [OF b] by blast
  qed
  note e = reset_effect [OF Cons.prems(1) m]
  have s: "sound_row sub" using e w(1) by (auto simp: sound_row_def within_row_def int64_def)
  have r: "wrap64 (us_amountTotal sub - us_amountUsed sub) = us_amountTotal sub - us_amountUsed sub" if "us_amountTotal sub > 0"
    using s that by (intro wrap64_int64) (auto simp: sound_row_def within_row_def int64_def)
  have v: "fine v" "ledger v = ledger s" "find_record i v = None" "subs_ok v" "db_now v = db_now s"
    using e Cons.prems(1-3) put_ok [OF Cons.prems(3) s] by auto
  have g: "\<exists>r. find_sub (us_id sub) v = Some r" using e f find_sub_put [OF f, of sub] by auto
  have d: "us_id x \<noteq> us_id sub" if "x \<in> set subs" for x
    using Cons.prems(6) conjunct1 [OF e] that by (metis distinct.simps(2) image_eqI list.set_map list.simps(9))
  show ?case
  proof (cases "us_amountTotal sub > 0 \<and> us_amountTotal sub - us_amountUsed sub < q")
    case True
    have "set subs \<subseteq> set (db_subs v)" using e d Cons.prems(5) put_sub_other [of _ s sub] by auto
    then have t: "taken tz pc i q v res t \<and> sr_userSubscriptionId res \<in> us_id ` set subs"
      using Cons.IH [OF v(1,3,4) Cons.prems(4)] Cons.prems(6) n True r v(5) by auto
    then have "used_now tz pc (sr_userSubscriptionId res) v = used_now tz pc (sr_userSubscriptionId res) s"
      using e d used_put_other(2) [of _ sub tz pc s] by auto
    then show ?thesis using t v(2) by (auto simp: taken_def)
  next
    case False
    have "us_amountUsed sub = used_now tz pc (us_id sub) s" using e f p by (simp add: used_now_def)
    then show ?thesis
      using consume_taken [OF v(1,3) _ s _ Cons.prems(4) _ _ v(2)] n False r g e w(2) by force
  qed
qed simp

lemma try_quiet: "fine s \<Longrightarrow> find_record i s = None \<Longrightarrow> quiet (snd (try_subs tz pc i u q now subs s))"
proof (induction subs arbitrary: s)
  case (Cons c subs)
  obtain r where p: "getSubscriptionPlanByIdTx pc (us_planId c) s = (r, s)"
    using plan_quiet [OF Cons.prems(1), of pc "us_planId c"] by (metis prod.collapse)
  show ?case
  proof (cases r)
    case (Inr plan)
    obtain x v where m: "maybeResetUserSubscriptionWithPlanTx tz c plan now s = (x, v)" by fastforce
    have "v = s \<or> (\<exists>sub. v = put_sub sub s)"
    proof (cases x)
      case (Inl e)
      then show ?thesis using reset_refused [OF Cons.prems(1)] m by simp
    next
      case (Inr sub)
      then show ?thesis using reset_effect [OF Cons.prems(1)] m by blast
    qed
    then have v: "fine v" "find_record i v = None" using Cons.prems by auto
    then have "quiet (snd (consume_sub i u q sub v))" for sub
      using consume_effect [OF v] by (simp add: fine_def)
    then show ?thesis using Cons.IH [OF v] p Inr m v(1) by (cases x) (simp_all add: fine_def)
  qed (use p Cons.prems in \<open>simp add: fine_def\<close>)
qed (simp add: fine_def)

text \<open>A fresh request takes the whole amount from one subscription, or nothing.\<close>

lemma pre_taken:
  assumes "fine s" and "find_record i s = None" and "subs_ok s" and "PreConsumeUserSubscription tz pc i u q s = (r, t)"
  shows "(\<exists>res. r = Inr res \<and> taken tz pc i q s res t \<and> TrimSpace i \<noteq> [] \<and> 0 < q) \<or> (\<exists>e. r = Inl e) \<and> t = s"
proof -
  let ?subs = "sort_by ends_before (filter (active_at u (db_now s)) (db_subs s))"
  let ?x = "if ?subs = [] then (Inl NO_ACTIVE, s) else try_subs tz pc i u q (db_now s) ?subs s"
  have d: "distinct (map us_id ?subs)"
    using assms(3) by (simp add: subs_ok_def distinct_map mset_eq_imp_distinct_iff [OF mset_sort_by] inj_on_def)
  have k: "set ?subs \<subseteq> set (db_subs s)" by auto
  have q: "quiet s" using assms(1) by (simp add: fine_def)
  have x: "quiet (snd ?x)" using try_quiet [OF assms(1,2)] q by simp
  show ?thesis
  proof (cases "u \<le> 0 \<or> TrimSpace i = [] \<or> q \<le> 0")
    case True
    then show ?thesis using assms(4) by (auto simp: PreConsumeUserSubscription_def split: if_splits)
  next
    case False
    then have e: "(r, t) = transaction (\<lambda>s. ?x) s"
      using assms(2,4) q by (simp add: PreConsumeUserSubscription_def Let_def transaction_def)
    obtain y v where y: "?x = (y, v)" by fastforce
    show ?thesis
    proof (cases y)
      case (Inl a)
      then show ?thesis using e x y q by (simp add: transaction_def)
    next
      case (Inr res)
      then have "try_subs tz pc i u q (db_now s) ?subs s = (Inr res, v)" using y by (auto split: if_splits)
      then have "taken tz pc i q s res v" using try_taken [OF assms(1-3) _ k d] False by auto
      then show ?thesis using e x y Inr False by (simp add: transaction_def)
    qed
  qed
qed

subsection \<open>Opening a session\<close>

text \<open>A failed attempt leaves the books as they were.\<close>

definition unmoved :: "Db \<Rightarrow> Db \<Rightarrow> bool" where
  "unmoved s t \<longleftrightarrow> fine t \<and> same_rows s t \<and> ledger t = ledger s"

lemma add_back: "add_token i q (add_token i (- q) l) = l"
  by (auto simp: add_token_def comp_def intro!: Ledger.equality map_idI)

lemma rows_used: "same_rows s t \<Longrightarrow> used_now tz pc i t = used_now tz pc i s"
  by (simp add: used_now_def find_sub_def plan_of_def same_rows_def split: option.split)

lemma unmoved_books:
  assumes "unmoved s t"
  shows "balance i t = balance i s" "token_left i t = token_left i s" "used_now tz pc i t = used_now tz pc i s" "subs_ok t = subs_ok s"
    "find_record k t = find_record k s" "lg_users (ledger t) = lg_users (ledger s)" "fine t"
  using assms
  using rows_used [of s t] by (simp_all add: unmoved_def balance_def token_left_def subs_ok_def same_rows_def find_record_def)

lemma token_rollback:
  assumes "fine s" and "0 < q" and "PreConsumeTokenQuota env info q s = (None, t)"
  shows "unmoved s (if \<not> ri_IsPlayground info then snd (IncreaseTokenQuota (ri_TokenId info) q t) else t)"
proof (cases "ri_IsPlayground info")
  case True
  then show ?thesis using token_pre_cases [OF assms(1) _ assms(3)] assms(1,2) by (simp add: unmoved_def)
next
  case False
  then have t: "fine t" "same_rows s t" "ledger t = add_token (ri_TokenId info) (- q) (ledger s)"
    using token_pre_cases [OF assms(1) _ assms(3)] assms(2) by auto
  obtain u where u: "IncreaseTokenQuota (ri_TokenId info) q t = (None, u)" "fine u" "same_rows t u"
      "ledger u = add_token (ri_TokenId info) q (ledger t)"
    using quota_effect(3) [OF t(1) less_imp_le [OF assms(2)]] by metis
  have "ledger u = ledger s" using u(4) t(3) add_back by simp
  then show ?thesis using False u rows_trans [OF t(2) u(3)] by (simp add: unmoved_def)
qed

lemma new_fields [simp]:
  "bs_relayInfo (new_session info f) = info" "bs_funding (new_session info f) = f" "bs_preConsumedQuota (new_session info f) = 0"
  "bs_tokenConsumed (new_session info f) = 0" "bs_extraReserved (new_session info f) = 0" "\<not> bs_settled (new_session info f)"
  "\<not> bs_refunded (new_session info f)" "\<not> bs_fundingSettled (new_session info f)"
  by (simp_all add: new_session_def)

lemma wallet_opens:
  assumes "fine s" and "0 \<le> q" and "lg_users (ledger s) uid \<noteq> None"
    and "preConsume env q (new_session info (Wallet \<lparr>wf_userId = uid, wf_consumed = 0\<rparr>)) s = (r, t)"
  shows "(\<exists>e. r = Inl e) \<and> unmoved s t \<or>
     (\<exists>b w. r = Inr b \<and> bs_funding b = Wallet w \<and> backed wallet_spent wallet_holds uid (- balance uid s) (ri_TokenId info)
        (ri_IsPlayground info) (token_left (ri_TokenId info) s) b t)"
proof -
  let ?b = "new_session info (Wallet \<lparr>wf_userId = uid, wf_consumed = 0\<rparr>)"
  define q' where "q' = (if shouldTrust env ?b then 0 else q)"
  define b where "b = (if shouldTrust env ?b then ?b\<lparr>bs_trusted := True\<rparr> else ?b)"
  have b: "bs_relayInfo b = info" "bs_funding b = Wallet \<lparr>wf_userId = uid, wf_consumed = 0\<rparr>" "bs_preConsumedQuota b = 0"
      "bs_tokenConsumed b = 0" "bs_extraReserved b = 0" "\<not> bs_settled b" "\<not> bs_refunded b" "\<not> bs_fundingSettled b"
    by (simp_all add: b_def)
  have o: "(if q' > 0 then
        (case PreConsumeTokenQuota env info q' s of
           (Some e, s) \<Rightarrow> (Inl (NewErrorWithStatusCode e ErrorCodePreConsumeTokenQuotaFailed 403), s)
         | (None, s) \<Rightarrow> consume_funding env q' (b\<lparr>bs_tokenConsumed := q'\<rparr>) s)
      else consume_funding env q' b s) = (r, t)"
    using assms(4) unfolding preConsume_def Let_def q'_def [symmetric] b_def [symmetric] b(1) .
  have q': "0 \<le> q'" using assms(2) by (simp add: q'_def)
  show ?thesis
  proof (cases "q' > 0")
    case False
    then have "r = Inr (syncRelayInfo (b\<lparr>bs_funding := Wallet \<lparr>wf_userId = uid, wf_consumed = 0\<rparr>, bs_preConsumedQuota := 0\<rparr>))" "t = s"
      using o q' b by (auto simp: consume_funding_def wallet_PreConsume_def)
    then show ?thesis
      using assms(1,3) b by (simp add: backed_def token_charge_def)
  next
    case True
    obtain x u where x: "PreConsumeTokenQuota env info q' s = (x, u)" by fastforce
    note p = token_pre [OF assms(1) q' x, of "ri_TokenId info"]
    show ?thesis
    proof (cases x)
      case (Some e)
      then show ?thesis using o True x token_pre_cases [OF assms(1) q' x] assms(1) by (auto simp: unmoved_def)
    next
      case None
      have us: "lg_users (ledger u) uid \<noteq> None" "balance uid u = balance uid s" using p assms(3) by (simp_all add: balance_def)
      obtain v where v: "DecreaseUserQuota uid q' False u = (None, v)" "fine v" "balance uid v = balance uid u - q'"
          "lg_users (ledger v) uid \<noteq> None" "lg_tokens (ledger v) = lg_tokens (ledger u)"
        using wallet_pays [OF _ us(1) q'] p by blast
      have "r = Inr (syncRelayInfo (b\<lparr>bs_tokenConsumed := q', bs_funding := Wallet \<lparr>wf_userId = uid, wf_consumed = q'\<rparr>,
          bs_preConsumedQuota := q'\<rparr>))" "t = v"
        using o True x None v(1) b by (auto simp: consume_funding_def wallet_PreConsume_def)
      then show ?thesis
        using v us p None b token_rows [OF v(5)] q' by (simp add: backed_def token_charge_def)
    qed
  qed
qed

lemma info_quiet: "fine s \<Longrightarrow> snd (GetSubscriptionPlanInfoByUserSubscriptionId hit pc i s) = s"
proof -
  assume f: "fine s"
  then have q: "quiet s" by (simp add: fine_def)
  have "snd (bind_db (getSubscriptionPlanByIdTx pc j s) (\<lambda>plan s. (Inr (g plan), s))) = s" for j and g :: "SubscriptionPlan \<Rightarrow> SubscriptionPlanInfo"
    using plan_quiet [OF f, of pc j] by (auto simp: bind_db_def split: prod.splits sum.splits)
  then show ?thesis
    using q by (auto simp: GetSubscriptionPlanInfoByUserSubscriptionId_def split: option.splits)
qed

text \<open>What \<open>sub_PreConsume\<close> fills in on success.\<close>

lemma sub_pre:
  assumes "fine s" and "find_record (sf_requestId f) s = None" and "subs_ok s" and "sub_PreConsume env f s = (r, t)"
  shows "(\<exists>e. r = Inl e) \<and> t = s \<or>
     (\<exists>f'. r = Inr f' \<and> fine t \<and> ledger t = ledger s \<and> sf_requestId f' = sf_requestId f \<and> sf_preConsumed f' = sf_amount f \<and>
        (\<forall>cap. sf_amount f \<le> cap \<and> used_now (en_tz env) (en_plans env) (sf_subscriptionId f') s + cap < 2 ^ 63 \<longrightarrow>
           sub_used (sf_subscriptionId f') t = used_now (en_tz env) (en_plans env) (sf_subscriptionId f') s + sf_amount f \<and>
           sub_holds cap (Subscription f') (sf_amount f) 0 t))"
proof -
  obtain x u where x: "PreConsumeUserSubscription (en_tz env) (en_plans env) (sf_requestId f) (sf_userId f) (sf_amount f) s = (x, u)"
    by fastforce
  from pre_taken [OF assms(1-3) x] show ?thesis
  proof
    assume "(\<exists>e. x = Inl e) \<and> u = s"
    then show ?thesis using x assms(4) by (auto simp: sub_PreConsume_def)
  next
    assume "\<exists>res. x = Inr res \<and> taken (en_tz env) (en_plans env) (sf_requestId f) (sf_amount f) s res u \<and> TrimSpace (sf_requestId f) \<noteq> [] \<and> 0 < sf_amount f"
    then obtain res where r: "x = Inr res" "taken (en_tz env) (en_plans env) (sf_requestId f) (sf_amount f) s res u" "TrimSpace (sf_requestId f) \<noteq> []"
        "0 < sf_amount f" by blast
    obtain y v where y: "GetSubscriptionPlanInfoByUserSubscriptionId (en_planInfo env) (en_plans env) (sr_userSubscriptionId res) u = (y, v)"
      by fastforce
    have "v = u" using info_quiet [of u] r(2) y by (metis snd_conv taken_def)
    then obtain f' where "r = Inr f'" "t = u" "sf_requestId f' = sf_requestId f" "sf_preConsumed f' = sr_preConsumed res"
        "sf_subscriptionId f' = sr_userSubscriptionId res"
      using assms(4) x r(1) y by (cases y) (auto simp: sub_PreConsume_def Let_def)
    moreover have "row_ok cap (sf_amount f) row \<and> us_amountUsed row = base + sf_amount f"
      if "charged_row base (sf_amount f) row" "sf_amount f \<le> cap" "base + cap < 2 ^ 63" for base row cap
      using charged_holds [OF that(1) r(4) that(2,3)] .
    ultimately show ?thesis using r by (fastforce simp: taken_def sub_used_def)
  qed
qed

lemma sub_opens:
  assumes "fine s" and "0 < q" and "subs_ok s" and "find_record (sf_requestId f) s = None" and "sf_amount f = q"
    and "preConsume env q (new_session info (Subscription f)) s = (r, t)"
  shows "(\<exists>e. r = Inl e) \<and> unmoved s t \<or>
     (\<exists>b f'. r = Inr b \<and> bs_funding b = Subscription f' \<and>
        (\<forall>cap. q \<le> cap \<and> used_now (en_tz env) (en_plans env) (sf_subscriptionId f') s + cap < 2 ^ 63 \<longrightarrow>
           backed sub_spent (sub_holds cap) (sf_subscriptionId f') (used_now (en_tz env) (en_plans env) (sf_subscriptionId f') s)
             (ri_TokenId info) (ri_IsPlayground info) (token_left (ri_TokenId info) s) b t))"
proof -
  let ?b = "new_session info (Subscription f)"
  have n: "\<not> shouldTrust env ?b" by (simp add: shouldTrust_def)
  have o: "(case PreConsumeTokenQuota env info q s of
           (Some e, s) \<Rightarrow> (Inl (NewErrorWithStatusCode e ErrorCodePreConsumeTokenQuotaFailed 403), s)
         | (None, s) \<Rightarrow> consume_funding env q (?b\<lparr>bs_tokenConsumed := q\<rparr>) s) = (r, t)"
    using assms(6) unfolding preConsume_def Let_def if_not_P [OF n] if_P [OF assms(2)] new_fields .
  have q: "0 \<le> q" using assms(2) by simp
  obtain x u where x: "PreConsumeTokenQuota env info q s = (x, u)" by fastforce
  note p = token_pre [OF assms(1) q x, of "ri_TokenId info"]
  show ?thesis
  proof (cases x)
    case (Some e)
    then show ?thesis using o x token_pre_cases [OF assms(1) q x] assms(1) by (auto simp: unmoved_def)
  next
    case None
    have u: "fine u" "find_record (sf_requestId f) u = None" "subs_ok u" "\<And>tz pc i. used_now tz pc i u = used_now tz pc i s"
      using p assms(3,4) rows_used [of s u] by (simp_all add: same_rows_def find_record_def subs_ok_def)
    obtain y v where y: "sub_PreConsume env f u = (y, v)" by fastforce
    from sub_pre [OF u(1-3) y] show ?thesis
    proof
      assume "(\<exists>e. y = Inl e) \<and> v = u"
      then show ?thesis
        using o x None y token_rollback [OF assms(1,2) x [unfolded None]] assms(2)
        by (auto simp: consume_funding_def split: if_splits)
    next
      let ?n = "\<lambda>f s. used_now (en_tz env) (en_plans env) (sf_subscriptionId f) s"
      assume "\<exists>f'. y = Inr f' \<and> fine v \<and> ledger v = ledger u \<and> sf_requestId f' = sf_requestId f \<and> sf_preConsumed f' = sf_amount f \<and>
        (\<forall>cap. sf_amount f \<le> cap \<and> ?n f' u + cap < 2 ^ 63 \<longrightarrow>
           sub_used (sf_subscriptionId f') v = ?n f' u + sf_amount f \<and> sub_holds cap (Subscription f') (sf_amount f) 0 v)"
      then obtain f' where f': "y = Inr f'" "fine v" "ledger v = ledger u"
          "\<And>cap. q \<le> cap \<Longrightarrow> ?n f' s + cap < 2 ^ 63 \<Longrightarrow>
             sub_used (sf_subscriptionId f') v = ?n f' s + q \<and> sub_holds cap (Subscription f') q 0 v"
        unfolding u(4) assms(5) by blast
      let ?c = "syncRelayInfo (?b\<lparr>bs_tokenConsumed := q, bs_funding := Subscription f', bs_preConsumedQuota := q\<rparr>)"
      have r: "r = Inr ?c" "t = v" using o x None y f'(1) by (auto simp: consume_funding_def)
      have "token_left (ri_TokenId info) v = deduct (token_charge info q) (token_left (ri_TokenId info) s)"
        using p None token_rows [of v u] f'(3) by simp
      then have "backed sub_spent (sub_holds cap) (sf_subscriptionId f') (?n f' s) (ri_TokenId info)
          (ri_IsPlayground info) (token_left (ri_TokenId info) s) ?c v" if "q \<le> cap" "?n f' s + cap < 2 ^ 63" for cap
        using f'(2) f'(4) [OF that] q unfolding backed_def by (simp add: token_charge_def del: sub_holds.simps)
      then show ?thesis using r by auto
    qed
  qed
qed

text \<open>
  The two ways in which a session of the request \<open>info\<close> can be backed; a subscription
  backs it as long as what is used then and the highest amount asked for fit 64 bits.
\<close>

definition opened :: "Env \<Rightarrow> int \<Rightarrow> RelayInfo \<Rightarrow> Db \<Rightarrow> BillingSession \<Rightarrow> Db \<Rightarrow> bool" where
  "opened env q info s b t \<longleftrightarrow>
     (\<exists>w. bs_funding b = Wallet w \<and> backed wallet_spent wallet_holds (ri_UserId info) (- balance (ri_UserId info) s)
        (ri_TokenId info) (ri_IsPlayground info) (token_left (ri_TokenId info) s) b t) \<or>
     (\<exists>f. bs_funding b = Subscription f \<and>
        (\<forall>cap. max 1 q \<le> cap \<and> used_now (en_tz env) (en_plans env) (sf_subscriptionId f) s + cap < 2 ^ 63 \<longrightarrow>
           backed sub_spent (sub_holds cap) (sf_subscriptionId f) (used_now (en_tz env) (en_plans env) (sf_subscriptionId f) s)
             (ri_TokenId info) (ri_IsPlayground info) (token_left (ri_TokenId info) s) b t))"

definition same_request :: "RelayInfo \<Rightarrow> RelayInfo \<Rightarrow> bool" where
  "same_request i j \<longleftrightarrow> ri_UserId j = ri_UserId i \<and> ri_TokenId j = ri_TokenId i \<and> ri_IsPlayground j = ri_IsPlayground i \<and>
     ri_RequestId j = ri_RequestId i"

definition can_open :: "RelayInfo \<Rightarrow> Db \<Rightarrow> bool" where
  "can_open info s \<longleftrightarrow> fine s \<and> subs_ok s \<and> find_record (ri_RequestId info) s = None \<and> lg_users (ledger s) (ri_UserId info) \<noteq> None"

definition attempt :: "Env \<Rightarrow> int \<Rightarrow> RelayInfo \<Rightarrow> Db \<Rightarrow> (NewAPIError + BillingSession) \<times> RelayInfo \<times> Db \<Rightarrow> bool" where
  "attempt env q info s r \<longleftrightarrow>
     (case r of
        (Inl e, j, t) \<Rightarrow> same_request info j \<and> unmoved s t
      | (Inr b, j, t) \<Rightarrow> opened env q info s b t)"

lemma opened_from: "unmoved r s \<Longrightarrow> same_request i j \<Longrightarrow> opened env q j s b t \<Longrightarrow> opened env q i r b t"
  unfolding opened_def same_request_def using unmoved_books [of r s] by auto

lemma unmoved_trans: "unmoved r s \<Longrightarrow> unmoved s t \<Longrightarrow> unmoved r t"
  by (auto simp: unmoved_def intro: rows_trans)

lemma can_open_from: "can_open i s \<Longrightarrow> unmoved s t \<Longrightarrow> same_request i j \<Longrightarrow> can_open j t"
  using unmoved_books [of s t] by (simp add: can_open_def same_request_def)

lemma wallet_attempt:
  assumes "can_open info s" and "0 \<le> q"
  shows "attempt env q info s (tryWallet env q info s)"
proof -
  have f: "fine s" "quiet s" "lg_users (ledger s) (ri_UserId info) \<noteq> None" using assms(1) by (simp_all add: can_open_def fine_def)
  obtain x where x: "GetUserQuota (en_user env) (ri_UserId info) s = (Inr x, s)"
    using f(2) by (cases "en_user env") (auto simp: GetUserQuota_def)
  let ?i = "info\<lparr>ri_UserQuota := x\<rparr>"
  obtain r t where p: "preConsume env q (new_session ?i (Wallet \<lparr>wf_userId = ri_UserId info, wf_consumed = 0\<rparr>)) s = (r, t)"
    by fastforce
  have u: "unmoved s s" using f(1) by (simp add: unmoved_def)
  show ?thesis
    using wallet_opens [OF f(1) assms(2) f(3) p] p x u
    by (auto simp: tryWallet_def attempt_def opened_def same_request_def Let_def)
qed

lemma sub_attempt:
  assumes "can_open info s"
  shows "attempt env q info s (trySubscription env q info s)"
proof -
  let ?q = "if q \<le> 0 then 1 else q"
  let ?f = "\<lparr>sf_requestId = ri_RequestId info, sf_userId = ri_UserId info, sf_amount = ?q, sf_subscriptionId = 0,
     sf_preConsumed = 0, sf_AmountTotal = 0, sf_AmountUsedAfter = 0, sf_PlanId = 0, sf_PlanTitle = []\<rparr>"
  obtain r t where p: "preConsume env ?q (new_session info (Subscription ?f)) s = (r, t)" by fastforce
  have "trySubscription env q info s = (r, info, t)"
    unfolding trySubscription_def Let_def p by simp
  moreover have "0 < ?q" by simp
  then have "(\<exists>e. r = Inl e) \<and> unmoved s t \<or> (\<exists>b. r = Inr b \<and> opened env q info s b t)"
    using sub_opens [OF _ _ _ _ _ p] assms unfolding can_open_def opened_def by auto
  ultimately show ?thesis by (auto simp: attempt_def same_request_def)
qed

lemma or_else_attempt:
  assumes "can_open info s" and "attempt env q info s r" and "\<And>j t. can_open j t \<Longrightarrow> attempt env q j t (f j t)"
  shows "attempt env q info s (or_else r f)"
proof (cases "\<exists>e j t. r = (Inl e, j, t) \<and> ae_code e = ErrorCodeInsufficientUserQuota")
  case True
  then obtain e j t where r: "r = (Inl e, j, t)" "ae_code e = ErrorCodeInsufficientUserQuota" by blast
  then have k: "same_request info j" "unmoved s t" using assms(2) by (simp_all add: attempt_def)
  obtain y k' v where y: "f j t = (y, k', v)" by (metis prod_cases3)
  have "attempt env q j t (y, k', v)" using assms(3) [OF can_open_from [OF assms(1) k(2,1)]] y by simp
  then have "attempt env q info s (y, k', v)"
    using opened_from [OF k(2,1)] unmoved_trans [OF k(2)] k(1)
    by (cases y) (auto simp: attempt_def same_request_def)
  then show ?thesis using r y by (simp add: or_else_def)
next
  case False
  obtain x j t where r: "r = (x, j, t)" by (metis prod_cases3)
  then show ?thesis using False assms(2) by (cases x) (auto simp: or_else_def)
qed

lemma session_attempt:
  assumes "can_open info s" and "0 \<le> q" and "NewBillingSession env info q s = (x, t)"
  shows "(\<exists>e. x = Inl e) \<and> unmoved s t \<or> (\<exists>b. x = Inr b \<and> opened env q info s b t)"
proof -
  have q: "quiet s" using assms(1) by (simp add: can_open_def fine_def)
  note w = wallet_attempt [OF _ assms(2)] and b = sub_attempt and c = assms(1)
  let ?w = "tryWallet env q" and ?b = "trySubscription env q"
  define r where "r = (let pref = NormalizeBillingPreference (ri_BillingPreference info) in
     if pref = js ''subscription_only'' then ?b info s
     else if pref = js ''wallet_only'' then ?w info s
     else if pref = js ''wallet_first'' then or_else (?w info s) ?b
     else
       (case HasActiveUserSubscription (ri_UserId info) s of
          (Inl e, s) \<Rightarrow> (Inl (NewError e ErrorCodeQueryDataError), info, s)
        | (Inr hasSub, s) \<Rightarrow> if \<not> hasSub then ?w info s else or_else (?b info s) ?w))"
  have "HasActiveUserSubscription (ri_UserId info) s = (y, s') \<Longrightarrow> s' = s" for y s'
    using q by (auto simp: HasActiveUserSubscription_def split: if_splits)
  moreover have "unmoved s s" using c by (simp add: can_open_def unmoved_def)
  then have "attempt env q info s (Inl e, info, s)" for e by (simp add: attempt_def same_request_def)
  ultimately have "attempt env q info s r"
    using w [OF c] b [OF c] or_else_attempt [OF c w [OF c] b] or_else_attempt [OF c b [OF c] w]
    unfolding r_def Let_def by (auto split: sum.splits prod.splits)
  moreover have "fst r = x" "snd (snd r) = t"
    using assms(3) unfolding NewBillingSession_def r_def Let_def by simp_all
  ultimately show ?thesis by (cases r; cases x) (auto simp: attempt_def)
qed

subsection \<open>A whole request\<close>

text \<open>What happens to an open session: reservations, batch writes, settling and paying back.\<close>

datatype session_op = ReserveOp Env int | TickOp | SettleOp int | RefundOp

fun session_step :: "BillingSession \<times> Db \<Rightarrow> session_op \<Rightarrow> BillingSession \<times> Db" where
  "session_step (b, s) (ReserveOp env q) = snd (Reserve env q b s)"
| "session_step (b, s) TickOp = (b, batchUpdate s)"
| "session_step (b, s) (SettleOp q) = snd (Settle q b s)"
| "session_step (b, s) RefundOp = Refund b s"

fun running :: "session_op \<Rightarrow> bool" where
  "running (ReserveOp env q) = True"
| "running TickOp = True"
| "running (SettleOp q) = False"
| "running RefundOp = False"

fun billing :: "session_op \<Rightarrow> bool" where
  "billing TickOp = False"
| "billing (ReserveOp env q) = True"
| "billing (SettleOp q) = True"
| "billing RefundOp = True"

text \<open>No reservation asks for more than \<open>cap\<close>.\<close>

fun asks_upto :: "int \<Rightarrow> session_op \<Rightarrow> bool" where
  "asks_upto cap (ReserveOp env q) \<longleftrightarrow> q \<le> cap"
| "asks_upto cap TickOp = True"
| "asks_upto cap (SettleOp q) = True"
| "asks_upto cap RefundOp = True"

lemma asks_mono: "asks_upto cap op \<Longrightarrow> cap \<le> cap' \<Longrightarrow> asks_upto cap' op"
  by (cases op) auto

lemma highest_asked:
  obtains cap where "list_all (asks_upto cap) ops" and "c \<le> cap"
proof (induction ops arbitrary: thesis)
  case (Cons op ops)
  obtain cap where cap: "list_all (asks_upto cap) ops" "c \<le> cap" by (rule Cons.IH)
  obtain cap1 where "asks_upto cap1 op" by (cases op) auto
  then show ?case
    using Cons.prems [of "max cap cap1"] cap asks_mono [of cap _ "max cap cap1"] asks_mono [of cap1 op "max cap cap1"]
    by (auto simp: list_all_iff)
qed auto

lemma settled_inert: "bs_settled b \<Longrightarrow> list_all billing ops \<Longrightarrow> foldl session_step (b, s) ops = (b, s)"
proof (induction ops)
  case (Cons op ops)
  then have "session_step (b, s) op = (b, s)" by (cases op) (simp_all add: Reserve_def Settle_def Refund_def)
  then show ?case using Cons by simp
qed simp

context funding_source
begin

lemma run_backed:
  "list_all running ops \<Longrightarrow> list_all (asks_upto cap) ops \<Longrightarrow> bk a c tid pg left b s \<Longrightarrow> foldl session_step (b, s) ops = (b', t) \<Longrightarrow> bk a c tid pg left b' t"
proof (induction ops arbitrary: b s)
  case (Cons op ops)
  obtain b1 s1 where o: "session_step (b, s) op = (b1, s1)" by fastforce
  have "bk a c tid pg left b1 s1"
    using Cons.prems(1,2) o tick_backed [OF Cons.prems(3)] reserve_backed [OF Cons.prems(3)]
    by (cases op) (auto intro: prod_eqI simp: prod_eq_iff)
  then show ?case using Cons.IH [of b1 s1] Cons.prems o by simp
qed simp

end

lemma wallet_settles:
  assumes "wl.bk a c tid pg left b s"
  shows "fst (Settle q b s) = None"
proof -
  have f: "fine s" using assms by (simp add: backed_def)
  obtain w where w: "bs_funding b = Wallet w" using assms by (cases "bs_funding b") (auto simp: backed_def)
  let ?d = "q - bs_preConsumedQuota b"
  have "\<exists>t. funding_Settle (bs_funding b) ?d s = (None, t) \<and> fine t"
  proof (cases "?d \<le> 0")
    case True
    then show ?thesis using quota_effect(1) [OF f, of "- ?d" "wf_userId w"] w f by (auto simp: wallet_Settle_def)
  next
    case False
    then show ?thesis using quota_effect(2) [OF f, of ?d "wf_userId w"] w by (auto simp: wallet_Settle_def)
  qed
  then obtain t where t: "funding_Settle (bs_funding b) ?d s = (None, t)" "fine t" by blast
  show ?thesis
  proof (cases "?d = 0")
    case False
    then obtain u where "adjust_token (bs_relayInfo b) ?d t = (None, u)" using token_adjust [OF t(2)] by metis
    then show ?thesis using False t assms by (simp add: Settle_def Let_def finish_settle_def backed_def)
  qed (simp add: Settle_def)
qed

lemma sub_settle_refused:
  assumes "sb.bk cap a c tid pg left b s" and "0 \<le> q" and "q \<le> cap" and "Settle q b s = (Some e, b', t)"
  shows "b' = b \<and> t = s \<and> (\<exists>r. find_sub a s = Some r \<and> 0 < us_amountTotal r \<and> us_amountTotal r < c + q)"
proof -
  let ?d = "q - bs_preConsumedQuota b"
  have f: "fine s" "\<not> bs_settled b" "\<not> bs_fundingSettled b" using assms(1) by (simp_all add: backed_def)
  obtain g r where g: "bs_funding b = Subscription g" "sf_subscriptionId g = a" and r: "0 < a" "find_sub a s = Some r"
      "bs_preConsumedQuota b \<le> us_amountUsed r" "us_amountUsed r = c + bs_preConsumedQuota b"
      "us_amountUsed r - bs_preConsumedQuota b + cap < 2 ^ 63"
    using assms(1) by (cases "bs_funding b") (auto simp: backed_def sub_used_def row_ok_def)
  have d: "?d \<noteq> 0" using assms(4) f by (auto simp: Settle_def)
  note p = post_delta [OF f(1) r(1,2) d]
  have u: "0 \<le> us_amountUsed r + ?d" "us_amountUsed r + ?d < 2 ^ 63" using r(3,5) assms(2,3) by simp_all
  show ?thesis
  proof (cases "us_amountTotal r > 0 \<and> us_amountUsed r + ?d > us_amountTotal r")
    case True
    then show ?thesis using p [OF u] assms(4) f g d r(2,4) by (auto simp: Settle_def Let_def sub_Settle_def)
  next
    case False
    then obtain v where v: "funding_Settle (bs_funding b) ?d s = (None, v)" "fine v"
      using p [OF u] g d f(1) by (auto simp: sub_Settle_def)
    obtain w where "adjust_token (bs_relayInfo b) ?d v = (None, w)" using token_adjust [OF v(2) d] by metis
    then show ?thesis using v(1) d assms(4) f by (simp add: Settle_def Let_def finish_settle_def)
  qed
qed

subsection \<open>Sample requests\<close>

definition sample_env :: Env where
  "sample_env = \<lparr>en_tz = zone_at 25200, en_plans = (\<lambda>_. None), en_planInfo = None, en_user = None, en_token = None,
     en_trustQuota = 1000, en_tokenQuota = 50\<rparr>"

definition sample_info :: "gostr \<Rightarrow> RelayInfo" where
  "sample_info pref = \<lparr>ri_UserId = 1, ri_TokenId = 7, ri_TokenKey = js ''sk'', ri_IsPlayground = False, ri_TokenUnlimited = False,
     ri_ForcePreConsume = False, ri_RequestId = js ''rq'', ri_BillingPreference = pref, ri_UserQuota = 0,
     ri_FinalPreConsumedQuota = 0, ri_BillingSource = [], ri_SubscriptionId = 0, ri_SubscriptionPreConsumed = 0,
     ri_SubscriptionPostDelta = 0, ri_SubscriptionAmountTotal = 0, ri_SubscriptionAmountUsedAfterPreConsume = 0,
     ri_SubscriptionPlanId = 0, ri_SubscriptionPlanTitle = []\<rparr>"

definition bill_db :: Db where
  "bill_db = sample_db\<lparr>db_now := 1710000000, db_plans := [sample_plan],
     db_subs := [sample_sub\<lparr>us_amountUsed := 40, us_nextResetTime := 1750000000\<rparr>]\<rparr>"

text \<open>A subscription with a period of ten seconds whose reset is due.\<close>

definition due_db :: Db where
  "due_db = bill_db\<lparr>db_now := 25, db_plans := [sample_plan\<lparr>pl_quotaResetPeriod := js ''custom'', pl_quotaResetCustomSeconds := 10\<rparr>],
     db_subs := [sample_sub\<lparr>us_amountUsed := 40, us_startTime := 1, us_nextResetTime := 11\<rparr>]\<rparr>"

definition sample_record :: SubscriptionPreConsumeRecord where
  "sample_record = \<lparr>pr_requestId = js ''rq'', pr_userId = 1, pr_userSubscriptionId = 5, pr_preConsumed = 30, pr_status = CONSUMED,
     pr_createdAt = 1710000000, pr_updatedAt = 1710000000\<rparr>"

definition consumed_db :: Db where
  "consumed_db = bill_db\<lparr>db_subs := [sample_sub\<lparr>us_amountUsed := 70\<rparr>], db_records := [sample_record]\<rparr>"

abbreviation wallet_info :: RelayInfo where
  "wallet_info \<equiv> sample_info (js ''wallet_only'')"

abbreviation sub_info :: RelayInfo where
  "sub_info \<equiv> sample_info (js ''subscription_only'')"

lemmas sample_open_defs = can_open_def sample_info_def bill_db_def due_db_def sample_db_def empty_db_def sample_sub_def subs_ok_def
  sound_row_def within_row_def int64_def fine_def stores_ok_def find_record_def ledger_def

lemma due_can_open: "can_open (sample_info pref) due_db"
  by (simp add: sample_open_defs)

lemma sample_can_open: "can_open (sample_info pref) bill_db"
  by (simp add: sample_open_defs)

lemma wallet_sample:
  obtains b s1 w where "NewBillingSession sample_env wallet_info 30 bill_db = (Inr b, s1)" and "bs_funding b = Wallet w"
proof -
  have "case NewBillingSession sample_env wallet_info 30 bill_db of
      (Inr b, s1) \<Rightarrow> (case bs_funding b of Wallet w \<Rightarrow> True | Subscription f \<Rightarrow> False) | (Inl e, s1) \<Rightarrow> False"
    by code_simp
  then show thesis using that by (auto split: prod.splits sum.splits FundingSource.splits)
qed

lemma sub_sample:
  assumes "db \<in> {bill_db, due_db}"
  obtains b s1 f where "NewBillingSession sample_env sub_info 30 db = (Inr b, s1)" and "bs_funding b = Subscription f"
    and "sf_subscriptionId f = 5" and "fst (Settle 20 b s1) = None"
proof -
  let ?ok = "\<lambda>db. case NewBillingSession sample_env sub_info 30 db of
      (Inr b, s1) \<Rightarrow> (case bs_funding b of Wallet w \<Rightarrow> False | Subscription f \<Rightarrow> sf_subscriptionId f = 5 \<and> fst (Settle 20 b s1) = None) | (Inl e, s1) \<Rightarrow> False"
  have "?ok bill_db" "?ok due_db" by code_simp+
  then have "?ok db" using assms by auto
  then show thesis using that by (auto split: prod.splits sum.splits FundingSource.splits)
qed

lemma sample_used: "used_now (zone_at 25200) (\<lambda>_. None) 5 bill_db = 40" "used_now (zone_at 25200) (\<lambda>_. None) 5 due_db = 0"
  by code_simp+

lemma env_fields: "en_tz sample_env = zone_at 25200" "en_plans sample_env = (\<lambda>_. None)"
  by (simp_all add: sample_env_def)

lemma sample_books: "balance 1 bill_db = 100" "token_left 7 bill_db = Some 50" "token_left 7 due_db = Some 50"
  by code_simp+

lemma info_fields: "ri_UserId (sample_info p) = 1" "ri_TokenId (sample_info p) = 7" "\<not> ri_IsPlayground (sample_info p)"
  by (simp_all add: sample_info_def)

subsection \<open>Properties of a request\<close>

text \<open>
  C1: A request paid from the wallet costs what it used.  Whatever the preference, the
  trust shortcut and the state of the caches, after any reservations and batch writes
  settling succeeds, the balance of the user is the balance before the request less
  the used quota, so is what the token has left (a playground request does not touch
  the token), and no later operation on the session changes anything.
\<close>

theorem wallet_charged_actual:
  assumes "can_open info s" and "0 \<le> q" and "NewBillingSession env info q s = (Inr b, s1)" and "bs_funding b = Wallet w"
    and "list_all running ops" and "foldl session_step (b, s1) ops = (b2, s2)" and "0 \<le> actual" and "list_all billing later"
  shows "\<exists>b3 s3. Settle actual b2 s2 = (None, b3, s3) \<and>
     balance (ri_UserId info) s3 = balance (ri_UserId info) s - actual \<and>
     token_left (ri_TokenId info) s3 = deduct (if ri_IsPlayground info then 0 else actual) (token_left (ri_TokenId info) s) \<and>
     foldl session_step (b3, s3) later = (b3, s3)"
proof -
  obtain cap where cap: "list_all (asks_upto cap) ops" "actual \<le> cap" by (rule highest_asked)
  have "wl.bk (ri_UserId info) (- balance (ri_UserId info) s) (ri_TokenId info) (ri_IsPlayground info)
      (token_left (ri_TokenId info) s) b s1"
    using session_attempt [OF assms(1-3)] assms(4) by (auto simp: opened_def)
  then have k: "wl.bk (ri_UserId info) (- balance (ri_UserId info) s) (ri_TokenId info) (ri_IsPlayground info)
      (token_left (ri_TokenId info) s) b2 s2" (is "?k")
    using wl.run_backed [OF assms(5) cap(1)] assms(6) by blast
  obtain b3 s3 where t: "Settle actual b2 s2 = (None, b3, s3)"
    using wallet_settles [OF k, of actual] by (metis prod.collapse)
  have "wallet_spent (bs_funding b2) s3 = - balance (ri_UserId info) s3"
    using k by (cases "bs_funding b2") (auto simp: backed_def)
  then show ?thesis
    using t wl.settle_charges [OF k assms(7) cap(2) t] settled_inert [OF _ assms(8), of b3 s3] by simp
qed

theorem wallet_charged_actual_witness:
  "\<exists>b s1 b3 s3. NewBillingSession sample_env wallet_info 30 bill_db = (Inr b, s1) \<and>
     Settle 20 (fst (session_step (b, s1) (ReserveOp sample_env 45))) (snd (session_step (b, s1) (ReserveOp sample_env 45))) =
       (None, b3, s3) \<and> balance 1 s3 = 80 \<and> token_left 7 s3 = Some 30 \<and> session_step (b3, s3) RefundOp = (b3, s3)"
proof -
  obtain b s1 w where o: "NewBillingSession sample_env wallet_info 30 bill_db = (Inr b, s1)" "bs_funding b = Wallet w"
    by (rule wallet_sample)
  show ?thesis
    using wallet_charged_actual [OF sample_can_open _ o, of "[ReserveOp sample_env 45]" _ _ 20 "[RefundOp]"] o(1)
    by (auto simp: info_fields sample_books deduct_def prod_eq_iff simp del: session_step.simps)
qed

text \<open>
  C2: A request paid from a subscription costs what it used.  Settling adds exactly the
  used quota to what was in use when the request was opened (the stored amount, or
  nothing when a new period had begun by then) and takes it from the token, or it is
  refused with nothing changed; it is refused only when the total of the subscription
  would be exceeded.  The sum of what was in use and the highest amount asked for is
  below \<open>2 ^ 63\<close>.
\<close>

theorem subscription_charged_actual:
  assumes "can_open info s" and "0 \<le> q" and "NewBillingSession env info q s = (Inr b, s1)" and "bs_funding b = Subscription f"
    and "list_all running ops" and "foldl session_step (b, s1) ops = (b2, s2)" and "0 \<le> actual"
    and "base = used_now (en_tz env) (en_plans env) (sf_subscriptionId f) s"
    and "list_all (asks_upto cap) ops" and "max 1 q \<le> cap" and "actual \<le> cap" and "base + cap < 2 ^ 63"
  shows "(\<exists>b3 s3. Settle actual b2 s2 = (None, b3, s3) \<and> bs_settled b3 \<and> sub_used (sf_subscriptionId f) s3 = base + actual \<and>
         token_left (ri_TokenId info) s3 = deduct (if ri_IsPlayground info then 0 else actual) (token_left (ri_TokenId info) s)) \<or>
      (\<exists>e r. Settle actual b2 s2 = (Some e, b2, s2) \<and> find_sub (sf_subscriptionId f) s2 = Some r \<and>
         0 < us_amountTotal r \<and> us_amountTotal r < base + actual)"
proof -
  have "sb.bk cap (sf_subscriptionId f) base (ri_TokenId info) (ri_IsPlayground info) (token_left (ri_TokenId info) s) b s1"
    using session_attempt [OF assms(1-3)] assms(4,8,10,12) by (auto simp: opened_def)
  note k = sb.run_backed [OF assms(5,9) this assms(6)]
  obtain r b3 s3 where t: "Settle actual b2 s2 = (r, b3, s3)" by (metis prod_cases3)
  show ?thesis
  proof (cases r)
    case None
    obtain f2 where "bs_funding b2 = Subscription f2" "sf_subscriptionId f2 = sf_subscriptionId f"
      using k by (cases "bs_funding b2") (auto simp: backed_def)
    then show ?thesis using t None sb.settle_charges [OF k assms(7,11) t [unfolded None]] by auto
  next
    case (Some e)
    then show ?thesis using t sub_settle_refused [OF k assms(7,11) t [unfolded Some]] by blast
  qed
qed

theorem subscription_charged_actual_witness:
  "(\<exists>b s1 b3 s3. NewBillingSession sample_env sub_info 30 bill_db = (Inr b, s1) \<and> Settle 20 b s1 = (None, b3, s3) \<and>
      sub_used 5 s3 = 60 \<and> token_left 7 s3 = Some 30) \<and>
   (\<exists>b s1 b3 s3. NewBillingSession sample_env sub_info 30 due_db = (Inr b, s1) \<and> Settle 20 b s1 = (None, b3, s3) \<and>
      sub_used 5 s3 = 20 \<and> token_left 7 s3 = Some 30)"
proof
  obtain b s1 f where o: "NewBillingSession sample_env sub_info 30 bill_db = (Inr b, s1)" "bs_funding b = Subscription f"
      "sf_subscriptionId f = 5" "fst (Settle 20 b s1) = None"
    using sub_sample [of bill_db] by auto
  show "\<exists>b s1 b3 s3. NewBillingSession sample_env sub_info 30 bill_db = (Inr b, s1) \<and> Settle 20 b s1 = (None, b3, s3) \<and>
      sub_used 5 s3 = 60 \<and> token_left 7 s3 = Some 30"
    using subscription_charged_actual [OF sample_can_open _ o(1,2), of "[]" b s1 20 40 30] o
    by (auto simp: info_fields sample_books env_fields sample_used deduct_def)
  obtain b s1 f where o: "NewBillingSession sample_env sub_info 30 due_db = (Inr b, s1)" "bs_funding b = Subscription f"
      "sf_subscriptionId f = 5" "fst (Settle 20 b s1) = None"
    using sub_sample [of due_db] by auto
  show "\<exists>b s1 b3 s3. NewBillingSession sample_env sub_info 30 due_db = (Inr b, s1) \<and> Settle 20 b s1 = (None, b3, s3) \<and>
      sub_used 5 s3 = 20 \<and> token_left 7 s3 = Some 30"
    using subscription_charged_actual [OF due_can_open _ o(1,2), of "[]" b s1 20 0 30] o
    by (auto simp: info_fields sample_books env_fields sample_used deduct_def)
qed

text \<open>
  C3: A request that failed is free: after any reservations and batch writes, paying
  back gives the token and the account what they had before the request.  Of a
  subscription exactly that is in use which was in use when the request was opened, as
  long as the sums on the way are below \<open>2 ^ 63\<close>.
\<close>

theorem refund_returns_everything:
  assumes "can_open info s" and "0 \<le> q" and "NewBillingSession env info q s = (Inr b, s1)"
    and "list_all running ops" and "foldl session_step (b, s1) ops = (b2, s2)" and "Refund b2 s2 = (b3, s3)"
    and "\<forall>f. bs_funding b = Subscription f \<longrightarrow> list_all (asks_upto cap) ops \<and> max 1 q \<le> cap \<and>
       used_now (en_tz env) (en_plans env) (sf_subscriptionId f) s + cap < 2 ^ 63"
  shows "token_left (ri_TokenId info) s3 = token_left (ri_TokenId info) s \<and>
     (case bs_funding b of
        Wallet w \<Rightarrow> balance (ri_UserId info) s3 = balance (ri_UserId info) s
      | Subscription f \<Rightarrow> sub_used (sf_subscriptionId f) s3 = used_now (en_tz env) (en_plans env) (sf_subscriptionId f) s)"
proof (cases "bs_funding b")
  case (Wallet w)
  obtain c where c: "list_all (asks_upto c) ops" "0 \<le> c" by (rule highest_asked)
  have "wl.bk (ri_UserId info) (- balance (ri_UserId info) s) (ri_TokenId info) (ri_IsPlayground info)
      (token_left (ri_TokenId info) s) b s1"
    using session_attempt [OF assms(1-3)] Wallet by (auto simp: opened_def)
  note k = wl.run_backed [OF assms(4) c(1) this assms(5)]
  obtain w2 where w: "bs_funding b2 = Wallet w2" "wf_userId w2 = ri_UserId info"
    using k by (cases "bs_funding b2") (auto simp: backed_def)
  then show ?thesis using wl.refund_restores [OF k _ assms(6)] Wallet by simp
next
  case (Subscription f)
  let ?n = "used_now (en_tz env) (en_plans env) (sf_subscriptionId f) s"
  have c: "list_all (asks_upto cap) ops" "max 1 q \<le> cap" "?n + cap < 2 ^ 63" using assms(7) Subscription by auto
  have "sb.bk cap (sf_subscriptionId f) ?n (ri_TokenId info) (ri_IsPlayground info) (token_left (ri_TokenId info) s) b s1"
    using session_attempt [OF assms(1-3)] Subscription c(2,3) by (auto simp: opened_def)
  note k = sb.run_backed [OF assms(4) c(1) this assms(5)]
  obtain f2 where g: "bs_funding b2 = Subscription f2" "sf_subscriptionId f2 = sf_subscriptionId f" "0 < bs_preConsumedQuota b2"
    using k by (cases "bs_funding b2") (auto simp: backed_def)
  then show ?thesis using sb.refund_restores [OF k _ assms(6)] Subscription by simp
qed

theorem refund_returns_everything_witness:
  "(\<exists>b s1. NewBillingSession sample_env wallet_info 30 bill_db = (Inr b, s1) \<and>
      token_left 7 (snd (Refund b s1)) = Some 50 \<and> balance 1 (snd (Refund b s1)) = 100) \<and>
   (\<exists>b s1 b2 s2. NewBillingSession sample_env sub_info 30 bill_db = (Inr b, s1) \<and> session_step (b, s1) (ReserveOp sample_env 45) = (b2, s2) \<and>
      token_left 7 (snd (Refund b2 s2)) = Some 50 \<and> sub_used 5 (snd (Refund b2 s2)) = 40)"
proof
  obtain b s1 w where o: "NewBillingSession sample_env wallet_info 30 bill_db = (Inr b, s1)" "bs_funding b = Wallet w"
    by (rule wallet_sample)
  show "\<exists>b s1. NewBillingSession sample_env wallet_info 30 bill_db = (Inr b, s1) \<and>
      token_left 7 (snd (Refund b s1)) = Some 50 \<and> balance 1 (snd (Refund b s1)) = 100"
    using refund_returns_everything [OF sample_can_open _ o(1), of "[]" b s1 "fst (Refund b s1)" "snd (Refund b s1)"] o
    by (simp add: info_fields sample_books)
  obtain b s1 f where o: "NewBillingSession sample_env sub_info 30 bill_db = (Inr b, s1)" "bs_funding b = Subscription f"
      "sf_subscriptionId f = 5" "fst (Settle 20 b s1) = None"
    using sub_sample [of bill_db] by auto
  obtain b2 s2 where r: "session_step (b, s1) (ReserveOp sample_env 45) = (b2, s2)" by fastforce
  show "\<exists>b s1 b2 s2. NewBillingSession sample_env sub_info 30 bill_db = (Inr b, s1) \<and> session_step (b, s1) (ReserveOp sample_env 45) = (b2, s2) \<and>
      token_left 7 (snd (Refund b2 s2)) = Some 50 \<and> sub_used 5 (snd (Refund b2 s2)) = 40"
    using refund_returns_everything [OF sample_can_open _ o(1), of "[ReserveOp sample_env 45]" b2 s2 "fst (Refund b2 s2)" "snd (Refund b2 s2)" 45] o r
    by (auto simp: info_fields sample_books env_fields sample_used simp del: session_step.simps)
qed

text \<open>
  C7: A request that cannot be opened is free: when every way to pay is refused, no
  balance, token or subscription has changed, however many ways were tried.
\<close>

theorem refused_request_free:
  assumes "can_open info s" and "0 \<le> q" and "NewBillingSession env info q s = (Inl e, t)"
  shows "balance i t = balance i s \<and> token_left i t = token_left i s \<and> db_subs t = db_subs s \<and> db_records t = db_records s"
proof -
  have u: "unmoved s t" using session_attempt [OF assms] by auto
  show ?thesis using unmoved_books(1,2) [OF u] u by (simp add: unmoved_def same_rows_def)
qed

theorem refused_request_free_witness:
  "\<exists>e t. NewBillingSession sample_env (sample_info []) 70 bill_db = (Inl e, t) \<and> balance 1 t = 100 \<and> token_left 7 t = Some 50"
proof -
  have "case NewBillingSession sample_env (sample_info []) 70 bill_db of (Inl e, t) \<Rightarrow> True | (Inr b, t) \<Rightarrow> False" by code_simp
  then obtain e t where o: "NewBillingSession sample_env (sample_info []) 70 bill_db = (Inl e, t)"
    by (auto split: prod.splits sum.splits)
  show ?thesis
    using refused_request_free [OF sample_can_open _ o, of 1] refused_request_free [OF sample_can_open _ o, of 7] o
    by (simp add: sample_books)
qed

subsection \<open>Request ids\<close>

lemma find_record_put:
  assumes "find_record i s = Some rec"
  shows "find_record i (put_record (rec\<lparr>pr_status := x\<rparr>) s) = Some (rec\<lparr>pr_status := x, pr_updatedAt := db_now s\<rparr>)"
proof -
  have "pr_requestId rec = i" using assms find_in [of "\<lambda>r. pr_requestId r = i" "db_records s" rec] by (simp add: find_record_def)
  then show ?thesis
    using assms find_replaced [of "\<lambda>r. pr_requestId r = i" "db_records s" rec "rec\<lparr>pr_status := x, pr_updatedAt := db_now s\<rparr>"]
    by (simp add: find_record_def put_record_def)
qed

lemma find_faults [simp]:
  "find_sub i (s\<lparr>db_faults := fs\<rparr>) = find_sub i s" "find_record j (s\<lparr>db_faults := fs\<rparr>) = find_record j s"
  "put_sub r (s\<lparr>db_faults := fs\<rparr>) = (put_sub r s)\<lparr>db_faults := fs\<rparr>"
  by (simp_all add: find_sub_def find_record_def put_sub_def)

lemma post_counted:
  assumes "find_sub i s = Some r" and "0 < i" and "within_row r" and "0 < q" and "q \<le> us_amountUsed r"
  shows "PostConsumeUserSubscriptionDelta i (- q) (s\<lparr>db_faults := None # None # None # fs\<rparr>) =
     (None, (put_sub (r\<lparr>us_amountUsed := us_amountUsed r - q\<rparr>) s)\<lparr>db_faults := fs\<rparr>)"
proof -
  have w: "wrap64 (us_amountUsed r - q) = us_amountUsed r - q"
    using assms(3-5) by (intro wrap64_int64) (auto simp: within_row_def int64_def)
  show ?thesis
    using assms
    by (auto simp: PostConsumeUserSubscriptionDelta_def transaction_def error_of_def db_query_def db_exec_def next_fault_def asked_def
        save_sub_def Let_def w) (simp_all add: within_row_def)
qed

text \<open>
  C8: A request id is charged once: asking again with the same id changes nothing and
  reports the same subscription and amount, and once it was refunded, which leaves in
  use what was in use before, it is refused.
\<close>

theorem preconsume_once:
  assumes "fine s" and "subs_ok s" and "find_record i s = None"
    and "PreConsumeUserSubscription tz pc i u q s = (Inr res, t)" and "0 < u'" and "0 < q'"
  shows "(\<exists>res'. PreConsumeUserSubscription tz' pc' i u' q' t = (Inr res', t) \<and>
       sr_userSubscriptionId res' = sr_userSubscriptionId res \<and> sr_preConsumed res' = q) \<and>
     (\<exists>v. refundWithRetry (RefundSubscriptionPreConsume i) t = (None, v) \<and>
       sub_used (sr_userSubscriptionId res) v = used_now tz pc (sr_userSubscriptionId res) s \<and>
       PreConsumeUserSubscription tz' pc' i u' q' v = (Inl ALREADY_REFUNDED, v))"
proof -
  let ?i = "sr_userSubscriptionId res" and ?n = "used_now tz pc (sr_userSubscriptionId res) s"
  have k: "taken tz pc i q s res t" "TrimSpace i \<noteq> []" "0 < q" using pre_taken [OF assms(1,3,2,4)] by auto
  then obtain r rec where t: "fine t" "0 < ?i" "find_sub ?i t = Some r" "charged_row ?n q r" and
      c: "find_record i t = Some rec" "pr_status rec = CONSUMED" "pr_userSubscriptionId rec = ?i" "pr_preConsumed rec = q"
    by (auto simp: taken_def)
  have n: "CONSUMED \<noteq> REFUNDED" by (simp add: CONSUMED_def REFUNDED_def js_def)
  have "PreConsumeUserSubscription tz' pc' i u' q' t = (Inr (pre_result r q (us_amountUsed r)), t)"
    using t(1,3) c n k(2) assms(5,6) by (simp add: PreConsumeUserSubscription_def transaction_def fine_def)
  then have 1: "\<exists>res'. PreConsumeUserSubscription tz' pc' i u' q' t = (Inr res', t) \<and>
       sr_userSubscriptionId res' = ?i \<and> sr_preConsumed res' = q"
    using found_id [OF t(3)] by (simp add: pre_result_def)
  let ?w = "put_sub (r\<lparr>us_amountUsed := ?n\<rparr>) t"
  let ?v = "put_record (rec\<lparr>pr_status := REFUNDED\<rparr>) ?w"
  have m: "fine ?w" "sub_used ?i ?w = ?n" "find_record i ?w = Some rec"
    using t(1) c(1) find_sub_put [OF t(3), of "r\<lparr>us_amountUsed := ?n\<rparr>"] found_id [OF t(3)] by (simp_all add: sub_used_def)
  have f: "find_record i ?v = Some (rec\<lparr>pr_status := REFUNDED, pr_updatedAt := db_now ?w\<rparr>)"
    using find_record_put [OF m(3)] .
  have "refundWithRetry (RefundSubscriptionPreConsume i) t = (None, ?v)"
    using refund_quiet [OF t(1) c(1,2) k(2)] c k(3) charged_back [OF t k(3)] m(1) by simp
  moreover have "sub_used ?i ?v = ?n" using m(2) by (simp add: sub_used_def)
  moreover have "PreConsumeUserSubscription tz' pc' i u' q' ?v = (Inl ALREADY_REFUNDED, ?v)"
    using f m(1) k(2) assms(5,6) by (simp add: PreConsumeUserSubscription_def transaction_def fine_def)
  ultimately show ?thesis using 1 by blast
qed

theorem preconsume_once_witness:
  "\<exists>res t. PreConsumeUserSubscription (zone_at 0) (\<lambda>_. None) (js ''rq'') 1 30 bill_db = (Inr res, t) \<and>
     (\<exists>res'. PreConsumeUserSubscription (zone_at 0) (\<lambda>_. None) (js ''rq'') 1 50 t = (Inr res', t) \<and> sr_preConsumed res' = 30)"
proof -
  have "case PreConsumeUserSubscription (zone_at 0) (\<lambda>_. None) (js ''rq'') 1 30 bill_db of (Inr res, t) \<Rightarrow> True | (Inl e, t) \<Rightarrow> False"
    by code_simp
  then obtain res t where o: "PreConsumeUserSubscription (zone_at 0) (\<lambda>_. None) (js ''rq'') 1 30 bill_db = (Inr res, t)"
    by (auto split: prod.splits sum.splits)
  have "fine bill_db" "subs_ok bill_db" "find_record (js ''rq'') bill_db = None"
    using sample_can_open [of "[]"] by (simp_all add: can_open_def sample_info_def)
  from preconsume_once [OF this o, of 1 50 "zone_at 0" "\<lambda>_. None"] show ?thesis using o by auto
qed

text \<open>
  C22: A refund can be paid twice.  The amount is given back in a transaction of its own;
  when marking the record then fails, the retry gives it back again, and the
  refund reports success.
\<close>

theorem refund_retry_double:
  assumes "fine s" and "find_record i s = Some rec" and "pr_status rec = CONSUMED" and "TrimSpace i \<noteq> []" and "0 < pr_preConsumed rec"
    and "0 < pr_userSubscriptionId rec" and "find_sub (pr_userSubscriptionId rec) s = Some r" and "within_row r"
    and "2 * pr_preConsumed rec \<le> us_amountUsed r"
  shows "\<exists>t. refundWithRetry (RefundSubscriptionPreConsume i) (s\<lparr>db_faults := [None, None, None, None, Some e]\<rparr>) = (None, t) \<and>
     sub_used (pr_userSubscriptionId rec) t = sub_used (pr_userSubscriptionId rec) s - 2 * pr_preConsumed rec"
proof -
  let ?i = "pr_userSubscriptionId rec" and ?q = "pr_preConsumed rec" and ?s = "s\<lparr>db_faults := [None, None, None, None, Some e]\<rparr>"
  let ?r = "r\<lparr>us_amountUsed := us_amountUsed r - ?q\<rparr>"
  let ?t = "put_sub ?r s"
  have n: "CONSUMED \<noteq> REFUNDED" by (simp add: CONSUMED_def REFUNDED_def js_def)
  have q: "db_faults ?t = []" using assms(1) by (simp add: fine_def)
  have a: "RefundSubscriptionPreConsume i ?s = (Some e, ?t)"
    using assms(2-5) n post_counted [OF assms(7,6,8,5), of "[Some e]"] assms(9) q
    by (simp add: RefundSubscriptionPreConsume_def db_query_def next_fault_def asked_def mark_refunded_def db_exec_def)
  have t: "fine ?t" "find_record i ?t = Some rec" using assms(1,2) by simp_all
  have f: "find_sub ?i ?t = Some (?r\<lparr>us_updatedAt := db_now s\<rparr>)" using find_sub_put [OF assms(7), of ?r] found_id [OF assms(7)] by simp
  have k: "row_ok ?q ?q (?r\<lparr>us_updatedAt := db_now s\<rparr>)" using assms(5,8,9) by (auto simp: row_ok_def within_row_def int64_def)
  obtain v where v: "PostConsumeUserSubscriptionDelta ?i (- ?q) ?t = (None, v)"
    using post_down [OF t(1) assms(6) f k assms(5)] by auto
  have m: "fine v" "sub_used ?i v = sub_used ?i ?t - ?q" using post_moves [OF t(1) assms(6) f k _ _ _ v] assms(5) by simp_all
  have "RefundSubscriptionPreConsume i ?t = (None, put_record (rec\<lparr>pr_status := REFUNDED\<rparr>) v)"
    using refund_once [OF t assms(3-5) v m(1)] .
  then have "refundWithRetry (RefundSubscriptionPreConsume i) ?s = (None, put_record (rec\<lparr>pr_status := REFUNDED\<rparr>) v)"
    using a by (simp add: refundWithRetry_def eval_nat_numeral)
  then show ?thesis using m(2) f assms(7) by (simp add: sub_used_def)
qed

theorem refund_retry_double_witness:
  "\<exists>t. refundWithRetry (RefundSubscriptionPreConsume (js ''rq''))
       (consumed_db\<lparr>db_faults := [None, None, None, None, Some (js ''lost connection'')]\<rparr>) = (None, t) \<and> sub_used 5 t = 10"
proof -
  have "sub_used 5 consumed_db = 70" by code_simp
  moreover have "fine consumed_db" by (simp add: consumed_db_def bill_db_def sample_db_def empty_db_def fine_def stores_ok_def)
  moreover have "TrimSpace (js ''rq'') \<noteq> []" by code_simp
  ultimately show ?thesis
    using refund_retry_double [of consumed_db "js ''rq''" sample_record "sample_sub\<lparr>us_amountUsed := 70\<rparr>" "js ''lost connection''"]
    by (simp add: consumed_db_def sample_record_def find_record_def find_sub_def sample_sub_def within_row_def int64_def)
qed

end
