(* ===== verification/Navigation.thy ===== *)
theory Navigation
  imports JS_Object
begin

text \<open>
  Which parts of the console are offered: \<open>lib/nav-modules.ts\<close> (the modules of the header
  and the guards of routes), \<open>hooks/use-sidebar-config.ts\<close> and \<open>hooks/use-sidebar-data.ts\<close>
  (the sidebar, narrowed by the settings of the administrator and of the user) and
  \<open>components/layout/lib/url-utils.ts\<close> (which entry is the active one).  The settings are
  texts from the server, so their contents are values of unknown shape; what a
  request for the status answers is an argument.
\<close>

subsection \<open>Modules of the header\<close>

record ModuleAccess =
  ma_enabled :: bool
  ma_requireAuth :: bool

datatype HeaderNavModule = Rankings | Pricing

text \<open>
  The fields with access rules, and the boolean fields with those of the index
  signature.
\<close>

record HeaderNavModules =
  nav_pricing :: ModuleAccess
  nav_rankings :: ModuleAccess
  nav_flags :: "(jstring \<times> bool) list"

definition DEFAULT_HEADER_NAV_MODULES :: HeaderNavModules where
  "DEFAULT_HEADER_NAV_MODULES =
     \<lparr>nav_pricing = \<lparr>ma_enabled = True, ma_requireAuth = False\<rparr>,
      nav_rankings = \<lparr>ma_enabled = True, ma_requireAuth = False\<rparr>,
      nav_flags = [(js ''home'', True), (js ''console'', True), (js ''docs'', True), (js ''about'', True)]\<rparr>"

definition cloneHeaderNavDefaults :: HeaderNavModules where
  "cloneHeaderNavDefaults =
     DEFAULT_HEADER_NAV_MODULES
       \<lparr>nav_pricing := nav_pricing DEFAULT_HEADER_NAV_MODULES,
        nav_rankings := nav_rankings DEFAULT_HEADER_NAV_MODULES\<rparr>"

definition parseHeaderNavBoolean :: "jsval \<Rightarrow> bool \<Rightarrow> bool" where
  "parseHeaderNavBoolean raw fallback =
     (case raw of
        Bool b \<Rightarrow> b
      | Num x \<Rightarrow>
          if num_eq x (Fin 1) then True
          else if num_eq x (Fin 0) then False
          else fallback
      | Str s \<Rightarrow>
          (let normalized = ascii_lower (trim s)
           in if normalized = js ''true'' \<or> normalized = js ''1'' then True
              else if normalized = js ''false'' \<or> normalized = js ''0'' then False
              else fallback)
      | _ \<Rightarrow> fallback)"

definition parseAccess :: "jsval \<Rightarrow> ModuleAccess \<Rightarrow> ModuleAccess" where
  "parseAccess raw fallback =
     (if is_boolean raw \<or> is_number raw \<or> is_string raw then
        \<lparr>ma_enabled = parseHeaderNavBoolean raw (ma_enabled fallback),
         ma_requireAuth = ma_requireAuth fallback\<rparr>
      else if is_obj raw then
        \<lparr>ma_enabled = parseHeaderNavBoolean (get_key raw (js ''enabled'')) (ma_enabled fallback),
         ma_requireAuth = parseHeaderNavBoolean (get_key raw (js ''requireAuth'')) (ma_requireAuth fallback)\<rparr>
      else fallback)"

text \<open>\<open>None\<close> is \<open>null\<close>.\<close>

definition parseHeaderNavRecord :: "jsval \<Rightarrow> jsval option" where
  "parseHeaderNavRecord raw =
     (if \<not> truthy raw \<or> trim (to_str raw) = [] then None
      else if truthy raw \<and> is_obj raw then Some raw
      else JSON_parse (to_str raw))"

text \<open>
  One step of \<open>Object.entries(parsed).forEach\<close>.  An assignment of a boolean to
  \<open>__proto__\<close> has no effect.
\<close>

definition nav_entry :: "HeaderNavModules \<Rightarrow> jstring \<times> jsval \<Rightarrow> HeaderNavModules" where
  "nav_entry result kv =
     (let (key, val) = kv
      in if key = js ''pricing'' then result\<lparr>nav_pricing := parseAccess val (nav_pricing result)\<rparr>
         else if key = js ''rankings'' then result\<lparr>nav_rankings := parseAccess val (nav_rankings result)\<rparr>
         else if key = js ''__proto__'' then result
         else
           (let fallback = map_of (nav_flags result) key
            in if fallback \<noteq> None \<or> is_boolean val \<or> is_number val \<or> is_string val then
                 result\<lparr>nav_flags :=
                   obj_put key (parseHeaderNavBoolean val (case fallback of Some b \<Rightarrow> b | None \<Rightarrow> True))
                     (nav_flags result)\<rparr>
               else result))"

definition parseHeaderNavModules :: "jsval \<Rightarrow> HeaderNavModules" where
  "parseHeaderNavModules raw =
     (let result = cloneHeaderNavDefaults
      in case parseHeaderNavRecord raw of
           None \<Rightarrow> result
         | Some parsed \<Rightarrow> if \<not> truthy parsed then result else foldl nav_entry result (own_props parsed))"

definition parseHeaderNavModulesFromStatus :: "jsval \<Rightarrow> HeaderNavModules" where
  "parseHeaderNavModulesFromStatus status = parseHeaderNavModules (get_key status (js ''HeaderNavModules''))"

definition STATUS_KEY :: jstring where
  "STATUS_KEY = js ''status''"

definition getCachedStatus :: "storage \<Rightarrow> jsval" where
  "getCachedStatus s = (case load_json STATUS_KEY s of None \<Rightarrow> Null | Some v \<Rightarrow> v)"

definition cacheStatus :: "bool \<Rightarrow> jsval \<Rightarrow> storage \<Rightarrow> storage" where
  "cacheStatus ok status s = (if truthy status then save_json ok STATUS_KEY status s else s)"

text \<open>The fallback \<open>DEFAULTS[module]\<close> is never taken: both fields are always there.\<close>

definition getModuleAccessFromStatus :: "jsval \<Rightarrow> HeaderNavModule \<Rightarrow> ModuleAccess" where
  "getModuleAccessFromStatus status m =
     (case m of
        Pricing \<Rightarrow> nav_pricing (parseHeaderNavModulesFromStatus status)
      | Rankings \<Rightarrow> nav_rankings (parseHeaderNavModulesFromStatus status))"

definition getModuleAccess :: "storage \<Rightarrow> HeaderNavModule \<Rightarrow> ModuleAccess" where
  "getModuleAccess s m = getModuleAccessFromStatus (getCachedStatus s) m"

text \<open>\<open>answer\<close> is what \<open>getStatus\<close> returns, \<open>None\<close> when the request fails.\<close>

definition getFreshModuleAccess ::
    "bool \<Rightarrow> jsval option \<Rightarrow> HeaderNavModule \<Rightarrow> storage \<Rightarrow> ModuleAccess \<times> storage" where
  "getFreshModuleAccess ok answer m s =
     (case answer of
        Some status \<Rightarrow> (getModuleAccessFromStatus status m, cacheStatus ok status s)
      | None \<Rightarrow> (\<lparr>ma_enabled = False, ma_requireAuth = True\<rparr>, s))"

definition isSidebarModuleEnabled :: "storage \<Rightarrow> jstring \<Rightarrow> jstring \<Rightarrow> bool" where
  "isSidebarModuleEnabled s section m =
     (let status = getCachedStatus s
      in if \<not> truthy status then True
         else
           (let raw = get_key status (js ''SidebarModulesAdmin'')
            in if \<not> truthy raw \<or> trim (to_str raw) = [] then True
               else case JSON_parse (to_str raw) of
                      None \<Rightarrow> True
                    | Some parsed \<Rightarrow>
                        if parsed = Null then True
                        else
                          (let sectionConfig = get_key parsed section
                           in if \<not> truthy sectionConfig then True
                              else if get_key sectionConfig (js ''enabled'') = Bool False then False
                              else if get_key sectionConfig m = Bool False then False
                              else True)))"

subsection \<open>Settings of the sidebar\<close>

type_synonym SidebarSectionConfig = "(jstring \<times> jsval) list"

definition on :: "string \<Rightarrow> jstring \<times> jsval" where
  "on k = (js k, Bool True)"

definition DEFAULT_SIDEBAR_MODULES :: "(jstring \<times> SidebarSectionConfig) list" where
  "DEFAULT_SIDEBAR_MODULES =
     [(js ''chat'', [on ''enabled'', on ''playground'', on ''chat'']),
      (js ''console'', [on ''enabled'', on ''detail'', on ''token'', on ''log'', on ''midjourney'', on ''task'']),
      (js ''personal'', [on ''enabled'', on ''topup'', on ''personal'']),
      (js ''admin'', [on ''enabled'', on ''channel'', on ''models'', on ''redemption'', on ''user'',
         on ''setting'', on ''subscription''])]"

text \<open>The defaults as an object, which is what the reader of the settings returns.\<close>

definition default_config :: "(jstring \<times> jsval) list" where
  "default_config = map (\<lambda>(k, sec). (k, Obj sec)) DEFAULT_SIDEBAR_MODULES"

definition fill_module :: "SidebarSectionConfig \<Rightarrow> SidebarSectionConfig \<Rightarrow> jstring \<Rightarrow> SidebarSectionConfig" where
  "fill_module defaultSection sec moduleKey =
     (if get_key (Obj sec) moduleKey = Undef
      then obj_put moduleKey (get_key (Obj defaultSection) moduleKey) sec
      else sec)"

definition merge_section ::
    "(jstring \<times> jsval) list \<Rightarrow> jstring \<times> SidebarSectionConfig \<Rightarrow> (jstring \<times> jsval) list" where
  "merge_section merged kd =
     (let (sectionKey, defaultSection) = kd;
          existingSection = get_key (Obj merged) sectionKey
      in if \<not> truthy existingSection then obj_put sectionKey (Obj defaultSection) merged
         else obj_put sectionKey
                (Obj (foldl (fill_module defaultSection) (spread defaultSection existingSection)
                       (map fst defaultSection)))
                merged)"

definition mergeWithDefaultSidebarModules :: "jsval \<Rightarrow> (jstring \<times> jsval) list" where
  "mergeWithDefaultSidebarModules config = foldl merge_section (spread [] config) DEFAULT_SIDEBAR_MODULES"

definition URL_TO_CONFIG_MAP :: "(jstring \<times> (jstring \<times> jstring)) list" where
  "URL_TO_CONFIG_MAP =
     [(js ''/playground'', js ''chat'', js ''playground''),
      (js ''/dashboard'', js ''console'', js ''detail''),
      (js ''/dashboard/overview'', js ''console'', js ''detail''),
      (js ''/dashboard/models'', js ''console'', js ''detail''),
      (js ''/dashboard/users'', js ''console'', js ''detail''),
      (js ''/keys'', js ''console'', js ''token''),
      (js ''/usage-logs'', js ''console'', js ''log''),
      (js ''/usage-logs/common'', js ''console'', js ''log''),
      (js ''/usage-logs/drawing'', js ''console'', js ''midjourney''),
      (js ''/usage-logs/task'', js ''console'', js ''task''),
      (js ''/wallet'', js ''personal'', js ''topup''),
      (js ''/profile'', js ''personal'', js ''personal''),
      (js ''/channels'', js ''admin'', js ''channel''),
      (js ''/models'', js ''admin'', js ''models''),
      (js ''/models/metadata'', js ''admin'', js ''models''),
      (js ''/models/deployments'', js ''admin'', js ''models''),
      (js ''/users'', js ''admin'', js ''user''),
      (js ''/redemption-codes'', js ''admin'', js ''redemption''),
      (js ''/subscriptions'', js ''admin'', js ''subscription''),
      (js ''/system-settings'', js ''admin'', js ''setting''),
      (js ''/system-settings/site'', js ''admin'', js ''setting'')]"

text \<open>The setting is a text, \<open>null\<close> or \<open>undefined\<close>; the last two are \<open>None\<close>.\<close>

definition parseSidebarConfig :: "jstring option \<Rightarrow> (jstring \<times> jsval) list" where
  "parseSidebarConfig v =
     (case v of
        None \<Rightarrow> default_config
      | Some t \<Rightarrow>
          if t = [] \<or> trim t = [] then default_config
          else case JSON_parse t of
                 Some parsed \<Rightarrow> mergeWithDefaultSidebarModules parsed
               | None \<Rightarrow> default_config)"

definition parseUserSidebarConfig :: "jstring option \<Rightarrow> jsval" where
  "parseUserSidebarConfig v =
     (case v of
        None \<Rightarrow> Null
      | Some t \<Rightarrow>
          if t = [] \<or> trim t = [] then Null
          else case JSON_parse t of
                 Some parsed \<Rightarrow> if \<not> truthy parsed \<or> \<not> is_obj parsed then Null else parsed
               | None \<Rightarrow> Null)"

subsection \<open>Entries of the sidebar\<close>

text \<open>An address is a text or, as the router allows, an object; icons are left out.\<close>

record BaseNavItem =
  ni_title :: jstring
  ni_badge :: "jstring option"
  ni_activeUrls :: "jsval list option"
  ni_configUrls :: "jsval list option"

datatype NavItem =
    NavLink BaseNavItem jsval
  | NavCollapsible BaseNavItem "(BaseNavItem \<times> jsval) list"
  | NavChatPresets BaseNavItem

record NavGroup =
  ng_id :: "jstring option"
  ng_title :: jstring
  ng_items :: "NavItem list"

definition isModuleEnabled :: "jsval \<Rightarrow> (jstring \<times> jsval) list \<Rightarrow> jsval \<Rightarrow> bool" where
  "isModuleEnabled url adminConfig userConfig =
     (case map_of URL_TO_CONFIG_MAP (to_str url) of
        None \<Rightarrow> True
      | Some (section, m) \<Rightarrow>
          (let adminSection = get_key (Obj adminConfig) section;
               adminAllowed = (truthy adminSection \<and> truthy (get_key adminSection (js ''enabled'')) \<and>
                               get_key adminSection m = Bool True)
           in if \<not> adminAllowed then False
              else if \<not> truthy userConfig then True
              else
                (let userSection = get_key userConfig section
                 in if \<not> truthy userSection then True
                    else if get_key userSection (js ''enabled'') = Bool False then False
                    else get_key userSection m \<noteq> Bool False)))"

definition isNavItemVisible :: "NavItem \<Rightarrow> (jstring \<times> jsval) list \<Rightarrow> jsval \<Rightarrow> bool" where
  "isNavItemVisible item adminConfig userConfig =
     (case item of
        NavChatPresets _ \<Rightarrow>
          (let adminChat = get_key (Obj adminConfig) (js ''chat'');
               adminAllowed = (truthy (get_key adminChat (js ''enabled'')) \<and>
                               get_key adminChat (js ''chat'') = Bool True)
           in if \<not> adminAllowed then False
              else if \<not> truthy userConfig then True
              else
                (let userChat = get_key userConfig (js ''chat'')
                 in if \<not> truthy userChat then True
                    else if get_key userChat (js ''enabled'') = Bool False then False
                    else get_key userChat (js ''chat'') \<noteq> Bool False))
      | NavLink b url \<Rightarrow>
          if truthy url then
            list_ex (\<lambda>u. isModuleEnabled u adminConfig userConfig)
              (case ni_configUrls b of Some us \<Rightarrow> us | None \<Rightarrow> [url])
          else True
      | NavCollapsible b items \<Rightarrow>
          list_ex (\<lambda>subItem. isModuleEnabled (snd subItem) adminConfig userConfig) items)"

definition filterNavItems :: "NavItem list \<Rightarrow> (jstring \<times> jsval) list \<Rightarrow> jsval \<Rightarrow> NavItem list" where
  "filterNavItems items adminConfig userConfig =
     filter (\<lambda>item. isNavItemVisible item adminConfig userConfig)
       (map (\<lambda>item.
              case item of
                NavCollapsible b subs \<Rightarrow>
                  NavCollapsible b (filter (\<lambda>subItem. isModuleEnabled (snd subItem) adminConfig userConfig) subs)
              | _ \<Rightarrow> item)
          items)"

text \<open>
  \<open>status\<close> is the text of \<open>status.SidebarModulesAdmin\<close>, \<open>permitted\<close> the value of
  \<open>auth.user.permissions.sidebar_settings\<close> and \<open>user\<close> the text of
  \<open>auth.user.sidebar_modules\<close>.
\<close>

definition user_config :: "bool option \<Rightarrow> jstring option \<Rightarrow> jsval" where
  "user_config permitted user = (if permitted = Some False then Null else parseUserSidebarConfig user)"

definition useSidebarConfig ::
    "jstring option \<Rightarrow> bool option \<Rightarrow> jstring option \<Rightarrow> NavGroup list \<Rightarrow> NavGroup list" where
  "useSidebarConfig status permitted user navGroups =
     (let adminConfig = parseSidebarConfig status;
          userConfig = user_config permitted user
      in filter (\<lambda>g. 0 < length (ng_items g))
           (map (\<lambda>g. g\<lparr>ng_items := filterNavItems (ng_items g) adminConfig userConfig\<rparr>) navGroups))"

text \<open>\<open>t\<close> is the translation of a text.\<close>

definition nav_base :: "jstring \<Rightarrow> BaseNavItem" where
  "nav_base title = \<lparr>ni_title = title, ni_badge = None, ni_activeUrls = None, ni_configUrls = None\<rparr>"

definition useSidebarData :: "(jstring \<Rightarrow> jstring) \<Rightarrow> NavGroup list" where
  "useSidebarData t =
     (let link = (\<lambda>title url. NavLink (nav_base (t (js title))) (Str (js url)))
      in
     [\<lparr>ng_id = Some (js ''chat''), ng_title = t (js ''Chat''),
       ng_items =
         [link ''Playground'' ''/playground'',
          link ''Drawing'' ''/drawing'',
          NavChatPresets (nav_base (t (js ''Chat'')))]\<rparr>,
      \<lparr>ng_id = Some (js ''general''), ng_title = t (js ''General''),
       ng_items =
         [link ''Overview'' ''/dashboard/overview'',
          link ''Dashboard'' ''/dashboard/models'',
          link ''API Keys'' ''/keys'',
          link ''Usage Logs'' ''/usage-logs/common'',
          link ''Channel status'' ''/channel-status'']\<rparr>,
      \<lparr>ng_id = Some (js ''personal''), ng_title = t (js ''Personal''),
       ng_items =
         [link ''Wallet'' ''/wallet'',
          link ''Profile'' ''/profile'']\<rparr>,
      \<lparr>ng_id = Some (js ''admin''), ng_title = t (js ''Admin''),
       ng_items =
         [link ''Channels'' ''/channels'',
          link ''Models'' ''/models/metadata'',
          link ''Users'' ''/users'',
          link ''Leaderboard'' ''/leaderboard-admin'',
          link ''Redemption Codes'' ''/redemption-codes'',
          link ''Subscription Management'' ''/subscriptions'',
          NavLink
            ((nav_base (t (js ''System Settings'')))\<lparr>ni_activeUrls := Some [Str (js ''/system-settings'')]\<rparr>)
            (Str (js ''/system-settings/site''))]\<rparr>])"

subsection \<open>The active entry\<close>

definition urlToString :: "jsval \<Rightarrow> jstring option" where
  "urlToString url =
     (case url of
        Str s \<Rightarrow> Some s
      | Obj _ \<Rightarrow>
          (let pathname = (case get_key url (js ''pathname'') of Str p \<Rightarrow> p | _ \<Rightarrow> []);
               search = (case get_key url (js ''search'') of Str q \<Rightarrow> q | _ \<Rightarrow> [])
           in Some (pathname @ search))
      | _ \<Rightarrow> None)"

definition path_part :: "jstring \<Rightarrow> jstring" where
  "path_part href = hd (split_chr 63 href)"

text \<open>The replacement of \<open>/\/+$/\<close> takes the slashes off the end.\<close>

definition normalizeHref :: "jstring \<Rightarrow> jstring" where
  "normalizeHref href =
     (let withoutQuery = path_part href
      in if 1 < length withoutQuery then rev (dropWhile (\<lambda>c. c = 47) (rev withoutQuery))
         else withoutQuery)"

definition nth_part :: "nat \<Rightarrow> jstring \<Rightarrow> jstring option" where
  "nth_part i href =
     (let parts = split_chr 47 href in if i < length parts then Some (parts ! i) else None)"

definition sub_item_active :: "jstring \<Rightarrow> jsval \<Rightarrow> bool" where
  "sub_item_active href url =
     (if \<not> truthy url then False
      else case urlToString url of
             None \<Rightarrow> False
           | Some subItemUrl \<Rightarrow>
               if subItemUrl = [] then False
               else if href = subItemUrl then True
               else if path_part subItemUrl = path_part href then
                 (if \<not> str_includes subItemUrl (js ''?'') then True
                  else str_includes subItemUrl (js ''?'') \<and> href = subItemUrl)
               else False)"

definition link_active :: "jstring \<Rightarrow> jsval \<Rightarrow> bool \<Rightarrow> bool" where
  "link_active href url mainNav =
     (if \<not> truthy url then False
      else case urlToString url of
             None \<Rightarrow> False
           | Some itemUrl \<Rightarrow>
               if itemUrl = [] then False
               else if href = itemUrl then True
               else if path_part href = path_part itemUrl \<and> \<not> str_includes itemUrl (js ''?'') then True
               else if path_part href = path_part itemUrl \<and> str_includes itemUrl (js ''?'') \<and> href = itemUrl
               then True
               else if mainNav \<and> truthy_opt (nth_part 1 href) then nth_part 1 href = nth_part 1 itemUrl
               else False)"

definition checkIsActive :: "jstring \<Rightarrow> NavItem \<Rightarrow> bool \<Rightarrow> bool" where
  "checkIsActive href item mainNav =
     (let base = (case item of NavLink b _ \<Rightarrow> b | NavCollapsible b _ \<Rightarrow> b | NavChatPresets b \<Rightarrow> b)
      in if (case ni_activeUrls base of
               None \<Rightarrow> False
             | Some us \<Rightarrow> list_ex (\<lambda>url. urlToString url = Some (path_part href)) us)
         then True
         else case item of
                NavCollapsible _ subs \<Rightarrow> list_ex (\<lambda>i. sub_item_active href (snd i)) subs
              | NavLink _ url \<Rightarrow> link_active href url mainNav
              | NavChatPresets _ \<Rightarrow> False)"

end
