(* ===== verification/NavigationLaws.thy ===== *)
theory NavigationLaws
  imports Navigation
begin

text \<open>
  What the sidebar shows, and that the guards of routes agree with it.  The entries
  are read as a list of leaves (links, entries of a collapsible, the chat presets);
  each layer of settings is a predicate on a section and a module.
\<close>

subsection \<open>Two layers\<close>

definition admin_on :: "(jstring \<times> jsval) list \<Rightarrow> jstring \<Rightarrow> jstring \<Rightarrow> bool" where
  "admin_on a sec m \<longleftrightarrow>
     truthy (get_key (get_key (Obj a) sec) (js ''enabled'')) \<and> get_key (get_key (Obj a) sec) m = Bool True"

definition user_on :: "jsval \<Rightarrow> jstring \<Rightarrow> jstring \<Rightarrow> bool" where
  "user_on c sec m \<longleftrightarrow>
     get_key (get_key c sec) (js ''enabled'') \<noteq> Bool False \<and> get_key (get_key c sec) m \<noteq> Bool False"

definition url_on :: "(jstring \<Rightarrow> jstring \<Rightarrow> bool) \<Rightarrow> jsval \<Rightarrow> bool" where
  "url_on P u = (case map_of URL_TO_CONFIG_MAP (to_str u) of None \<Rightarrow> True | Some (sec, m) \<Rightarrow> P sec m)"

datatype Leaf =
    LinkLeaf BaseNavItem jsval
  | SubLeaf BaseNavItem BaseNavItem jsval
  | PresetLeaf BaseNavItem

fun item_leaves :: "NavItem \<Rightarrow> Leaf list" where
  "item_leaves (NavLink b u) = [LinkLeaf b u]"
| "item_leaves (NavCollapsible b subs) = map (\<lambda>(c, u). SubLeaf b c u) subs"
| "item_leaves (NavChatPresets b) = [PresetLeaf b]"

definition leaves :: "NavGroup list \<Rightarrow> Leaf list" where
  "leaves gs = concat (map (\<lambda>g. concat (map item_leaves (ng_items g))) gs)"

fun leaf_shown :: "(jstring \<Rightarrow> jstring \<Rightarrow> bool) \<Rightarrow> Leaf \<Rightarrow> bool" where
  "leaf_shown P (LinkLeaf b u) \<longleftrightarrow>
     (truthy u \<longrightarrow> list_ex (url_on P) (case ni_configUrls b of Some us \<Rightarrow> us | None \<Rightarrow> [u]))"
| "leaf_shown P (SubLeaf _ _ u) = url_on P u"
| "leaf_shown P (PresetLeaf _) = P (js ''chat'') (js ''chat'')"

lemma get_key_falsy: "\<not> truthy v \<Longrightarrow> get_key v k \<noteq> Bool b"
  by (cases v) (auto simp: get_key_def)

lemma get_key_Null [simp]: "get_key Null k = Undef"
  by (simp add: get_key_def)

lemma get_key_bool_truthy: "get_key v k = Bool b \<Longrightarrow> truthy v"
  using get_key_falsy by blast

lemma get_key_falsy_twice: "\<not> truthy c \<Longrightarrow> get_key (get_key c k) l \<noteq> Bool b"
  by (cases c) (auto simp: get_key_def)

lemma module_two_layers:
  "isModuleEnabled u a c = url_on (\<lambda>sec m. admin_on a sec m \<and> user_on c sec m) u"
  by (auto simp: isModuleEnabled_def url_on_def admin_on_def user_on_def Let_def get_key_falsy
      get_key_falsy_twice dest: get_key_bool_truthy split: option.splits)

lemma presets_two_layers:
  "isNavItemVisible (NavChatPresets b) a c =
     (admin_on a (js ''chat'') (js ''chat'') \<and> user_on c (js ''chat'') (js ''chat''))"
  by (auto simp: isNavItemVisible_def admin_on_def user_on_def Let_def get_key_falsy get_key_falsy_twice)

lemma filterNavItems_Nil: "filterNavItems [] a c = []"
  by (simp add: filterNavItems_def)

lemma filter_empty_ex: "\<not> list_ex P xs \<longleftrightarrow> filter P xs = []"
  by (induction xs) auto

lemma item_leaves_filter:
  "concat (map item_leaves (filterNavItems [item] a c)) =
     filter (leaf_shown (\<lambda>sec m. admin_on a sec m \<and> user_on c sec m)) (item_leaves item)"
proof (cases item)
  case (NavLink b u)
  then show ?thesis
    by (simp add: filterNavItems_def isNavItemVisible_def module_two_layers)
next
  case (NavCollapsible b subs)
  have "filter (leaf_shown P) (map (\<lambda>(c, u). SubLeaf b c u) subs) =
      map (\<lambda>(c, u). SubLeaf b c u) (filter (\<lambda>i. url_on P (snd i)) subs)" for P
    by (induction subs) auto
  then show ?thesis
    using filter_empty_ex [of "\<lambda>i. isModuleEnabled (snd i) a c" "filter (\<lambda>i. isModuleEnabled (snd i) a c) subs"]
    by (auto simp: NavCollapsible filterNavItems_def isNavItemVisible_def module_two_layers)
next
  case (NavChatPresets b)
  then show ?thesis by (simp add: filterNavItems_def presets_two_layers)
qed

lemma filterNavItems_Cons: "filterNavItems (i # is) a c = filterNavItems [i] a c @ filterNavItems is a c"
  by (simp add: filterNavItems_def)

lemma items_leaves_filter:
  "concat (map item_leaves (filterNavItems items a c)) =
     filter (leaf_shown (\<lambda>sec m. admin_on a sec m \<and> user_on c sec m)) (concat (map item_leaves items))"
proof (induction items)
  case (Cons i items)
  then show ?case
    using item_leaves_filter [of i a c] by (subst filterNavItems_Cons) simp
qed (simp add: filterNavItems_Nil)

lemma leaves_Cons: "leaves (g # gs) = concat (map item_leaves (ng_items g)) @ leaves gs"
  by (simp add: leaves_def)

lemma leaves_skip_empty: "leaves (filter (\<lambda>g. 0 < length (ng_items g)) gs) = leaves gs"
  by (induction gs) (auto simp: leaves_def)

lemma leaves_filter_groups:
  "leaves (map (\<lambda>g. g\<lparr>ng_items := filterNavItems (ng_items g) a c\<rparr>) gs) =
     filter (leaf_shown (\<lambda>sec m. admin_on a sec m \<and> user_on c sec m)) (leaves gs)"
  by (induction gs) (simp_all add: leaves_Cons items_leaves_filter, simp add: leaves_def)

lemma sidebar_leaves:
  "leaves (useSidebarConfig st p us gs) =
     filter (leaf_shown (\<lambda>sec m. admin_on (parseSidebarConfig st) sec m \<and> user_on (user_config p us) sec m))
       (leaves gs)"
  by (simp add: useSidebarConfig_def Let_def leaves_skip_empty leaves_filter_groups del: length_greater_0_conv)

lemma url_on_mono: "(\<And>sec m. P sec m \<Longrightarrow> Q sec m) \<Longrightarrow> url_on P u \<Longrightarrow> url_on Q u"
  by (auto simp: url_on_def split: option.splits)

lemma leaf_shown_mono: "(\<And>sec m. P sec m \<Longrightarrow> Q sec m) \<Longrightarrow> leaf_shown P l \<Longrightarrow> leaf_shown Q l"
  by (cases l) (auto simp: list_ex_iff intro: url_on_mono [of P Q])

lemma user_on_none: "user_on (user_config p None) sec m"
  by (simp add: user_config_def parseUserSidebarConfig_def user_on_def get_key_def)

text \<open>
  C15: the sidebar shows exactly the leaves that both layers allow, in their order and
  without empty groups, and the settings of the user never add an entry to what
  the administrator allows.
\<close>

theorem sidebar_shows_allowed:
  "leaves (useSidebarConfig st p us gs) =
     filter (leaf_shown (\<lambda>sec m. admin_on (parseSidebarConfig st) sec m \<and> user_on (user_config p us) sec m))
       (leaves gs) \<and>
   list_all (\<lambda>g. ng_items g \<noteq> []) (useSidebarConfig st p us gs) \<and>
   set (leaves (useSidebarConfig st p us gs)) \<subseteq> set (leaves (useSidebarConfig st p None gs)) \<and>
   leaves (useSidebarConfig st p None gs) =
     filter (leaf_shown (admin_on (parseSidebarConfig st))) (leaves gs)"
proof (intro conjI)
  show "list_all (\<lambda>g. ng_items g \<noteq> []) (useSidebarConfig st p us gs)"
    by (simp add: useSidebarConfig_def Let_def list_all_iff)
  show "set (leaves (useSidebarConfig st p us gs)) \<subseteq> set (leaves (useSidebarConfig st p None gs))"
    by (auto simp: sidebar_leaves user_on_none elim: leaf_shown_mono [rotated] simp del: leaf_shown.simps)
qed (simp_all add: sidebar_leaves user_on_none)

subsection \<open>Guards of routes\<close>




















definition chat_off :: jsval where
  "chat_off = Obj [(js ''chat'', Obj [(js ''enabled'', Bool False)])]"

definition chat_off_status :: jsval where
  "chat_off_status = Obj [(js ''SidebarModulesAdmin'', Str (json_text chat_off))]"

lemma guard_of_status:
  assumes "json_ok status" and "truthy status" and "json_text status \<noteq> []"
  shows "getCachedStatus [STATUS_KEY \<mapsto> json_text status] = status"
  using JSON_parse_stringify [OF assms(1)] assms(3)
  by (simp add: getCachedStatus_def load_json_def getItem_def)

lemma unmapped_link_shown:
  assumes "map_of URL_TO_CONFIG_MAP u = None"
  shows "leaf_shown P (LinkLeaf (nav_base t) (Str u))"
  using assms by (simp add: nav_base_def url_on_def)

lemma drawing_in_data:
  "LinkLeaf (nav_base (t (js ''Drawing''))) (Str (js ''/drawing'')) \<in> set (leaves (useSidebarData t))"
  unfolding useSidebarData_def leaves_def Let_def by (simp only: list.map concat.simps set_append NavGroup.simps
      item_leaves.simps list.set Un_iff insert_iff simp_thms)

text \<open>
  The link to the drawing page belongs to no module, so the sidebar shows it
  under all settings, also when the administrator switched the chat section off and
  the guard of that page refuses it.
\<close>

theorem drawing_link_kept:
  "LinkLeaf (nav_base (t (js ''Drawing''))) (Str (js ''/drawing'')) \<in>
     set (leaves (useSidebarConfig st p us (useSidebarData t))) \<and>
   \<not> isSidebarModuleEnabled [STATUS_KEY \<mapsto> json_text chat_off_status] (js ''chat'') (js ''drawing'')"
proof
  have n: "map_of URL_TO_CONFIG_MAP (js ''/drawing'') = None" by code_simp
  show "LinkLeaf (nav_base (t (js ''Drawing''))) (Str (js ''/drawing'')) \<in>
      set (leaves (useSidebarConfig st p us (useSidebarData t)))"
    unfolding sidebar_leaves using unmapped_link_shown [OF n] drawing_in_data by (simp del: leaf_shown.simps)
  have "getCachedStatus [STATUS_KEY \<mapsto> json_text chat_off_status] = chat_off_status"
    by (rule guard_of_status) (code_simp+)
  moreover have "JSON_parse (json_text chat_off) = Some chat_off" and "trim (json_text chat_off) \<noteq> []"
    and "json_text chat_off \<noteq> []"
    by code_simp+
  ultimately show "\<not> isSidebarModuleEnabled [STATUS_KEY \<mapsto> json_text chat_off_status] (js ''chat'') (js ''drawing'')"
    by (simp add: isSidebarModuleEnabled_def chat_off_status_def get_key_Obj chat_off_def)
qed

subsection \<open>Access to the modules of the header\<close>

lemma nav_entries_access:
  "distinct (map fst ps) \<Longrightarrow>
   nav_pricing (foldl nav_entry r ps) =
     (case map_of ps (js ''pricing'') of None \<Rightarrow> nav_pricing r | Some v \<Rightarrow> parseAccess v (nav_pricing r)) \<and>
   nav_rankings (foldl nav_entry r ps) =
     (case map_of ps (js ''rankings'') of None \<Rightarrow> nav_rankings r | Some v \<Rightarrow> parseAccess v (nav_rankings r))"
proof (induction ps arbitrary: r)
  case (Cons x ps)
  obtain k v where x: "x = (k, v)" by (cases x)
  have n: "map_of ps k = None" and d: "distinct (map fst ps)"
    using Cons.prems by (auto simp: x map_of_eq_None_iff)
  have a: "nav_pricing (nav_entry r x) = (if k = js ''pricing'' then parseAccess v (nav_pricing r) else nav_pricing r)"
    and b: "nav_rankings (nav_entry r x) = (if k = js ''rankings'' then parseAccess v (nav_rankings r) else nav_rankings r)"
    by (simp_all add: x nav_entry_def Let_def)
  show ?case
    using Cons.IH [OF d, of "nav_entry r x"] n unfolding a b
    by (cases "k = js ''pricing''"; cases "k = js ''rankings''") (simp_all add: x)
qed simp

text \<open>A module of the header is ruled by its own entry alone, and a failed request closes it.\<close>

lemma header_access:
  assumes "get_key status (js ''HeaderNavModules'') = Obj ps" and "distinct (map fst ps)"
  shows "getModuleAccessFromStatus status Pricing =
      (case map_of ps (js ''pricing'') of
         None \<Rightarrow> \<lparr>ma_enabled = True, ma_requireAuth = False\<rparr>
       | Some v \<Rightarrow> parseAccess v \<lparr>ma_enabled = True, ma_requireAuth = False\<rparr>)"
proof -
  have "trim (js ''[object Object]'') \<noteq> []" by code_simp
  then have "parseHeaderNavModules (Obj ps) = foldl nav_entry cloneHeaderNavDefaults ps"
    by (simp add: parseHeaderNavModules_def parseHeaderNavRecord_def is_obj_def Let_def)
  then show ?thesis
    using nav_entries_access [OF assms(2), of cloneHeaderNavDefaults]
    by (simp add: getModuleAccessFromStatus_def parseHeaderNavModulesFromStatus_def assms(1)
        cloneHeaderNavDefaults_def DEFAULT_HEADER_NAV_MODULES_def split: option.split)
qed

lemma fresh_then_cached:
  assumes "json_ok status" and "truthy status" and "json_text status \<noteq> []"
    and "getFreshModuleAccess True (Some status) m s = (a, s')"
  shows "getModuleAccess s' m = a"
  using assms JSON_parse_stringify [OF assms(1)]
  by (auto simp: getFreshModuleAccess_def getModuleAccess_def getCachedStatus_def cacheStatus_def save_json_def
      setItem_def load_json_def getItem_def)

subsection \<open>Addresses\<close>

lemma path_part_free: "63 \<notin> set (path_part href)"
  unfolding path_part_def by (rule split_chr_parts [OF hd_in_set]) simp

lemma path_part_idem: "path_part (path_part href) = path_part href"
  using split_chr_free [OF path_part_free] by (metis list.sel(1) path_part_def)

lemma normalizeHref_free: "63 \<notin> set (normalizeHref href)"
  using path_part_free [of href] set_dropWhileD [of _ "\<lambda>c. c = 47" "rev (path_part href)"]
  by (auto simp: normalizeHref_def Let_def)

lemma path_part_id: "63 \<notin> set s \<Longrightarrow> path_part s = s"
  by (simp add: path_part_def split_chr_free)

lemma dropWhile_idem: "dropWhile P (dropWhile P xs) = dropWhile P xs"
  by (induction xs) auto

lemma normalizeHref_idem: "normalizeHref (normalizeHref href) = normalizeHref href"
proof -
  have "path_part (normalizeHref href) = normalizeHref href"
    by (rule path_part_id) (rule normalizeHref_free)
  then show ?thesis
    by (simp add: normalizeHref_def [of "normalizeHref href"]) (simp add: normalizeHref_def Let_def dropWhile_idem)
qed

text \<open>A link without a query is active exactly on its own path, whatever the query there.\<close>

lemma plain_link_active:
  assumes "u \<noteq> []" and "63 \<notin> set u"
  shows "link_active href (Str u) False \<longleftrightarrow> path_part href = u"
  using assms path_part_id [OF assms(2)]
  by (auto simp: link_active_def urlToString_def str_includes_iff js_simps)

end
