(* ===== verification/PricingFilters.thy ===== *)
theory PricingFilters
  imports JS_Regex JS_Number
begin

text \<open>
  The list of models on the pricing page: \<open>features/pricing/types.ts\<close>, \<open>constants.ts\<close> and
  \<open>lib/filters.ts\<close>, that is the filters, the sorting and the tags.  \<open>lower\<close> stands for
  \<open>toLowerCase\<close> and \<open>collate\<close> for \<open>localeCompare\<close>, whose results depend on tables of the
  browser.
\<close>

subsection \<open>Models and constants\<close>

datatype Modality = TextM | ImageM | AudioM | VideoM | FileM

datatype ModelCapability =
    FunctionCalling | Streaming | Vision | JsonMode | StructuredOutput | ReasoningC | Tools
  | SystemPrompt | WebSearch | CodeInterpreter | Caching | EmbeddingsC

text \<open>An optional number that may be \<open>null\<close> as well is an option, too.\<close>

record PricingModel =
  pm_id :: jnum
  pm_model_name :: jstring
  pm_description :: "jstring option"
  pm_icon :: "jstring option"
  pm_vendor_id :: "jnum option"
  pm_vendor_name :: "jstring option"
  pm_vendor_icon :: "jstring option"
  pm_vendor_description :: "jstring option"
  pm_quota_type :: jnum
  pm_model_ratio :: jnum
  pm_completion_ratio :: jnum
  pm_model_price :: "jnum option"
  pm_cache_ratio :: "jnum option"
  pm_create_cache_ratio :: "jnum option"
  pm_image_ratio :: "jnum option"
  pm_audio_ratio :: "jnum option"
  pm_audio_completion_ratio :: "jnum option"
  pm_enable_groups :: "jstring list"
  pm_tags :: "jstring option"
  pm_supported_endpoint_types :: "jstring list option"
  pm_key :: "jstring option"
  pm_group_ratio :: "(jstring \<times> jnum) list option"
  pm_billing_mode :: "jstring option"
  pm_billing_expr :: "jstring option"
  pm_pricing_version :: "jstring option"
  pm_context_length :: "jnum option"
  pm_max_output_tokens :: "jnum option"
  pm_knowledge_cutoff :: "jstring option"
  pm_release_date :: "jstring option"
  pm_parameter_count :: "jstring option"
  pm_input_modalities :: "Modality list option"
  pm_output_modalities :: "Modality list option"
  pm_capabilities :: "ModelCapability list option"

definition SORT_NAME :: jstring where
  "SORT_NAME = js ''name''"

definition SORT_PRICE_LOW :: jstring where
  "SORT_PRICE_LOW = js ''price-low''"

definition SORT_PRICE_HIGH :: jstring where
  "SORT_PRICE_HIGH = js ''price-high''"

definition FILTER_ALL :: jstring where
  "FILTER_ALL = js ''all''"

definition QUOTA_ALL :: jstring where
  "QUOTA_ALL = js ''all''"

definition QUOTA_TOKEN :: jstring where
  "QUOTA_TOKEN = js ''token''"

definition QUOTA_TYPE_TOKEN :: jnum where
  "QUOTA_TYPE_TOKEN = Fin 0"

definition QUOTA_TYPE_REQUEST :: jnum where
  "QUOTA_TYPE_REQUEST = Fin 1"

definition ENDPOINT_ALL :: jstring where
  "ENDPOINT_ALL = js ''all''"

subsection \<open>Filters\<close>

definition field_includes :: "(jstring \<Rightarrow> jstring) \<Rightarrow> jstring \<Rightarrow> jstring option \<Rightarrow> bool" where
  "field_includes lower q s = (case s of None \<Rightarrow> False | Some t \<Rightarrow> str_includes (lower t) q)"

definition filterBySearch :: "(jstring \<Rightarrow> jstring) \<Rightarrow> PricingModel list \<Rightarrow> jstring \<Rightarrow> PricingModel list" where
  "filterBySearch lower models query =
     (if query = [] then models
      else
        (let lowerQuery = lower query
         in filter (\<lambda>m. field_includes lower lowerQuery (Some (pm_model_name m)) \<or>
                       field_includes lower lowerQuery (pm_description m) \<or>
                       field_includes lower lowerQuery (pm_tags m) \<or>
                       field_includes lower lowerQuery (pm_vendor_name m)) models))"

definition filterByVendor :: "PricingModel list \<Rightarrow> jstring \<Rightarrow> PricingModel list" where
  "filterByVendor models vendor =
     (if vendor = FILTER_ALL then models else filter (\<lambda>m. pm_vendor_name m = Some vendor) models)"

definition filterByGroup :: "PricingModel list \<Rightarrow> jstring \<Rightarrow> PricingModel list" where
  "filterByGroup models grp =
     (if grp = FILTER_ALL then models else filter (\<lambda>m. grp \<in> set (pm_enable_groups m)) models)"

definition filterByQuotaType :: "PricingModel list \<Rightarrow> jstring \<Rightarrow> PricingModel list" where
  "filterByQuotaType models quotaType =
     (if quotaType = QUOTA_ALL then models
      else
        (let targetType = (if quotaType = QUOTA_TOKEN then QUOTA_TYPE_TOKEN else QUOTA_TYPE_REQUEST)
         in filter (\<lambda>m. num_eq (pm_quota_type m) targetType) models))"

definition filterByEndpointType :: "PricingModel list \<Rightarrow> jstring \<Rightarrow> PricingModel list" where
  "filterByEndpointType models endpointType =
     (if endpointType = ENDPOINT_ALL then models
      else filter (\<lambda>m. case pm_supported_endpoint_types m of
                          None \<Rightarrow> False
                        | Some ts \<Rightarrow> endpointType \<in> set ts) models)"

text \<open>The separators of the expression \<open>/[,;|\s]+/\<close>.\<close>

definition tag_sep :: "nat \<Rightarrow> bool" where
  "tag_sep c \<longleftrightarrow> c = 44 \<or> c = 59 \<or> c = 124 \<or> is_ws c"

definition parseTags :: "jstring option \<Rightarrow> jstring list" where
  "parseTags tagsString =
     (if \<not> truthy_opt tagsString then []
      else filter nonempty (map trim (re_split (Plus (Cls tag_sep)) (opt_str tagsString))))"

definition filterByTag :: "(jstring \<Rightarrow> jstring) \<Rightarrow> PricingModel list \<Rightarrow> jstring \<Rightarrow> PricingModel list" where
  "filterByTag lower models tag =
     (if tag = FILTER_ALL then models
      else
        (let tagLower = lower tag
         in filter (\<lambda>m. if \<not> truthy_opt (pm_tags m) then False
                       else tagLower \<in> set (map lower (parseTags (pm_tags m)))) models))"

text \<open>The set keeps the order in which its elements were added.\<close>

definition extractAllTags ::
    "(jstring \<Rightarrow> jstring) \<Rightarrow> (jstring \<Rightarrow> jstring \<Rightarrow> jnum) \<Rightarrow> PricingModel list \<Rightarrow> jstring list" where
  "extractAllTags lower collate models =
     (let tagSet = foldl (\<lambda>s model.
              if truthy_opt (pm_tags model)
              then foldl (\<lambda>s tag. set_add s (lower tag)) s (parseTags (pm_tags model))
              else s) [] models
      in sort_by (\<lambda>a b. \<not> num_lt (Fin 0) (collate a b)) tagSet)"

subsection \<open>Sorting\<close>

definition getModelPrice :: "PricingModel \<Rightarrow> jnum" where
  "getModelPrice model =
     (if num_eq (pm_quota_type model) (Fin 0) then pm_model_ratio model
      else (case pm_model_price model of None \<Rightarrow> Fin 0 | Some p \<Rightarrow> num_or0 p))"

text \<open>A comparator puts its second argument first when its result is positive.\<close>

definition sortModels ::
    "(jstring \<Rightarrow> jstring \<Rightarrow> jnum) \<Rightarrow> PricingModel list \<Rightarrow> jstring \<Rightarrow> PricingModel list" where
  "sortModels collate models sortBy =
     (if sortBy = SORT_NAME then
        sort_by (\<lambda>a b. \<not> num_lt (Fin 0) (collate (pm_model_name a) (pm_model_name b))) models
      else if sortBy = SORT_PRICE_LOW then
        sort_by (\<lambda>a b. \<not> num_lt (Fin 0) (num_sub (getModelPrice a) (getModelPrice b))) models
      else if sortBy = SORT_PRICE_HIGH then
        sort_by (\<lambda>a b. \<not> num_lt (Fin 0) (num_sub (getModelPrice b) (getModelPrice a))) models
      else models)"

record Filters =
  fi_search :: jstring
  fi_vendor :: jstring
  fi_group :: jstring
  fi_quotaType :: jstring
  fi_endpointType :: jstring
  fi_tag :: jstring
  fi_sortBy :: jstring

definition filterAndSortModels ::
    "(jstring \<Rightarrow> jstring) \<Rightarrow> (jstring \<Rightarrow> jstring \<Rightarrow> jnum) \<Rightarrow> PricingModel list \<Rightarrow> Filters \<Rightarrow> PricingModel list" where
  "filterAndSortModels lower collate models f =
     (let result = filterBySearch lower models (fi_search f);
          result = filterByVendor result (fi_vendor f);
          result = filterByGroup result (fi_group f);
          result = filterByQuotaType result (fi_quotaType f);
          result = filterByEndpointType result (fi_endpointType f);
          result = filterByTag lower result (fi_tag f);
          result = sortModels collate result (fi_sortBy f)
      in result)"

end
