(* ===== verification/PricingLaws.thy ===== *)
theory PricingLaws
  imports PricingFilters
begin

text \<open>
  The chain of filters and the sorting of the pricing page are one filter of a sorted
  list, and sorting by a difference of two prices is sorting by the price: a
  difference of two doubles never rounds to zero.
\<close>

subsection \<open>Differences of doubles\<close>

text \<open>A double is a multiple of the smallest one.\<close>

lemma pos_double_grid:
  assumes "is_double q" and "0 < q"
  shows "\<exists>m. q = of_int m * pw 2 (- 1074)"
proof -
  define e where "e = max (ilog 2 q - 52) (- 1074)"
  have "q = of_int (round_even (q / pw 2 e)) * pw 2 e"
    using assms(1) fl_pos [OF assms(2) e_def refl] by (auto simp: is_double_def split: if_splits)
  then obtain m where m: "q = of_int m * pw 2 e" by blast
  have "0 \<le> e + 1074" by (simp add: e_def)
  then obtain n where "e + 1074 = int n" by (metis nonneg_int_cases)
  then have "e = int n - 1074" by simp
  then have "pw 2 e = of_int (2 ^ n) * pw 2 (- 1074)"
    using pw_add [of 2 "int n" "- 1074"] by (simp add: pw_nat)
  then have "q = of_int (m * 2 ^ n) * pw 2 (- 1074)" by (simp add: m)
  then show ?thesis by blast
qed

lemma double_grid:
  assumes "is_double q"
  shows "\<exists>m. q = of_int m * pw 2 (- 1074)"
proof -
  consider "q = 0" | "0 < q" | "0 < - q" by linarith
  then show ?thesis
  proof cases
    case 1
    then show ?thesis by (intro exI [of _ 0]) simp
  next
    case 2
    then show ?thesis using pos_double_grid [OF assms] by blast
  next
    case 3
    then obtain m where "- q = of_int m * pw 2 (- 1074)"
      using pos_double_grid [OF is_double_uminus [OF assms]] by blast
    then have "q = of_int (- m) * pw 2 (- 1074)" by simp
    then show ?thesis by blast
  qed
qed

lemma fl_above_smallest:
  assumes "pw 2 (- 1074) \<le> x"
  shows "num_lt (Fin 0) (fl x)"
proof -
  have x: "0 < x" using assms pw_pos [of 2 "- 1074"] by linarith
  define e where "e = max (ilog 2 x - 52) (- 1074)"
  define r :: rat where "r = of_int (round_even (x / pw 2 e)) * pw 2 e"
  have "pw 2 e \<le> x"
  proof (cases "e = - 1074")
    case False
    then have "pw 2 e \<le> pw 2 (ilog 2 x)" unfolding e_def by (intro pw_mono) auto
    also have "\<dots> \<le> x" using ilog_bounds [of 2 x] x by simp
    finally show ?thesis .
  qed (use assms in simp)
  then have "of_int 1 \<le> x / pw 2 e" by (simp add: le_divide_eq)
  then have "1 \<le> round_even (x / pw 2 e)" by (rule round_even_ge)
  then have "0 < r" by (simp add: r_def)
  then show ?thesis using fl_pos [OF x e_def r_def] by (simp add: num_lt_def)
qed

lemma num_sub_sign:
  assumes "is_double a" and "is_double b"
  shows "num_lt (Fin 0) (num_sub (Fin a) (Fin b)) \<longleftrightarrow> b < a"
proof -
  obtain m n where m: "a = of_int m * pw 2 (- 1074)" and n: "b = of_int n * pw 2 (- 1074)"
    using double_grid assms by meson
  have diff: "num_lt (Fin 0) (fl (u - v))"
    if "u = of_int i * pw 2 (- 1074)" "v = of_int j * pw 2 (- 1074)" "v < u" for u v i j
  proof (rule fl_above_smallest)
    have "j < i" using that by simp
    then have "1 \<le> i - j" by simp
    then have "(1 :: rat) \<le> of_int (i - j)" by (simp only: of_int_1_le_iff)
    then show "pw 2 (- 1074) \<le> u - v"
      using that(1,2) by (simp add: left_diff_distrib [symmetric] del: of_int_diff flip: of_int_diff)
  qed
  consider "b < a" | "a = b" | "a < b" by linarith
  then show ?thesis
  proof cases
    case 1
    then show ?thesis using diff [OF m n] by (simp add: num_sub_def num_neg_def)
  next
    case 2
    then show ?thesis by (simp add: num_sub_def num_neg_def num_lt_def)
  next
    case 3
    have "num_lt (Fin 0) (fl (b - a))" using diff [OF n m 3] .
    then have "\<not> num_lt (Fin 0) (fl (a - b))"
      using fl_neg [of "a - b"] 3 by (auto simp: num_lt_def split: jnum.splits)
    then show ?thesis using 3 by (simp add: num_sub_def num_neg_def)
  qed
qed

subsection \<open>Filtering and sorting\<close>

lemma insert_by_cong:
  "(\<And>y. y \<in> set ys \<Longrightarrow> le x y = le' x y) \<Longrightarrow> insert_by le x ys = insert_by le' x ys"
  by (induction ys) auto

lemma sort_by_cong:
  "(\<And>x y. x \<in> set xs \<Longrightarrow> y \<in> set xs \<Longrightarrow> le x y = le' x y) \<Longrightarrow> sort_by le xs = sort_by le' xs"
proof (induction xs)
  case (Cons x xs)
  have "insert_by le x (sort_by le' xs) = insert_by le' x (sort_by le' xs)"
    using Cons.prems by (intro insert_by_cong) simp
  moreover have "sort_by le xs = sort_by le' xs" using Cons by simp
  ultimately show ?case by (simp add: sort_by_def)
qed (simp add: sort_by_def)

text \<open>All filters in one test of a model.\<close>

definition model_matches :: "(jstring \<Rightarrow> jstring) \<Rightarrow> Filters \<Rightarrow> PricingModel \<Rightarrow> bool" where
  "model_matches lower f m \<longleftrightarrow>
     (fi_search f = [] \<or>
        list_ex (field_includes lower (lower (fi_search f)))
          [Some (pm_model_name m), pm_description m, pm_tags m, pm_vendor_name m]) \<and>
     (fi_vendor f = js ''all'' \<or> pm_vendor_name m = Some (fi_vendor f)) \<and>
     (fi_group f = js ''all'' \<or> fi_group f \<in> set (pm_enable_groups m)) \<and>
     (fi_quotaType f = js ''all'' \<or>
        pm_quota_type m = (if fi_quotaType f = js ''token'' then Fin 0 else Fin 1)) \<and>
     (fi_endpointType f = js ''all'' \<or>
        (\<exists>ts. pm_supported_endpoint_types m = Some ts \<and> fi_endpointType f \<in> set ts)) \<and>
     (fi_tag f = js ''all'' \<or> lower (fi_tag f) \<in> lower ` set (parseTags (pm_tags m)))"

lemma parseTags_none: "\<not> truthy_opt t \<Longrightarrow> parseTags t = []"
  by (simp add: parseTags_def)

lemma parseTags_some: "x \<in> set (parseTags t) \<Longrightarrow> truthy_opt t"
  using parseTags_none by fastforce

lemma filterBySearch_filter:
  "filterBySearch lower models q =
     filter (\<lambda>m. q = [] \<or> list_ex (field_includes lower (lower q))
          [Some (pm_model_name m), pm_description m, pm_tags m, pm_vendor_name m]) models"
  by (simp add: filterBySearch_def Let_def)

lemma filterByVendor_filter:
  "filterByVendor models v = filter (\<lambda>m. v = js ''all'' \<or> pm_vendor_name m = Some v) models"
  by (simp add: filterByVendor_def FILTER_ALL_def)

lemma filterByGroup_filter:
  "filterByGroup models g = filter (\<lambda>m. g = js ''all'' \<or> g \<in> set (pm_enable_groups m)) models"
  by (simp add: filterByGroup_def FILTER_ALL_def)

lemma num_eq_Fin: "num_eq x (Fin q) \<longleftrightarrow> x = Fin q"
  by (auto simp: num_eq_def)

lemma filterByQuotaType_filter:
  "filterByQuotaType models t =
     filter (\<lambda>m. t = js ''all'' \<or> pm_quota_type m = (if t = js ''token'' then Fin 0 else Fin 1)) models"
  by (simp add: filterByQuotaType_def QUOTA_ALL_def QUOTA_TOKEN_def QUOTA_TYPE_TOKEN_def QUOTA_TYPE_REQUEST_def
      num_eq_Fin)

lemma filterByEndpointType_filter:
  "filterByEndpointType models t =
     filter (\<lambda>m. t = js ''all'' \<or> (\<exists>ts. pm_supported_endpoint_types m = Some ts \<and> t \<in> set ts)) models"
  by (auto simp: filterByEndpointType_def ENDPOINT_ALL_def intro!: filter_cong split: option.splits)

lemma filterByTag_filter:
  "filterByTag lower models t =
     filter (\<lambda>m. t = js ''all'' \<or> lower t \<in> lower ` set (parseTags (pm_tags m))) models"
  by (auto simp: filterByTag_def FILTER_ALL_def Let_def parseTags_none intro!: filter_cong dest: parseTags_some)

lemma filters_matches:
  "filterByTag lower (filterByEndpointType (filterByQuotaType (filterByGroup (filterByVendor
      (filterBySearch lower models (fi_search f)) (fi_vendor f)) (fi_group f)) (fi_quotaType f))
      (fi_endpointType f)) (fi_tag f) =
    filter (model_matches lower f) models"
  unfolding filterBySearch_filter filterByVendor_filter filterByGroup_filter filterByQuotaType_filter
    filterByEndpointType_filter filterByTag_filter filter_filter
  by (rule filter_cong) (auto simp: model_matches_def)

lemma filterAndSort_eq:
  "filterAndSortModels lower collate models f =
     sortModels collate (filter (model_matches lower f) models) (fi_sortBy f)"
  unfolding filterAndSortModels_def Let_def filters_matches ..

text \<open>
  \<open>localeCompare\<close> is a consistent comparison: it orders any two texts, and transitively.
\<close>

definition consistent :: "(jstring \<Rightarrow> jstring \<Rightarrow> jnum) \<Rightarrow> bool" where
  "consistent collate \<longleftrightarrow>
     (\<forall>a b. \<not> num_lt (Fin 0) (collate a b) \<or> \<not> num_lt (Fin 0) (collate b a)) \<and>
     (\<forall>a b c. \<not> num_lt (Fin 0) (collate a b) \<longrightarrow> \<not> num_lt (Fin 0) (collate b c) \<longrightarrow>
        \<not> num_lt (Fin 0) (collate a c))"

definition priced :: "PricingModel \<Rightarrow> bool" where
  "priced m = (case getModelPrice m of Fin q \<Rightarrow> is_double q | _ \<Rightarrow> False)"

definition price_of :: "PricingModel \<Rightarrow> rat" where
  "price_of m = (case getModelPrice m of Fin q \<Rightarrow> q | _ \<Rightarrow> 0)"

definition model_le :: "(jstring \<Rightarrow> jstring \<Rightarrow> jnum) \<Rightarrow> jstring \<Rightarrow> PricingModel \<Rightarrow> PricingModel \<Rightarrow> bool" where
  "model_le collate sortBy a b \<longleftrightarrow>
     (if sortBy = js ''name'' then \<not> num_lt (Fin 0) (collate (pm_model_name a) (pm_model_name b))
      else if sortBy = js ''price-low'' then price_of a \<le> price_of b
      else if sortBy = js ''price-high'' then price_of b \<le> price_of a
      else True)"

lemma price_comparison:
  assumes "priced a" and "priced b"
  shows "\<not> num_lt (Fin 0) (num_sub (getModelPrice a) (getModelPrice b)) \<longleftrightarrow> price_of a \<le> price_of b"
proof -
  obtain p q where "getModelPrice a = Fin p" "is_double p" "getModelPrice b = Fin q" "is_double q"
    using assms by (auto simp: priced_def split: jnum.splits)
  then show ?thesis
    using num_sub_sign [of p q] by (auto simp: price_of_def)
qed

lemma sort_by_True: "sort_by (\<lambda>_ _. True) xs = xs"
  by (rule sort_by_sorted) (simp add: sorted_wrt_iff_nth_less)

lemma sortModels_le:
  assumes "list_all priced models"
  shows "sortModels collate models sortBy = sort_by (model_le collate sortBy) models"
proof -
  have p: "\<And>m. m \<in> set models \<Longrightarrow> priced m" using assms by (simp add: list_all_iff)
  have "sortModels collate models sortBy =
      sort_by (\<lambda>a b. if sortBy = js ''name'' then \<not> num_lt (Fin 0) (collate (pm_model_name a) (pm_model_name b))
        else if sortBy = js ''price-low'' then \<not> num_lt (Fin 0) (num_sub (getModelPrice a) (getModelPrice b))
        else if sortBy = js ''price-high'' then \<not> num_lt (Fin 0) (num_sub (getModelPrice b) (getModelPrice a))
        else True) models"
    by (simp add: sortModels_def SORT_NAME_def SORT_PRICE_LOW_def SORT_PRICE_HIGH_def sort_by_True)
  also have "\<dots> = sort_by (model_le collate sortBy) models"
    by (rule sort_by_cong) (simp add: model_le_def price_comparison p)
  finally show ?thesis .
qed

lemma model_le_total:
  assumes "consistent collate"
  shows "model_le collate k a b \<or> model_le collate k b a"
  using assms [unfolded consistent_def, THEN conjunct1, rule_format, of "pm_model_name a" "pm_model_name b"]
  by (auto simp: model_le_def)

lemma model_le_trans:
  assumes "consistent collate" and "model_le collate k a b" and "model_le collate k b c"
  shows "model_le collate k a c"
proof (cases "k = js ''name''")
  case True
  then show ?thesis
    using assms(2,3) assms(1) [unfolded consistent_def, THEN conjunct2, rule_format,
        of "pm_model_name a" "pm_model_name b" "pm_model_name c"]
    by (simp add: model_le_def)
next
  case False
  then show ?thesis using assms(2,3) by (auto simp: model_le_def split: if_splits)
qed

text \<open>
  C16: for finite prices and a consistent comparison of names, the six filters one after
  the other and the sorting give what one test of each model in the sorted list
  gives, and the result is sorted by name or by price as chosen.
\<close>

theorem filters_equivalent:
  assumes "list_all priced models" and "consistent collate"
  shows "filterAndSortModels lower collate models f =
      filter (model_matches lower f) (sortModels collate models (fi_sortBy f)) \<and>
    sorted_wrt (model_le collate (fi_sortBy f)) (filterAndSortModels lower collate models f)"
proof -
  have "list_all priced (filter (model_matches lower f) models)"
    using assms(1) by (simp add: list_all_iff)
  then have "filterAndSortModels lower collate models f =
      sort_by (model_le collate (fi_sortBy f)) (filter (model_matches lower f) models)"
    by (simp add: filterAndSort_eq sortModels_le)
  moreover have "sorted_wrt (model_le collate (fi_sortBy f))
      (sort_by (model_le collate (fi_sortBy f)) (filter (model_matches lower f) models))"
    by (intro sorted_sort_by model_le_total [OF assms(2)]) (rule model_le_trans [OF assms(2)])
  moreover have "filter (model_matches lower f) (sort_by (model_le collate (fi_sortBy f)) models) =
      sort_by (model_le collate (fi_sortBy f)) (filter (model_matches lower f) models)"
    by (intro sort_by_filter model_le_total [OF assms(2)]) (rule model_le_trans [OF assms(2)])
  ultimately show ?thesis by (simp add: sortModels_le [OF assms(1)])
qed

definition sample_model :: "jstring \<Rightarrow> jstring option \<Rightarrow> rat \<Rightarrow> PricingModel" where
  "sample_model name tags ratio =
     \<lparr>pm_id = Fin 1, pm_model_name = name, pm_description = None, pm_icon = None, pm_vendor_id = None,
      pm_vendor_name = None, pm_vendor_icon = None, pm_vendor_description = None, pm_quota_type = Fin 0,
      pm_model_ratio = Fin ratio, pm_completion_ratio = Fin 1, pm_model_price = None, pm_cache_ratio = None,
      pm_create_cache_ratio = None, pm_image_ratio = None, pm_audio_ratio = None,
      pm_audio_completion_ratio = None, pm_enable_groups = [js ''default''], pm_tags = tags,
      pm_supported_endpoint_types = None, pm_key = None, pm_group_ratio = None, pm_billing_mode = None,
      pm_billing_expr = None, pm_pricing_version = None, pm_context_length = None,
      pm_max_output_tokens = None, pm_knowledge_cutoff = None, pm_release_date = None,
      pm_parameter_count = None, pm_input_modalities = None, pm_output_modalities = None,
      pm_capabilities = None\<rparr>"

definition sample_filters :: Filters where
  "sample_filters =
     \<lparr>fi_search = js ''GPT'', fi_vendor = FILTER_ALL, fi_group = js ''default'', fi_quotaType = QUOTA_TOKEN,
      fi_endpointType = ENDPOINT_ALL, fi_tag = FILTER_ALL, fi_sortBy = SORT_PRICE_LOW\<rparr>"

text \<open>Small letters of ASCII, and a comparison of names by their length.\<close>

definition small :: "jstring \<Rightarrow> jstring" where
  "small s = map (\<lambda>c. if 65 \<le> c \<and> c \<le> 90 then c + 32 else c) s"

definition by_length :: "jstring \<Rightarrow> jstring \<Rightarrow> jnum" where
  "by_length a b = (if length a \<le> length b then Fin 0 else Fin 1)"

lemma consistent_by_length: "consistent by_length"
  by (auto simp: consistent_def by_length_def num_lt_def)

definition sample_models :: "PricingModel list" where
  "sample_models =
     [sample_model (js ''gpt-b'') None 3, sample_model (js ''x'') None 1, sample_model (js ''gpt-a'') None 2]"

theorem filters_equivalent_witness:
  "map pm_model_name (filter (model_matches small sample_filters)
     (sortModels by_length sample_models (fi_sortBy sample_filters))) = [js ''gpt-a'', js ''gpt-b''] \<and>
   sorted_wrt (model_le by_length (fi_sortBy sample_filters))
     (filterAndSortModels small by_length sample_models sample_filters)"
proof -
  have p: "list_all priced sample_models" by code_simp
  have e: "map pm_model_name (filterAndSortModels small by_length sample_models sample_filters) =
      [js ''gpt-a'', js ''gpt-b'']"
    by code_simp
  note t = filters_equivalent [OF p consistent_by_length, of small sample_filters]
  show ?thesis
    using t [THEN conjunct2] e [unfolded t [THEN conjunct1]] by (rule conjI [rotated])
qed

subsection \<open>Tags\<close>

text \<open>The tags of a text: its longest runs without a separator.\<close>

function tag_words :: "(nat \<Rightarrow> bool) \<Rightarrow> jstring \<Rightarrow> jstring list" where
  "tag_words p s =
     (let t = dropWhile p s
      in if t = [] then [] else takeWhile (\<lambda>c. \<not> p c) t # tag_words p (dropWhile (\<lambda>c. \<not> p c) t))"
  by auto
termination
proof (relation "measure (\<lambda>(p, s). length s)")
  fix p :: "nat \<Rightarrow> bool" and s t
  assume "t = dropWhile p s" and "t \<noteq> []"
  then obtain x u where "t = x # u" and "\<not> p x" by (metis dropWhile_eq_Cons_conv list.exhaust)
  then have "length (dropWhile (\<lambda>c. \<not> p c) t) < length t"
    by (simp add: length_dropWhile_le less_Suc_eq_le)
  also have "\<dots> \<le> length s" by (simp add: \<open>t = dropWhile p s\<close> length_dropWhile_le)
  finally show "((p, dropWhile (\<lambda>c. \<not> p c) t), p, s) \<in> measure (\<lambda>(p, s). length s)" by simp
qed simp

declare tag_words.simps [simp del]

lemma tag_words_dropWhile: "tag_words p (dropWhile p s) = tag_words p s"
  by (subst (1 2) tag_words.simps) (simp add: Let_def dropWhile_dropWhile1)

lemma match_Plus_Cls:
  "\<not> p x \<Longrightarrow> match_at (Plus (Cls p)) pre (x # s) = None"
  "p x \<Longrightarrow> \<exists>pre' c. match_at (Plus (Cls p)) pre (x # s) = Some (pre', dropWhile p s, c)"
  by (simp_all add: match_at_def ms_Plus_Cls runs_def dropWhile_eq_drop)

lemma tag_words_run:
  assumes "w \<noteq> []" and "\<forall>c \<in> set w. \<not> p c" and "s \<noteq> [] \<longrightarrow> p (hd s)"
  shows "tag_words p (w @ s) = w # tag_words p s"
proof -
  have d: "dropWhile p (w @ s) = w @ s" using assms by (cases w) auto
  have t: "takeWhile (\<lambda>c. \<not> p c) (w @ s) = w" using assms by (cases s) (auto simp: takeWhile_append2)
  have r: "dropWhile (\<lambda>c. \<not> p c) (w @ s) = s" using assms by (cases s) (auto simp: dropWhile_append2)
  show ?thesis
    using assms(1) d t r by (subst tag_words.simps) (simp add: Let_def)
qed

lemma tag_words_Nil [simp]: "tag_words p [] = []"
  by (subst tag_words.simps) simp

lemma tag_words_sep: "p x \<Longrightarrow> tag_words p (x # s) = tag_words p (dropWhile p s)"
  using tag_words_dropWhile [of p "x # s"] by simp

lemma split_words:
  "length s < n \<Longrightarrow> \<forall>c \<in> set cur. \<not> p c \<Longrightarrow>
     filter nonempty (split_from n (Plus (Cls p)) pre cur s) = tag_words p (cur @ s)"
proof (induction n arbitrary: pre cur s)
  case (Suc n)
  show ?case
  proof (cases s)
    case Nil
    then show ?thesis using Suc.prems(2) tag_words_run [of cur p "[]"] by (cases "cur = []") simp_all
  next
    case (Cons x t)
    show ?thesis
    proof (cases "p x")
      case True
      obtain pre' c where m: "match_at (Plus (Cls p)) pre (x # t) = Some (pre', dropWhile p t, c)"
        using match_Plus_Cls(2) [of p x, OF True] by blast
      have l: "length (dropWhile p t) \<le> length t" by (rule length_dropWhile_le)
      have "filter nonempty (split_from n (Plus (Cls p)) pre' [] (dropWhile p t)) = tag_words p (x # t)"
        using Suc.IH [of "dropWhile p t" "[]" pre'] Suc.prems(1) l tag_words_sep [of p x t, OF True] Cons by simp
      then show ?thesis
        using tag_words_run [of cur p "x # t"] Suc.prems(2) True m l Cons
        by (cases "cur = []") simp_all
    next
      case False
      then show ?thesis
        using Suc.IH [of t "cur @ [x]" "x # pre"] Suc.prems Cons match_Plus_Cls(1) [of p x, OF False] by simp
    qed
  qed
qed simp

lemma tag_words_step:
  assumes "dropWhile p s = y # u"
  shows "tag_words p s = (y # takeWhile (\<lambda>c. \<not> p c) u) # tag_words p (dropWhile (\<lambda>c. \<not> p c) u)"
proof -
  have "\<not> p y" using assms by (metis dropWhile_eq_Cons_conv)
  then show ?thesis by (subst tag_words.simps) (simp add: Let_def assms)
qed

lemma tag_words_elem: "x \<in> set (tag_words p s) \<Longrightarrow> x \<noteq> [] \<and> (\<forall>c \<in> set x. \<not> p c)"
proof (induction p s rule: tag_words.induct)
  case (1 p s)
  show ?case
  proof (cases "dropWhile p s")
    case Nil
    then have "tag_words p s = []" by (subst tag_words.simps) simp
    then show ?thesis using "1.prems" by simp
  next
    case (Cons y u)
    have y: "\<not> p y" using Cons by (metis dropWhile_eq_Cons_conv)
    have "x = y # takeWhile (\<lambda>c. \<not> p c) u \<or> x \<in> set (tag_words p (dropWhile (\<lambda>c. \<not> p c) u))"
      using "1.prems" by (simp add: tag_words_step [OF Cons])
    then show ?thesis
    proof
      assume "x = y # takeWhile (\<lambda>c. \<not> p c) u"
      moreover have "\<forall>c \<in> set (takeWhile (\<lambda>c. \<not> p c) u). \<not> p c"
        by (intro ballI) (drule set_takeWhileD, rule conjunct2)
      ultimately show ?thesis using y by simp
    next
      assume "x \<in> set (tag_words p (dropWhile (\<lambda>c. \<not> p c) u))"
      moreover have "dropWhile (\<lambda>c. \<not> p c) (dropWhile p s) = dropWhile (\<lambda>c. \<not> p c) u"
        using Cons y by simp
      ultimately show ?thesis using "1.IH" [OF refl] by (metis Cons list.distinct(1))
    qed
  qed
qed

lemma filter_map_trim:
  "\<forall>x \<in> set xs. x \<noteq> [] \<longrightarrow> trim x = x \<Longrightarrow> filter nonempty (map trim xs) = filter nonempty xs"
proof (induction xs)
  case (Cons x xs)
  then show ?case by (cases "x = []") simp_all
qed simp

lemma parseTags_words: "parseTags (Some s) = tag_words tag_sep s"
proof -
  have w: "filter nonempty (re_split (Plus (Cls tag_sep)) s) = tag_words tag_sep s"
    using split_words [of s "Suc (length s)" "[]" tag_sep "[]"] by (simp add: re_split_def)
  have "trim x = x" if "x \<in> set (re_split (Plus (Cls tag_sep)) s)" "x \<noteq> []" for x
  proof -
    have "x \<in> set (tag_words tag_sep s)" using that w [symmetric] by simp
    from tag_words_elem [OF this] show ?thesis by (intro trim_no_ws) (auto simp: tag_sep_def)
  qed
  then have "filter nonempty (map trim (re_split (Plus (Cls tag_sep)) s)) = tag_words tag_sep s"
    using filter_map_trim [of "re_split (Plus (Cls tag_sep)) s"] w by simp
  then show ?thesis
    by (cases "s = []") (simp_all add: parseTags_def)
qed

lemma tag_set_model:
  "foldl (\<lambda>s tag. set_add s (lower tag)) s tags = foldl set_add s (map lower tags)"
  by (induction tags arbitrary: s) simp_all

lemma tag_set_models:
  "foldl (\<lambda>s model. if truthy_opt (pm_tags model)
        then foldl (\<lambda>s tag. set_add s (lower tag)) s (parseTags (pm_tags model)) else s) s models =
     foldl set_add s (concat (map (\<lambda>m. map lower (parseTags (pm_tags m))) models))"
  by (induction models arbitrary: s) (simp_all add: tag_set_model [of lower] parseTags_none)

lemma extractAllTags_eq:
  "extractAllTags lower collate models =
     sort_by (\<lambda>a b. \<not> num_lt (Fin 0) (collate a b))
       (array_from_set (concat (map (\<lambda>m. map lower (parseTags (pm_tags m))) models)))"
  by (simp add: extractAllTags_def Let_def tag_set_models array_from_set_def)

text \<open>
  The tags that the page offers are exactly those that find a model, each once, where
  the tags of a model are the longest runs of its text without a comma, semicolon,
  bar or white space.
\<close>

theorem tags_offered_exact:
  assumes "t \<noteq> FILTER_ALL"
  shows "(lower t \<in> set (extractAllTags lower collate models) \<longleftrightarrow> filterByTag lower models t \<noteq> []) \<and>
    distinct (extractAllTags lower collate models) \<and>
    set (extractAllTags lower collate models) =
      (\<Union>m \<in> set models. lower ` set (tag_words tag_sep (opt_str (pm_tags m))))"
proof -
  have w: "set (parseTags tags) = set (tag_words tag_sep (opt_str tags))" for tags
    by (cases tags) (simp_all add: parseTags_words, simp add: parseTags_def)
  have e: "set (extractAllTags lower collate models) =
      (\<Union>m \<in> set models. lower ` set (tag_words tag_sep (opt_str (pm_tags m))))"
    by (simp add: extractAllTags_eq w)
  moreover have "filterByTag lower models t \<noteq> [] \<longleftrightarrow>
      (\<exists>m \<in> set models. lower t \<in> lower ` set (tag_words tag_sep (opt_str (pm_tags m))))"
    using assms by (auto simp: filterByTag_filter FILTER_ALL_def filter_empty_conv w)
  moreover have "distinct (extractAllTags lower collate models)"
    unfolding extractAllTags_eq by (metis distinct_array_from_set mset_sort_by mset_eq_imp_distinct_iff)
  ultimately show ?thesis by simp
qed

theorem tags_offered_exact_witness:
  "js ''fast'' \<in> set (extractAllTags small by_length [sample_model (js ''a'') (Some (js ''Fast,new'')) 1]) \<and>
   map pm_model_name (filterByTag small [sample_model (js ''a'') (Some (js ''Fast,new'')) 1] (js ''FAST'')) \<noteq> []"
proof -
  let ?ms = "[sample_model (js ''a'') (Some (js ''Fast,new'')) 1]"
  have "js ''fast'' \<in> set (extractAllTags small by_length ?ms)" by code_simp
  moreover have "small (js ''FAST'') = js ''fast''" by code_simp
  moreover have n: "js ''FAST'' \<noteq> FILTER_ALL" by code_simp
  moreover note tags_offered_exact [OF n, of small by_length ?ms, THEN conjunct1]
  ultimately show ?thesis by (simp only: list.map_disc_iff simp_thms)
qed

end
