(* ===== verification/ModelMapping.thy ===== *)
theory ModelMapping
  imports JS_Object JS_Regex
begin

text \<open>
  The checks of a channel's mappings before it is saved:
  \<open>features/channels/lib/model-mapping-validation.ts\<close> (which models a mapping redirects,
  exposes or lacks) and \<open>lib/status-code-risk-guard.ts\<close> (status codes that must not be
  rewritten).  A mapping is the JSON text that the user typed.
\<close>

subsection \<open>Lists of models\<close>

definition parseModelsString :: "jstring \<Rightarrow> jstring list" where
  "parseModelsString modelsStr =
     (if modelsStr \<noteq> [] then filter nonempty (map trim (split_chr 44 modelsStr)) else [])"

definition formatModelsArray :: "jstring list \<Rightarrow> jstring" where
  "formatModelsArray models = join (js '','') (array_from_set models)"

definition normalizeModelName :: "jstring \<Rightarrow> jstring" where
  "normalizeModelName model = trim model"

subsection \<open>Model mapping\<close>

definition extractMappingSourceModels :: "jstring \<Rightarrow> jstring list" where
  "extractMappingSourceModels modelMapping =
     (let trimmed = trim modelMapping
      in if trimmed = [] then []
         else case JSON_parse trimmed of
                None \<Rightarrow> []
              | Some parsed \<Rightarrow>
                  (case plain_object parsed of
                     None \<Rightarrow> []
                   | Some ps \<Rightarrow> array_from_set (filter nonempty (map (\<lambda>(key, _). trim key) ps))))"

text \<open>A value that is no string becomes \<open>undefined\<close>, which the filter drops.\<close>

definition string_value :: "jsval \<Rightarrow> jstring option" where
  "string_value v = (case v of Str s \<Rightarrow> Some (trim s) | _ \<Rightarrow> None)"

definition extractRedirectModels :: "jstring \<Rightarrow> jstring list" where
  "extractRedirectModels modelMapping =
     (let trimmed = trim modelMapping
      in if trimmed = [] then []
         else case JSON_parse trimmed of
                None \<Rightarrow> []
              | Some parsed \<Rightarrow>
                  (case plain_object parsed of
                     None \<Rightarrow> []
                   | Some ps \<Rightarrow>
                       array_from_set (map the (filter truthy_opt (map (\<lambda>(_, v). string_value v) ps)))))"

definition hasModelConfigChanged :: "jstring list \<Rightarrow> jstring \<Rightarrow> jstring list \<Rightarrow> jstring \<Rightarrow> bool" where
  "hasModelConfigChanged currentModels currentModelMapping initialModels initialModelMapping =
     (if length initialModels = 0 \<and> initialModelMapping = [] then True
      else if length currentModels \<noteq> length initialModels then True
      else if list_ex (\<lambda>i. currentModels ! i \<noteq> initialModels ! i) [0..<length currentModels] then True
      else trim currentModelMapping \<noteq> trim initialModelMapping)"

definition findMissingModelsInMapping :: "jstring \<Rightarrow> jstring list \<Rightarrow> jstring list" where
  "findMissingModelsInMapping modelMapping currentModels =
     (if modelMapping = [] \<or> trim modelMapping = [] then []
      else case JSON_parse modelMapping of
             None \<Rightarrow> []
           | Some parsedMapping \<Rightarrow>
               (case plain_object parsedMapping of
                  None \<Rightarrow> []
                | Some ps \<Rightarrow>
                    (let modelSet = array_from_set (map normalizeModelName currentModels);
                         missingModels = filter (\<lambda>key. key \<noteq> [] \<and> key \<notin> set modelSet)
                           (map (\<lambda>(key, _). normalizeModelName key) ps)
                     in array_from_set missingModels)))"

record Validation =
  va_valid :: bool
  va_error :: "jstring option"

definition validateModelMappingJson :: "jstring \<Rightarrow> Validation" where
  "validateModelMappingJson modelMapping =
     (if modelMapping = [] \<or> trim modelMapping = [] then \<lparr>va_valid = True, va_error = None\<rparr>
      else case JSON_parse modelMapping of
             None \<Rightarrow> \<lparr>va_valid = False, va_error = Some (js ''Model mapping must be valid JSON format'')\<rparr>
           | Some parsed \<Rightarrow>
               (case plain_object parsed of
                  None \<Rightarrow> \<lparr>va_valid = False, va_error = Some (js ''Model mapping must be a valid JSON object'')\<rparr>
                | Some ps \<Rightarrow>
                    if list_ex (\<lambda>(_, v). \<not> is_string v) ps
                    then \<lparr>va_valid = False, va_error = Some (js ''Model mapping values must be strings'')\<rparr>
                    else \<lparr>va_valid = True, va_error = None\<rparr>))"

definition findExposedTargetModels :: "jstring \<Rightarrow> jstring list \<Rightarrow> jstring list" where
  "findExposedTargetModels modelMapping currentModels =
     (let redirectModels = extractRedirectModels modelMapping
      in if length redirectModels = 0 then []
         else
           (let normalizedModels = map normalizeModelName currentModels;
                modelSet = array_from_set normalizedModels
            in filter (\<lambda>model. normalizeModelName model \<in> set modelSet) redirectModels))"

record Categories =
  cat_normalizedCurrentModels :: "jstring list"
  cat_normalizedRedirectModels :: "jstring list"
  cat_classificationSet :: "jstring list"
  cat_redirectOnlySet :: "jstring list"

definition categorizeModelsWithRedirect :: "jstring list \<Rightarrow> jstring list \<Rightarrow> Categories" where
  "categorizeModelsWithRedirect currentModels redirectModels =
     (let normalizedCurrentModels = array_from_set (filter nonempty (map normalizeModelName currentModels));
          normalizedRedirectModels = array_from_set (filter nonempty (map normalizeModelName redirectModels));
          classificationSet = array_from_set (normalizedCurrentModels @ normalizedRedirectModels);
          redirectOnlySet = array_from_set
            (filter (\<lambda>m. m \<notin> set normalizedCurrentModels) normalizedRedirectModels)
      in \<lparr>cat_normalizedCurrentModels = normalizedCurrentModels,
          cat_normalizedRedirectModels = normalizedRedirectModels,
          cat_classificationSet = classificationSet,
          cat_redirectOnlySet = redirectOnlySet\<rparr>)"

subsection \<open>Status codes\<close>

definition NON_REDIRECTABLE_STATUS_CODES :: "nat list" where
  "NON_REDIRECTABLE_STATUS_CODES = [504, 524]"

text \<open>The expression \<open>/^[1-5]\d{2}$/\<close>.\<close>

definition code_re :: re where
  "code_re = Seqs [Bol, Cls (\<lambda>c. 49 \<le> c \<and> c \<le> 53), Cls is_digit, Cls is_digit, Eol]"

definition parseStatusCodeKey :: "jstring \<Rightarrow> nat option" where
  "parseStatusCodeKey rawKey =
     (let normalized = trim rawKey
      in if \<not> re_test code_re normalized then None else Some (digits_val normalized))"

definition parseStatusCodeMappingTarget :: "jsval \<Rightarrow> nat option" where
  "parseStatusCodeMappingTarget rawValue =
     (case rawValue of
        Num x \<Rightarrow>
          if is_integer x then
            (case x of
               Fin q \<Rightarrow> if 100 \<le> q \<and> q \<le> 599 then Some (nat \<lfloor>q\<rfloor>) else None
             | _ \<Rightarrow> None)
          else None
      | Str s \<Rightarrow>
          (let normalized = trim s
           in if \<not> re_test code_re normalized then None
              else
                (let code = digits_val normalized
                 in if 100 \<le> code \<and> code \<le> 599 then Some code else None))
      | _ \<Rightarrow> None)"

text \<open>The properties of the object that both collectors go through.\<close>

definition mapping_entries :: "jstring \<Rightarrow> (jstring \<times> jsval) list" where
  "mapping_entries statusCodeMappingStr =
     (if trim statusCodeMappingStr = [] then []
      else case JSON_parse statusCodeMappingStr of
             None \<Rightarrow> []
           | Some parsed \<Rightarrow> (case plain_object parsed of None \<Rightarrow> [] | Some ps \<Rightarrow> ps))"

definition collectInvalidStatusCodeEntries :: "jstring \<Rightarrow> jstring list" where
  "collectInvalidStatusCodeEntries statusCodeMappingStr =
     concat (map (\<lambda>(rawKey, rawValue).
        if parseStatusCodeKey rawKey = None \<or> parseStatusCodeMappingTarget rawValue = None
        then [rawKey @ [32, 8594, 32] @ to_str rawValue] else [])
       (mapping_entries statusCodeMappingStr))"

definition risky_text :: "nat \<Rightarrow> nat \<Rightarrow> jstring" where
  "risky_text fromCode toCode = nat_str fromCode @ js '' -> '' @ nat_str toCode"

definition risky_entry :: "jstring \<times> jsval \<Rightarrow> jstring list" where
  "risky_entry kv =
     (let (rawFrom, rawTo) = kv
      in case (parseStatusCodeKey rawFrom, parseStatusCodeMappingTarget rawTo) of
           (Some fromCode, Some toCode) \<Rightarrow>
             if fromCode \<notin> set NON_REDIRECTABLE_STATUS_CODES then []
             else if fromCode = toCode then []
             else [risky_text fromCode toCode]
         | _ \<Rightarrow> [])"

definition collectDisallowedStatusCodeRedirects :: "jstring \<Rightarrow> jstring list" where
  "collectDisallowedStatusCodeRedirects statusCodeMappingStr =
     sort_by str_le (array_from_set (concat (map risky_entry (mapping_entries statusCodeMappingStr))))"

definition collectNewDisallowedStatusCodeRedirects :: "jstring \<Rightarrow> jstring \<Rightarrow> jstring list" where
  "collectNewDisallowedStatusCodeRedirects originalStr currentStr =
     (let currentRisky = collectDisallowedStatusCodeRedirects currentStr
      in if length currentRisky = 0 then []
         else
           (let originalRiskySet = collectDisallowedStatusCodeRedirects originalStr
            in filter (\<lambda>m. m \<notin> set originalRiskySet) currentRisky))"

end
