(* ===== verification/MappingLaws.thy ===== *)
theory MappingLaws
  imports ModelMapping
begin

text \<open>
  What the checks of a channel's mappings promise: lists of models are read back, the
  proposed repairs leave nothing to repair, and the guard of status codes reports
  exactly the new rewritings of the codes that must stay.
\<close>

subsection \<open>Models\<close>

lemma split_chr_join_comma:
  "xs \<noteq> [] \<Longrightarrow> \<forall>x \<in> set xs. 44 \<notin> set x \<Longrightarrow> split_chr 44 (join [44] xs) = xs"
  by (induction xs rule: induct_list012) (simp_all add: split_chr_free split_chr_append)

lemma models_roundtrip:
  assumes "\<forall>m \<in> set mods. m \<noteq> [] \<and> 44 \<notin> set m \<and> trimmed m"
  shows "parseModelsString (formatModelsArray mods) = array_from_set mods"
proof (cases "mods = []")
  case False
  let ?u = "array_from_set mods"
  have u: "?u \<noteq> []" "\<forall>m \<in> set ?u. m \<noteq> [] \<and> 44 \<notin> set m \<and> trimmed m" using assms False by simp_all
  have s: "split_chr 44 (join [44] ?u) = ?u" using u by (intro split_chr_join_comma) simp_all
  have "map trim ?u = ?u" using u(2) by (intro map_idI trim_trimmed) simp
  moreover have "filter nonempty ?u = ?u" using u(2) by (simp add: filter_id_conv)
  moreover have "join [44] ?u \<noteq> []"
    using u join_eq_Nil [of "[44]" ?u] by (metis list.set_intros(1) not_Cons_self2)
  ultimately show ?thesis
    using s by (simp add: parseModelsString_def formatModelsArray_def js_simps)
qed (simp add: parseModelsString_def formatModelsArray_def)

definition mapping_keys :: "jstring \<Rightarrow> jstring list" where
  "mapping_keys t =
     (if trim t = [] then []
      else case JSON_parse t of
             None \<Rightarrow> []
           | Some v \<Rightarrow> (case plain_object v of None \<Rightarrow> [] | Some ps \<Rightarrow> filter nonempty (map (\<lambda>(k, _). trim k) ps)))"

lemma missing_set:
  "set (findMissingModelsInMapping t mods) = set (mapping_keys t) - trim ` set mods"
proof (cases "trim t = []")
  case True
  then show ?thesis by (simp add: findMissingModelsInMapping_def mapping_keys_def)
next
  case False
  then have "t \<noteq> []" by auto
  show ?thesis
  proof (cases "JSON_parse t")
    case (Some v)
    then show ?thesis
      using False \<open>t \<noteq> []\<close> by (cases "plain_object v")
        (auto simp: findMissingModelsInMapping_def mapping_keys_def normalizeModelName_def Let_def)
  qed (use False in \<open>simp add: findMissingModelsInMapping_def mapping_keys_def\<close>)
qed

lemma mapping_keys_trimmed: "k \<in> set (mapping_keys t) \<Longrightarrow> trim k = k"
  by (auto simp: mapping_keys_def split: option.splits if_splits)

lemma redirects_trimmed: "k \<in> set (extractRedirectModels t) \<Longrightarrow> trim k = k"
  by (auto simp: extractRedirectModels_def string_value_def Let_def truthy_opt_def
      split: option.splits if_splits jsval.splits)

lemma exposed_set:
  "set (findExposedTargetModels t mods) = set (extractRedirectModels t) \<inter> trim ` set mods"
  by (auto simp: findExposedTargetModels_def Let_def normalizeModelName_def redirects_trimmed)

text \<open>
  Adding the missing models leaves none missing, and taking the exposed targets off
  the list leaves none exposed.
\<close>

lemma mapping_repaired:
  "findMissingModelsInMapping t (mods @ findMissingModelsInMapping t mods) = []"
  "findExposedTargetModels t (filter (\<lambda>m. trim m \<notin> set (findExposedTargetModels t mods)) mods) = []"
proof -
  have "set (findMissingModelsInMapping t (mods @ findMissingModelsInMapping t mods)) = {}"
    using mapping_keys_trimmed [of _ t]
    by (auto simp: missing_set image_Un intro: rev_image_eqI)
  then show "findMissingModelsInMapping t (mods @ findMissingModelsInMapping t mods) = []" by simp
  have "set (findExposedTargetModels t (filter (\<lambda>m. trim m \<notin> set (findExposedTargetModels t mods)) mods)) = {}"
    unfolding exposed_set by auto
  then show "findExposedTargetModels t (filter (\<lambda>m. trim m \<notin> set (findExposedTargetModels t mods)) mods) = []"
    by simp
qed

lemma unchanged_config:
  "hasModelConfigChanged cur curM ini iniM \<longleftrightarrow>
     (ini = [] \<and> iniM = []) \<or> cur \<noteq> ini \<or> trim curM \<noteq> trim iniM"
proof -
  have "list_ex (\<lambda>i. cur ! i \<noteq> ini ! i) [0..<length cur] \<longleftrightarrow> cur \<noteq> ini" if "length cur = length ini"
    using nth_equalityI [OF that] by (auto simp: list_ex_iff Bex_def)
  then show ?thesis by (auto simp: hasModelConfigChanged_def)
qed

lemma categories_partition:
  "set (cat_classificationSet (categorizeModelsWithRedirect cur red)) =
     set (cat_normalizedCurrentModels (categorizeModelsWithRedirect cur red)) \<union>
     set (cat_redirectOnlySet (categorizeModelsWithRedirect cur red))"
  "set (cat_normalizedCurrentModels (categorizeModelsWithRedirect cur red)) \<inter>
     set (cat_redirectOnlySet (categorizeModelsWithRedirect cur red)) = {}"
  by (auto simp: categorizeModelsWithRedirect_def Let_def)

subsection \<open>Status codes\<close>

lemma code_re_test:
  "re_test code_re s \<longleftrightarrow>
     (\<exists>a b c. s = [a, b, c] \<and> 49 \<le> a \<and> a \<le> 53 \<and> is_digit b \<and> is_digit c)"
proof -
  have "re_test code_re s \<longleftrightarrow> ms (Grp 0 code_re) ([], s, Map.empty) \<noteq> []"
    by (simp add: re_test_def code_re_def exec_from_Bol_start match_at_def del: ms.simps split: list.splits)
  also have "\<dots> \<longleftrightarrow> (\<exists>a b c. s = [a, b, c] \<and> 49 \<le> a \<and> a \<le> 53 \<and> is_digit b \<and> is_digit c)"
    by (auto simp: code_re_def split: list.splits)
  finally show ?thesis .
qed

lemma nat_str_3:
  assumes "100 \<le> n" and "n \<le> 599"
  shows "nat_str n = [48 + n div 100, 48 + n div 10 mod 10, 48 + n mod 10]"
proof -
  have "nat_str (n div 10 div 10) = [48 + n div 100]"
    using assms by (subst nat_str.simps) (simp add: div_mult2_eq [symmetric])
  moreover have "nat_str (n div 10) = nat_str (n div 10 div 10) @ [48 + n div 10 mod 10]"
    using assms by (subst nat_str.simps) simp
  moreover have "nat_str n = nat_str (n div 10) @ [48 + n mod 10]"
    using assms by (subst nat_str.simps) simp
  ultimately show ?thesis by simp
qed

text \<open>The keys that are read are exactly the numerals of the codes from 100 to 599.\<close>

lemma parseStatusCodeKey_iff:
  "parseStatusCodeKey k = Some n \<longleftrightarrow> 100 \<le> n \<and> n \<le> 599 \<and> trim k = nat_str n"
proof
  assume "parseStatusCodeKey k = Some n"
  then obtain a b c where k: "trim k = [a, b, c]" "49 \<le> a" "a \<le> 53" "is_digit b" "is_digit c"
    and n: "n = digits_val [a, b, c]"
    by (auto simp: parseStatusCodeKey_def Let_def code_re_test split: if_splits)
  define x y z where "x = a - 48" and "y = b - 48" and "z = c - 48"
  have d: "a = 48 + x" "b = 48 + y" "c = 48 + z" "1 \<le> x" "x \<le> 5" "y < 10" "z < 10"
    using k by (auto simp: x_def y_def z_def is_digit_def)
  have v: "n = 100 * x + 10 * y + z" by (simp add: n digits_val_def d)
  have r: "100 \<le> n" "n \<le> 599" using d by (auto simp: v)
  have "n div 100 = x" and q: "n div 10 = 10 * x + y"
    using d(6,7) by (auto simp: v intro!: div_nat_eqI)
  moreover have "n mod 10 = z" using div_mult_mod_eq [of n 10] q v by linarith
  moreover have "n div 10 mod 10 = y" using d(6) by (simp add: q)
  ultimately have "n div 100 = x" "n div 10 mod 10 = y" "n mod 10 = z" by blast+
  then show "100 \<le> n \<and> n \<le> 599 \<and> trim k = nat_str n"
    using r by (simp add: nat_str_3 k d)
next
  assume n: "100 \<le> n \<and> n \<le> 599 \<and> trim k = nat_str n"
  then have "re_test code_re (nat_str n)"
    by (auto simp: code_re_test nat_str_3 is_digit_def)
  then show "parseStatusCodeKey k = Some n" using n by (simp add: parseStatusCodeKey_def)
qed

lemma risky_text_inject: "risky_text f t = risky_text g u \<longleftrightarrow> f = g \<and> t = u"
proof
  assume e: "risky_text f t = risky_text g u"
  have w: "takeWhile (\<lambda>c. c \<noteq> 32) (nat_str n @ 32 # r) = nat_str n" for n r
    using nat_str_digits [of n] by (subst takeWhile_append2) (auto simp: is_digit_def)
  have "nat_str f = nat_str g"
    using arg_cong [OF e, of "takeWhile (\<lambda>c. c \<noteq> 32)"] by (simp add: risky_text_def js_simps w)
  then show "f = g \<and> t = u" using e by (simp add: risky_text_def)
qed simp

text \<open>\<open>redirects s f t\<close>: the mapping \<open>s\<close> rewrites the protected code \<open>f\<close> to another code \<open>t\<close>.\<close>

definition redirects :: "jstring \<Rightarrow> nat \<Rightarrow> nat \<Rightarrow> bool" where
  "redirects s f t \<longleftrightarrow>
     f \<in> {504, 524} \<and> f \<noteq> t \<and>
     (\<exists>k v. (k, v) \<in> set (mapping_entries s) \<and> trim k = nat_str f \<and>
        parseStatusCodeMappingTarget v = Some t)"

lemma protected_key: "f \<in> {504, 524} \<Longrightarrow> parseStatusCodeKey k = Some f \<longleftrightarrow> trim k = nat_str f"
  by (auto simp: parseStatusCodeKey_iff)

lemma risky_entry_keys:
  "x \<in> set (risky_entry (k, v)) \<longleftrightarrow>
     (\<exists>f t. x = risky_text f t \<and> f \<in> {504, 524} \<and> f \<noteq> t \<and> parseStatusCodeKey k = Some f \<and>
        parseStatusCodeMappingTarget v = Some t)"
  by (cases "parseStatusCodeKey k"; cases "parseStatusCodeMappingTarget v")
     (auto simp: risky_entry_def NON_REDIRECTABLE_STATUS_CODES_def)

lemma risky_entry_iff:
  "x \<in> set (risky_entry (k, v)) \<longleftrightarrow>
     (\<exists>f t. x = risky_text f t \<and> f \<in> {504, 524} \<and> f \<noteq> t \<and> trim k = nat_str f \<and>
        parseStatusCodeMappingTarget v = Some t)"
  unfolding risky_entry_keys using protected_key [of _ k] by metis

lemma disallowed_iff:
  "risky_text f t \<in> set (collectDisallowedStatusCodeRedirects s) \<longleftrightarrow> redirects s f t"
proof -
  have "risky_text f t \<in> set (collectDisallowedStatusCodeRedirects s) \<longleftrightarrow>
      (\<exists>k v. (k, v) \<in> set (mapping_entries s) \<and> risky_text f t \<in> set (risky_entry (k, v)))"
    by (auto simp: collectDisallowedStatusCodeRedirects_def)
  then show ?thesis unfolding risky_entry_iff risky_text_inject redirects_def by blast
qed

lemma str_le_total: "str_le a b \<or> str_le b a"
  by (induction a b rule: str_le.induct) auto

lemma str_le_trans: "str_le a b \<Longrightarrow> str_le b c \<Longrightarrow> str_le a c"
  by (induction a b arbitrary: c rule: str_le.induct) (case_tac c; auto)+

lemma new_disallowed:
  "collectNewDisallowedStatusCodeRedirects orig cur =
     filter (\<lambda>m. m \<notin> set (collectDisallowedStatusCodeRedirects orig)) (collectDisallowedStatusCodeRedirects cur)"
  by (auto simp: collectNewDisallowedStatusCodeRedirects_def Let_def)

text \<open>
  C20: the guard of status codes asks about a rewriting of 504 or 524 exactly when the
  edited mapping has it and the stored mapping had not, whatever the two texts are,
  and names each once and in order.
\<close>

theorem redirect_guard_exact:
  "(risky_text f t \<in> set (collectNewDisallowedStatusCodeRedirects orig cur) \<longleftrightarrow>
      redirects cur f t \<and> \<not> redirects orig f t) \<and>
   distinct (collectNewDisallowedStatusCodeRedirects orig cur) \<and>
   sorted_wrt str_le (collectNewDisallowedStatusCodeRedirects orig cur)"
proof (intro conjI)
  have "distinct (collectDisallowedStatusCodeRedirects cur)"
    unfolding collectDisallowedStatusCodeRedirects_def
    by (metis distinct_array_from_set mset_sort_by mset_eq_imp_distinct_iff)
  then show "distinct (collectNewDisallowedStatusCodeRedirects orig cur)" by (simp add: new_disallowed)
  have "sorted_wrt str_le (collectDisallowedStatusCodeRedirects cur)"
    unfolding collectDisallowedStatusCodeRedirects_def
    using str_le_total str_le_trans by (rule sorted_sort_by)
  then show "sorted_wrt str_le (collectNewDisallowedStatusCodeRedirects orig cur)"
    by (simp add: new_disallowed sorted_wrt_filter)
qed (simp add: new_disallowed disallowed_iff)

text \<open>An accepted mapping has only codes: nothing invalid means that every entry is read.\<close>

lemma invalid_none:
  "collectInvalidStatusCodeEntries s = [] \<longleftrightarrow>
     (\<forall>(k, v) \<in> set (mapping_entries s). \<exists>f t. parseStatusCodeKey k = Some f \<and>
        parseStatusCodeMappingTarget v = Some t)"
  by (fastforce simp: collectInvalidStatusCodeEntries_def split: if_splits)

lemma target_in_range: "parseStatusCodeMappingTarget v = Some t \<Longrightarrow> 100 \<le> t \<and> t \<le> 599"
  by (auto simp: parseStatusCodeMappingTarget_def Let_def split: jsval.splits jnum.splits if_splits)
     (linarith+)?

end
