(* ===== verification/Notifications.thy ===== *)
theory Notifications
  imports JS_Object "HOL-Library.Word"
begin

text \<open>
  Notices and announcements of the console: \<open>stores/notification-store.ts\<close> (what was
  read) and \<open>hooks/use-notifications.ts\<close> (unread counts, the dialog that opens by
  itself, and every handler).  Responses of the server and the date of today are
  arguments; an announcement is an object whose fields are texts or absent, and
  the library that keeps the store in the browser is left out.
\<close>

unbundle bit_operations_syntax

subsection \<open>Store\<close>

record NotificationState =
  st_lastReadNotice :: jstring
  st_readAnnouncementKeys :: "jstring list"
  st_closedUntilDate :: "jstring option"

definition initial_store :: NotificationState where
  "initial_store =
     \<lparr>st_lastReadNotice = [], st_readAnnouncementKeys = [], st_closedUntilDate = None\<rparr>"

definition markNoticeRead :: "jstring \<Rightarrow> NotificationState \<Rightarrow> NotificationState" where
  "markNoticeRead noticeContent st =
     (let normalizedContent = trim noticeContent in st\<lparr>st_lastReadNotice := normalizedContent\<rparr>)"

definition markAnnouncementsRead :: "jstring list \<Rightarrow> NotificationState \<Rightarrow> NotificationState" where
  "markAnnouncementsRead keys st =
     st\<lparr>st_readAnnouncementKeys := array_from_set (st_readAnnouncementKeys st @ keys)\<rparr>"

definition setClosedUntilDate :: "jstring option \<Rightarrow> NotificationState \<Rightarrow> NotificationState" where
  "setClosedUntilDate date st = st\<lparr>st_closedUntilDate := date\<rparr>"

definition isAnnouncementRead :: "NotificationState \<Rightarrow> jstring \<Rightarrow> bool" where
  "isAnnouncementRead st key \<longleftrightarrow> key \<in> set (st_readAnnouncementKeys st)"

definition isNoticeClosed :: "jstring \<Rightarrow> NotificationState \<Rightarrow> bool" where
  "isNoticeClosed today st =
     (if \<not> truthy_opt (st_closedUntilDate st) then False else st_closedUntilDate st = Some today)"

subsection \<open>Keys of announcements\<close>

text \<open>\<open>x.toString(36)\<close> of an integer.\<close>

fun radix36 :: "nat \<Rightarrow> jstring" where
  "radix36 n =
     (let d = n mod 36; c = (if d < 10 then 48 + d else 87 + d)
      in if n < 36 then [c] else radix36 (n div 36) @ [c])"

declare radix36.simps [simp del]

definition int_str36 :: "int \<Rightarrow> jstring" where
  "int_str36 i = (if i < 0 then 45 # radix36 (nat (- i)) else radix36 (nat i))"

text \<open>
  The shift and \<open>hash |= 0\<close> keep the lower 32 bits; the sum before it stays below
  two to the power of 53, so it is exact.
\<close>

definition hash_step :: "32 word \<Rightarrow> nat \<Rightarrow> 32 word" where
  "hash_step h chr = push_bit 5 h - h + of_nat chr"

definition hashString :: "jstring \<Rightarrow> jstring" where
  "hashString input =
     (if input = [] then js ''0'' else int_str36 (sint (foldl hash_step 0 input)))"

text \<open>\<open>text_or item k\<close> is \<open>(item?.k as string) || ''\<close>.\<close>

definition text_or :: "jsval \<Rightarrow> string \<Rightarrow> jstring" where
  "text_or item k = (case get_key item (js k) of Str s \<Rightarrow> s | _ \<Rightarrow> [])"

definition fingerprint :: "jsval \<Rightarrow> jstring" where
  "fingerprint item =
     json_text (Obj
       [(js ''publishDate'', Str (text_or item ''publishDate'')),
        (js ''content'', Str (trim (text_or item ''content''))),
        (js ''extra'', Str (trim (text_or item ''extra''))),
        (js ''type'', Str (text_or item ''type'')),
        (js ''title'', Str (trim (text_or item ''title''))),
        (js ''link'', Str (trim (text_or item ''link'')))])"

definition getAnnouncementKey :: "jsval \<Rightarrow> jstring" where
  "getAnnouncementKey item =
     (if \<not> truthy item then []
      else
        (let contentHash = hashString (fingerprint item);
             ident = get_key item (js ''id'')
         in if ident \<noteq> Undef \<and> ident \<noteq> Null then js ''id:'' @ to_str ident @ js '':'' @ contentHash
            else js ''hash:'' @ contentHash))"

subsection \<open>The hook\<close>

datatype Tab = NoticeTab | AnnouncementsTab

text \<open>The response of \<open>getNotice\<close> with its fields \<open>success\<close> and \<open>data\<close>.\<close>

record NoticeResponse =
  nr_success :: bool
  nr_data :: "jstring option"

record Hook =
  hk_popoverOpen :: bool
  hk_dialogOpen :: bool
  hk_activeTab :: Tab
  hk_autoPopupHandled :: bool
  hk_noticeResponse :: "NoticeResponse option"
  hk_noticeLoading :: bool
  hk_status :: jsval
  hk_statusLoading :: bool
  hk_store :: NotificationState

definition initial_hook :: "NotificationState \<Rightarrow> Hook" where
  "initial_hook st =
     \<lparr>hk_popoverOpen = False, hk_dialogOpen = False, hk_activeTab = NoticeTab, hk_autoPopupHandled = False,
      hk_noticeResponse = None, hk_noticeLoading = True, hk_status = Null, hk_statusLoading = True,
      hk_store = st\<rparr>"

definition announcements :: "Hook \<Rightarrow> jsval list" where
  "announcements h =
     (let announcementsEnabled = get_key (hk_status h) (js ''announcements_enabled'')
      in if truthy announcementsEnabled
         then (case get_key (hk_status h) (js ''announcements'') of Arr vs \<Rightarrow> take 20 vs | _ \<Rightarrow> [])
         else [])"

definition noticeContent :: "Hook \<Rightarrow> jstring" where
  "noticeContent h =
     (case hk_noticeResponse h of
        Some r \<Rightarrow> if nr_success r then trim (opt_str (nr_data r)) else []
      | None \<Rightarrow> [])"

record UnreadCounts =
  uc_notice :: nat
  uc_announcements :: nat
  uc_total :: nat

definition unreadCounts :: "Hook \<Rightarrow> UnreadCounts" where
  "unreadCounts h =
     (let noticeUnread =
            (if noticeContent h \<noteq> [] \<and> noticeContent h \<noteq> st_lastReadNotice (hk_store h) then 1 else 0);
          announcementsUnread =
            length (filter (\<lambda>item. let key = getAnnouncementKey item in \<not> isAnnouncementRead (hk_store h) key)
              (announcements h))
      in \<lparr>uc_notice = noticeUnread, uc_announcements = announcementsUnread,
          uc_total = noticeUnread + announcementsUnread\<rparr>)"

definition set_store :: "(NotificationState \<Rightarrow> NotificationState) \<Rightarrow> Hook \<Rightarrow> Hook" where
  "set_store f h = h\<lparr>hk_store := f (hk_store h)\<rparr>"

definition markAnnouncementsAsRead :: "Hook \<Rightarrow> Hook" where
  "markAnnouncementsAsRead h =
     (if 0 < length (announcements h) then
        (let allKeys = map getAnnouncementKey (announcements h)
         in set_store (markAnnouncementsRead allKeys) h)
      else h)"

definition read_notice :: "Hook \<Rightarrow> Hook" where
  "read_notice h =
     (if noticeContent h \<noteq> [] then set_store (markNoticeRead (noticeContent h)) h else h)"

definition markAllAsRead :: "Hook \<Rightarrow> Hook" where
  "markAllAsRead h = markAnnouncementsAsRead (read_notice h)"

definition popup_effect :: "jstring \<Rightarrow> Hook \<Rightarrow> Hook" where
  "popup_effect today h =
     (if hk_autoPopupHandled h \<or> hk_noticeLoading h \<or> hk_statusLoading h \<or>
         uc_total (unreadCounts h) = 0 \<or> isNoticeClosed today (hk_store h)
      then h
      else h\<lparr>hk_autoPopupHandled := True,
             hk_activeTab := (if 0 < uc_announcements (unreadCounts h) then AnnouncementsTab else NoticeTab),
             hk_dialogOpen := True\<rparr>)"

definition handleOpenPopover :: "Tab option \<Rightarrow> Hook \<Rightarrow> Hook" where
  "handleOpenPopover tab h =
     (let nextTab = (case tab of Some t \<Rightarrow> t | None \<Rightarrow> hk_activeTab h);
          h = read_notice h;
          h = (if nextTab = AnnouncementsTab then markAnnouncementsAsRead h else h)
      in h\<lparr>hk_activeTab := nextTab, hk_popoverOpen := True\<rparr>)"

definition handlePopoverOpenChange :: "bool \<Rightarrow> Hook \<Rightarrow> Hook" where
  "handlePopoverOpenChange opn h =
     (if opn then handleOpenPopover (Some (hk_activeTab h)) h else h\<lparr>hk_popoverOpen := False\<rparr>)"

definition handleDialogOpenChange :: "bool \<Rightarrow> Hook \<Rightarrow> Hook" where
  "handleDialogOpenChange opn h =
     (let h = (if \<not> opn then markAllAsRead h else h) in h\<lparr>hk_dialogOpen := opn\<rparr>)"

definition handleCloseToday :: "jstring \<Rightarrow> Hook \<Rightarrow> Hook" where
  "handleCloseToday today h =
     (set_store (setClosedUntilDate (Some today)) h)\<lparr>hk_dialogOpen := False\<rparr>"

definition handleTabChange :: "Tab \<Rightarrow> Hook \<Rightarrow> Hook" where
  "handleTabChange tab h =
     (let h = h\<lparr>hk_activeTab := tab\<rparr>
      in if tab = AnnouncementsTab then markAnnouncementsAsRead h else h)"

definition closePopover :: "Hook \<Rightarrow> Hook" where
  "closePopover h = h\<lparr>hk_popoverOpen := False\<rparr>"

end
