(* ===== verification/Channels.thy ===== *)
theory Channels
  imports JS_Object
begin

text \<open>
  Channels in the console: the schema of \<open>features/channels/types.ts\<close>, the tables of
  \<open>constants.ts\<close> that the code reads, and \<open>lib/channel-utils.ts\<close>, that is labels and
  badges, keys, lists, checks and the rows of the table by tag.  The formats of
  currencies, dates and response times are left out.  Absent, \<open>undefined\<close> and \<open>null\<close>
  are one value in an optional field; \<open>collate\<close> stands for \<open>localeCompare\<close>.
\<close>

subsection \<open>Schema\<close>

datatype MultiKeyMode = RandomMode | PollingMode

record ChannelInfo =
  ci_is_multi_key :: bool
  ci_multi_key_size :: jnum
  ci_multi_key_status_list :: "(jstring \<times> jnum) list option"
  ci_multi_key_disabled_reason :: "(jstring \<times> jstring) list option"
  ci_multi_key_disabled_time :: "(jstring \<times> jnum) list option"
  ci_multi_key_polling_index :: jnum
  ci_multi_key_mode :: MultiKeyMode

text \<open>
  The id of a channel is a number; the rows by tag put their tag there.  Their status
  is \<open>undefined\<close> until a channel is added.
\<close>

record Channel =
  ch_id :: jsval
  ch_type :: jnum
  ch_key :: jstring
  ch_openai_organization :: "jstring option"
  ch_test_model :: "jstring option"
  ch_status :: "jnum option"
  ch_name :: jstring
  ch_weight :: "jnum option"
  ch_created_time :: jnum
  ch_test_time :: jnum
  ch_response_time :: jnum
  ch_base_url :: "jstring option"
  ch_other :: jstring
  ch_balance :: jnum
  ch_balance_updated_time :: jnum
  ch_models :: jstring
  ch_group :: jstring
  ch_used_quota :: jnum
  ch_model_mapping :: "jstring option"
  ch_status_code_mapping :: "jstring option"
  ch_priority :: "jnum option"
  ch_auto_ban :: "jnum option"
  ch_other_info :: jstring
  ch_tag :: "jstring option"
  ch_setting :: "jstring option"
  ch_param_override :: "jstring option"
  ch_header_override :: "jstring option"
  ch_remark :: jstring
  ch_max_input_tokens :: jnum
  ch_channel_info :: ChannelInfo
  ch_settings :: jstring

subsection \<open>Tables\<close>

text \<open>\<open>num_lookup tbl x\<close> is \<open>tbl[x]\<close> for a table whose keys are natural numbers.\<close>

definition num_lookup :: "(nat \<times> 'v) list \<Rightarrow> jnum \<Rightarrow> 'v option" where
  "num_lookup tbl x =
     (case x of
        Fin q \<Rightarrow> if 0 \<le> q \<and> q = of_int \<lfloor>q\<rfloor> then map_of tbl (nat \<lfloor>q\<rfloor>) else None
      | _ \<Rightarrow> None)"

definition CHANNEL_TYPES :: "(nat \<times> jstring) list" where
  "CHANNEL_TYPES =
     [(0, js ''Unknown''), (1, js ''OpenAI''), (2, js ''Midjourney''),
      (3, js ''Azure''), (4, js ''Ollama''), (5, js ''MidjourneyPlus''),
      (6, js ''OpenAIMax''), (7, js ''OhMyGPT''), (8, js ''Custom''),
      (9, js ''AILS''), (10, js ''AI Proxy''), (11, js ''PaLM''),
      (12, js ''API2GPT''), (13, js ''AIGC2D''), (14, js ''Anthropic''),
      (15, js ''Baidu''), (16, js ''Zhipu''), (17, js ''Ali''),
      (18, js ''Xunfei''), (19, js ''360''), (20, js ''OpenRouter''),
      (21, js ''AI Proxy Library''), (22, js ''FastGPT''), (23, js ''Tencent''),
      (24, js ''Gemini''), (25, js ''Moonshot''), (26, js ''Zhipu V4''),
      (27, js ''Perplexity''), (31, js ''LingYiWanWu''), (33, js ''AWS''),
      (34, js ''Cohere''), (35, js ''MiniMax''), (36, js ''SunoAPI''),
      (37, js ''Dify''), (38, js ''Jina''), (39, js ''Cloudflare''),
      (40, js ''SiliconFlow''), (41, js ''Vertex AI''), (42, js ''Mistral''),
      (43, js ''DeepSeek''), (44, js ''MokaAI''), (45, js ''VolcEngine''),
      (46, js ''Baidu V2''), (47, js ''Xinference''), (48, js ''xAI''),
      (49, js ''Coze''), (50, js ''Kling''), (51, js ''Jimeng''),
      (52, js ''Vidu''), (53, js ''Submodel''), (54, js ''DoubaoVideo''),
      (55, js ''Sora''), (56, js ''Replicate''), (57, js ''ChatGPT Subscription (Codex)'')]"

definition CHANNEL_TYPE_DISPLAY_ORDER :: "nat list" where
  "CHANNEL_TYPE_DISPLAY_ORDER =
     [1, 14, 33, 24, 43, 3, 41, 48, 42, 34, 20, 4, 40, 27, 25, 17, 26, 15, 46, 23,
      18, 45, 31, 35, 49, 19, 47, 37, 38, 39, 11, 8, 57, 22, 21, 44, 2, 5, 36, 50,
      51, 52, 53, 54, 55, 56]"

definition CHANNEL_TYPE_OPTIONS :: "(nat \<times> jstring) list" where
  "CHANNEL_TYPE_OPTIONS =
     (let (ordered, seen) =
            foldl (\<lambda>(ordered, seen) i.
                case map_of CHANNEL_TYPES i of
                  Some label \<Rightarrow>
                    if label \<noteq> [] then (ordered @ [(i, label)], set_add seen i) else (ordered, seen)
                | None \<Rightarrow> (ordered, seen))
              ([], []) CHANNEL_TYPE_DISPLAY_ORDER
      in foldl (\<lambda>ordered (i, label).
            if i \<noteq> 0 \<and> i \<notin> set seen then ordered @ [(i, label)] else ordered)
           ordered CHANNEL_TYPES)"

definition UNKNOWN :: nat where
  "UNKNOWN = 0"

definition ENABLED :: nat where
  "ENABLED = 1"

definition MANUAL_DISABLED :: nat where
  "MANUAL_DISABLED = 2"

definition AUTO_DISABLED :: nat where
  "AUTO_DISABLED = 3"

record Badge =
  bd_variant :: jstring
  bd_label :: jstring

definition badge :: "string \<Rightarrow> string \<Rightarrow> Badge" where
  "badge v l = \<lparr>bd_variant = js v, bd_label = js l\<rparr>"

definition CHANNEL_STATUS_CONFIG :: "(nat \<times> Badge) list" where
  "CHANNEL_STATUS_CONFIG =
     [(UNKNOWN, badge ''neutral'' ''Unknown''),
      (ENABLED, badge ''success'' ''Enabled''),
      (MANUAL_DISABLED, badge ''danger'' ''Disabled''),
      (AUTO_DISABLED, badge ''warning'' ''Auto Disabled'')]"

definition MULTI_KEY_STATUS_CONFIG :: "(nat \<times> Badge) list" where
  "MULTI_KEY_STATUS_CONFIG =
     [(1, badge ''success'' ''Enabled''),
      (2, badge ''neutral'' ''Manual Disabled''),
      (3, badge ''danger'' ''Auto Disabled'')]"

text \<open>The upper bounds in milliseconds of excellent, good, fair and poor times.\<close>

definition RESPONSE_TIME_THRESHOLDS :: "rat \<times> rat \<times> rat \<times> rat" where
  "RESPONSE_TIME_THRESHOLDS = (500, 1000, 2000, 5000)"

datatype Rating = Excellent | Good | Fair | Poor | NotTested

definition RESPONSE_TIME_CONFIG :: "Rating \<Rightarrow> Badge" where
  "RESPONSE_TIME_CONFIG r =
     (case r of
        Excellent \<Rightarrow> badge ''success'' ''Excellent''
      | Good \<Rightarrow> badge ''info'' ''Good''
      | Fair \<Rightarrow> badge ''warning'' ''Fair''
      | Poor \<Rightarrow> badge ''danger'' ''Poor''
      | NotTested \<Rightarrow> badge ''neutral'' ''Not tested'')"

definition TYPE_TO_KEY_PROMPT :: "(nat \<times> jstring) list" where
  "TYPE_TO_KEY_PROMPT =
     [(15, js ''Format: APIKey|SecretKey''),
      (18, js ''Format: APPID|APISecret|APIKey''),
      (22, js ''Format: APIKey-AppId, e.g., fastgpt-0sp2gtvfdgyi4k30jwlgwf1i-64f335d84283f05518e9e041''),
      (23, js ''Format: AppId|SecretId|SecretKey''),
      (33, js ''Format: Ak|Sk|Region''),
      (50, js ''Format: AccessKey|SecretKey (or just ApiKey if upstream is New API)''),
      (51, js ''Format: Access Key ID|Secret Access Key''),
      (57, js ''Paste Codex OAuth JSON credential (access_token / refresh_token / account_id)'')]"

subsection \<open>Labels and badges\<close>

definition getChannelTypeLabel :: "jnum \<Rightarrow> jstring" where
  "getChannelTypeLabel typ = or_str (opt_str (num_lookup CHANNEL_TYPES typ)) (js ''Unknown'')"

definition TYPE_TO_ICON :: "(nat \<times> jstring) list" where
  "TYPE_TO_ICON =
     [(1, js ''OpenAI''), (6, js ''OpenAI''), (7, js ''OpenAI''),
      (8, js ''OpenAI''), (3, js ''Azure''), (14, js ''Claude''),
      (24, js ''Gemini''), (11, js ''Google''), (41, js ''Gemini''),
      (33, js ''Aws''), (39, js ''Cloudflare''), (15, js ''Baidu''),
      (46, js ''Baidu''), (16, js ''Zhipu''), (26, js ''Zhipu''),
      (17, js ''Qwen''), (18, js ''Spark''), (23, js ''Hunyuan''),
      (19, js ''Ai360''), (25, js ''Moonshot''), (31, js ''Yi''),
      (35, js ''Minimax''), (45, js ''Volcengine''), (4, js ''Ollama''),
      (27, js ''Perplexity''), (34, js ''Cohere''), (42, js ''Mistral''),
      (43, js ''DeepSeek''), (48, js ''XAI''), (49, js ''Coze''),
      (40, js ''SiliconCloud''), (44, js ''OpenAI''), (20, js ''OpenRouter''),
      (2, js ''Midjourney''), (5, js ''Midjourney''), (50, js ''Kling''),
      (51, js ''Jimeng''), (52, js ''Vidu''), (36, js ''Suno''),
      (55, js ''OpenAI''), (54, js ''Doubao''), (56, js ''Replicate''),
      (37, js ''Dify''), (38, js ''Jina''), (22, js ''FastGPT''),
      (47, js ''Xinference''), (53, js ''OpenAI''), (10, js ''OpenAI''),
      (21, js ''OpenAI''), (12, js ''OpenAI''), (13, js ''OpenAI''),
      (9, js ''OpenAI'')]"

definition getChannelTypeIcon :: "jnum \<Rightarrow> jstring" where
  "getChannelTypeIcon typ = or_str (opt_str (num_lookup TYPE_TO_ICON typ)) (js ''OpenAI'')"

definition getChannelStatusBadge :: "jnum \<Rightarrow> Badge" where
  "getChannelStatusBadge status =
     (case num_lookup CHANNEL_STATUS_CONFIG status of
        Some b \<Rightarrow> b
      | None \<Rightarrow> the (map_of CHANNEL_STATUS_CONFIG 0))"

definition getMultiKeyStatusBadge :: "jnum \<Rightarrow> Badge" where
  "getMultiKeyStatusBadge status =
     (case num_lookup MULTI_KEY_STATUS_CONFIG status of
        Some b \<Rightarrow> b
      | None \<Rightarrow> the (map_of MULTI_KEY_STATUS_CONFIG 1))"

definition isChannelEnabled :: "Channel \<Rightarrow> bool" where
  "isChannelEnabled channel \<longleftrightarrow> ch_status channel = Some (Fin 1)"

definition isMultiKeyChannel :: "Channel \<Rightarrow> bool" where
  "isMultiKeyChannel channel = ci_is_multi_key (ch_channel_info channel)"

subsection \<open>Keys\<close>

text \<open>\<open>slice_last n s\<close> is \<open>s.slice(-n)\<close>.\<close>

definition slice_last :: "nat \<Rightarrow> jstring \<Rightarrow> jstring" where
  "slice_last n s = drop (length s - n) s"

definition key_lines :: "jstring \<Rightarrow> jstring list" where
  "key_lines key = filter (\<lambda>k. trim k \<noteq> []) (split_chr 10 key)"

definition formatChannelKey :: "jstring \<Rightarrow> bool \<Rightarrow> jstring" where
  "formatChannelKey key isMultiKey =
     (if key = [] then []
      else if isMultiKey then nat_str (length (key_lines key)) @ js '' keys''
      else if length key \<le> 16 then take 4 key @ js ''...'' @ slice_last 4 key
      else take 8 key @ js ''...'' @ slice_last 8 key)"

definition formatKeyPreview :: "jstring \<Rightarrow> nat \<Rightarrow> jstring" where
  "formatKeyPreview key maxLength =
     (if key = [] then []
      else if length key \<le> maxLength then key
      else take maxLength key @ js ''...'')"

definition countKeys :: "jstring \<Rightarrow> nat" where
  "countKeys key = (if key = [] then 0 else length (key_lines key))"

subsection \<open>Lists and settings\<close>

definition parseModelsList :: "jstring \<Rightarrow> jstring list" where
  "parseModelsList models =
     (if models = [] then [] else filter (\<lambda>m. 0 < length m) (map trim (split_chr 44 models)))"

text \<open>The comparison puts \<open>default\<close> first.\<close>

definition group_le :: "(jstring \<Rightarrow> jstring \<Rightarrow> jnum) \<Rightarrow> jstring \<Rightarrow> jstring \<Rightarrow> bool" where
  "group_le collate a b =
     (if a = js ''default'' then True
      else if b = js ''default'' then False
      else \<not> num_lt (Fin 0) (collate a b))"

definition parseGroupsList :: "(jstring \<Rightarrow> jstring \<Rightarrow> jnum) \<Rightarrow> jstring \<Rightarrow> jstring list" where
  "parseGroupsList collate grps =
     (if grps = [] then []
      else sort_by (group_le collate) (filter (\<lambda>g. 0 < length g) (map trim (split_chr 44 grps))))"

definition formatModelsString :: "jstring list \<Rightarrow> jstring" where
  "formatModelsString models = join (js '','') models"

definition formatGroupsString :: "jstring list \<Rightarrow> jstring" where
  "formatGroupsString grps = join (js '','') grps"

definition parseChannelSettings :: "jstring option \<Rightarrow> jsval" where
  "parseChannelSettings settingStr =
     (if \<not> truthy_opt settingStr then Obj []
      else case JSON_parse (opt_str settingStr) of Some v \<Rightarrow> v | None \<Rightarrow> Obj [])"

definition parseChannelOtherSettings :: "jstring option \<Rightarrow> jsval" where
  "parseChannelOtherSettings settingsStr =
     (if \<not> truthy_opt settingsStr \<or> settingsStr = Some (js ''{}'') then Obj []
      else case JSON_parse (opt_str settingsStr) of Some v \<Rightarrow> v | None \<Rightarrow> Obj [])"

definition validateChannelSettings :: "jstring \<Rightarrow> bool" where
  "validateChannelSettings settings =
     (if settings = [] \<or> trim settings = [] then True
      else case JSON_parse settings of Some _ \<Rightarrow> True | None \<Rightarrow> False)"

definition getBalanceVariant :: "jnum \<Rightarrow> jstring" where
  "getBalanceVariant balance =
     (if num_eq balance (Fin 0) then js ''neutral''
      else if num_lt balance (Fin 1) then js ''danger''
      else if num_lt balance (Fin 10) then js ''warning''
      else js ''success'')"

definition getResponseTimeConfig :: "jnum \<Rightarrow> Badge" where
  "getResponseTimeConfig timeMs =
     (let (excellent, good, fair, poor) = RESPONSE_TIME_THRESHOLDS
      in if num_eq timeMs (Fin 0) then RESPONSE_TIME_CONFIG NotTested
         else if num_le timeMs (Fin excellent) then RESPONSE_TIME_CONFIG Excellent
         else if num_le timeMs (Fin good) then RESPONSE_TIME_CONFIG Good
         else if num_le timeMs (Fin fair) then RESPONSE_TIME_CONFIG Fair
         else if num_le timeMs (Fin poor) then RESPONSE_TIME_CONFIG Poor
         else RESPONSE_TIME_CONFIG Poor)"

definition getPriorityDisplay :: "jnum option \<Rightarrow> jstring" where
  "getPriorityDisplay priority = (case priority of None \<Rightarrow> js ''0'' | Some p \<Rightarrow> num_str p)"

definition getWeightDisplay :: "jnum option \<Rightarrow> jstring" where
  "getWeightDisplay weight = (case weight of None \<Rightarrow> js ''0'' | Some w \<Rightarrow> num_str w)"

subsection \<open>Checks\<close>

definition validateChannelName :: "jstring \<Rightarrow> bool" where
  "validateChannelName name \<longleftrightarrow> 0 < length (trim name)"

definition validateApiKey :: "jstring \<Rightarrow> bool" where
  "validateApiKey key \<longleftrightarrow> 0 < length (trim key)"

definition validateModels :: "jstring \<Rightarrow> bool" where
  "validateModels models \<longleftrightarrow> 0 < length (parseModelsList models)"

definition validateGroups :: "(jstring \<Rightarrow> jstring \<Rightarrow> jnum) \<Rightarrow> jstring \<Rightarrow> bool" where
  "validateGroups collate grps \<longleftrightarrow> 0 < length (parseGroupsList collate grps)"

definition keys_disabled :: "Channel \<Rightarrow> bool" where
  "keys_disabled channel \<longleftrightarrow>
     (let info = ch_channel_info channel
      in ci_is_multi_key info \<and>
         (case ci_multi_key_status_list info of
            None \<Rightarrow> False
          | Some l \<Rightarrow> num_le (ci_multi_key_size info) (num_int (int (length l)))))"

definition channelNeedsAttention :: "Channel \<Rightarrow> bool" where
  "channelNeedsAttention channel =
     (if ch_status channel = Some (Fin 3) then True
      else if num_lt (Fin 0) (ch_balance channel) \<and> num_lt (ch_balance channel) (Fin 1) then True
      else if keys_disabled channel then True
      else False)"

definition getAttentionReason :: "Channel \<Rightarrow> jstring option" where
  "getAttentionReason channel =
     (if ch_status channel = Some (Fin 3) then Some (js ''Auto-disabled'')
      else if num_lt (Fin 0) (ch_balance channel) \<and> num_lt (ch_balance channel) (Fin 1)
      then Some (js ''Low balance'')
      else if keys_disabled channel then Some (js ''All keys disabled'')
      else None)"

subsection \<open>Rows by tag\<close>

record TagRow = Channel +
  tr_children :: "Channel list"

definition num_div :: "jnum \<Rightarrow> jnum \<Rightarrow> jnum" where
  "num_div x y =
     (case (x, y) of
        (NaN, _) \<Rightarrow> NaN
      | (_, NaN) \<Rightarrow> NaN
      | (Fin a, Fin b) \<Rightarrow>
          if b \<noteq> 0 then fl (a / b) else if 0 < a then PInf else if a < 0 then NInf else NaN
      | (Fin _, _) \<Rightarrow> Fin 0
      | (_, Fin b) \<Rightarrow> if (x = PInf) = (0 \<le> b) then PInf else NInf
      | _ \<Rightarrow> NaN)"

definition new_tag_row :: "Channel \<Rightarrow> jstring \<Rightarrow> TagRow" where
  "new_tag_row channel tag =
     Channel.extend
       (channel\<lparr>ch_key := tag, ch_id := Str tag, ch_tag := Some tag, ch_name := tag, ch_type := Fin 0,
         ch_status := None, ch_group := [], ch_used_quota := Fin 0, ch_response_time := Fin 0,
         ch_priority := Some (Fin (- 1)), ch_weight := Some (Fin (- 1)), ch_balance := Fin 0,
         ch_test_time := Fin 0, ch_created_time := Fin 0, ch_balance_updated_time := Fin 0,
         ch_models := []\<rparr>)
       (TagRow.fields [])"

text \<open>The value that all rows share, \<open>null\<close> if they differ; \<open>-1\<close> stands for no value yet.\<close>

definition same_or_null :: "jnum option \<Rightarrow> jnum option \<Rightarrow> jnum option" where
  "same_or_null cur v =
     (if cur = Some (Fin (- 1)) then v else if cur \<noteq> v then None else cur)"

definition merge_groups :: "jstring \<Rightarrow> jstring \<Rightarrow> jstring" where
  "merge_groups cur grp =
     (if cur = [] then grp
      else
        (let existingGroups = array_from_set (filter nonempty (split_chr 44 cur));
             newGroups = filter nonempty (split_chr 44 grp)
         in foldl (\<lambda>cur g. if g \<notin> set existingGroups then cur @ js '','' @ g else cur) cur newGroups))"

definition merge_status :: "jnum option \<Rightarrow> jnum option \<Rightarrow> jnum option" where
  "merge_status cur status =
     (if status = Some (Fin 1) then Some (Fin 1) else if cur = None then status else cur)"

definition add_to_row :: "TagRow \<Rightarrow> Channel \<Rightarrow> TagRow" where
  "add_to_row tagRow channel =
     (let children = tr_children tagRow @ [channel];
          childCount = length children
      in tagRow\<lparr>tr_children := children,
           ch_used_quota := num_add (ch_used_quota tagRow) (ch_used_quota channel),
           ch_response_time :=
             num_div (num_add (num_mul (ch_response_time tagRow) (num_int (int childCount - 1)))
               (ch_response_time channel)) (num_int (int childCount)),
           ch_priority := same_or_null (ch_priority tagRow) (ch_priority channel),
           ch_weight := same_or_null (ch_weight tagRow) (ch_weight channel),
           ch_group := merge_groups (ch_group tagRow) (ch_group channel),
           ch_status := merge_status (ch_status tagRow) (ch_status channel)\<rparr>)"

text \<open>
  The map and the list of results hold the same row objects in the same order, so
  one list of tags with their rows stands for both.
\<close>

fun update_row :: "jstring \<Rightarrow> (TagRow \<Rightarrow> TagRow) \<Rightarrow> (jstring \<times> TagRow) list \<Rightarrow> (jstring \<times> TagRow) list" where
  "update_row tag f [] = []"
| "update_row tag f ((t, row) # rows) =
     (if t = tag then (t, f row) # rows else (t, row) # update_row tag f rows)"

definition add_channel :: "(jstring \<times> TagRow) list \<Rightarrow> Channel \<Rightarrow> (jstring \<times> TagRow) list" where
  "add_channel tagMap channel =
     (let tag = opt_str (ch_tag channel);
          tagMap = (if tag \<notin> set (map fst tagMap) then tagMap @ [(tag, new_tag_row channel tag)] else tagMap)
      in update_row tag (\<lambda>row. add_to_row row channel) tagMap)"

definition aggregateChannelsByTag :: "Channel list \<Rightarrow> TagRow list" where
  "aggregateChannelsByTag channels = map snd (foldl add_channel [] channels)"

subsection \<open>Key management\<close>

record Deduplicated =
  dd_deduplicatedText :: jstring
  dd_beforeCount :: int
  dd_afterCount :: int
  dd_removedCount :: int

definition dedup_line :: "jstring list \<times> jstring list \<Rightarrow> jstring \<Rightarrow> jstring list \<times> jstring list" where
  "dedup_line acc line =
     (let (keySet, deduplicatedKeys) = acc;
          trimmedLine = trim line
      in if trimmedLine \<noteq> [] \<and> trimmedLine \<notin> set keySet
         then (set_add keySet trimmedLine, deduplicatedKeys @ [trimmedLine])
         else (keySet, deduplicatedKeys))"

definition deduplicateKeys :: "jstring \<Rightarrow> Deduplicated" where
  "deduplicateKeys keysText =
     (if keysText = [] \<or> trim keysText = [] then
        \<lparr>dd_deduplicatedText = [], dd_beforeCount = 0, dd_afterCount = 0, dd_removedCount = 0\<rparr>
      else
        (let keyLines = split_chr 10 keysText;
             beforeCount = int (length keyLines);
             deduplicatedKeys = snd (foldl dedup_line ([], []) keyLines);
             afterCount = int (length deduplicatedKeys)
         in \<lparr>dd_deduplicatedText = join [10] deduplicatedKeys, dd_beforeCount = beforeCount,
             dd_afterCount = afterCount, dd_removedCount = beforeCount - afterCount\<rparr>))"

definition getKeyPromptForType :: "jnum \<Rightarrow> jstring" where
  "getKeyPromptForType typ =
     or_str (opt_str (num_lookup TYPE_TO_KEY_PROMPT typ)) (js ''Enter API key for this channel'')"

end
