(* ===== verification/ChannelLaws.thy ===== *)
theory ChannelLaws
  imports Channels
begin

text \<open>
  The table of channels by tag: adding the channels one by one to shared rows gives one
  row for each tag that summarises the channels of that tag.  Further laws on keys,
  lists and tables.
\<close>

subsection \<open>Rows by tag\<close>

definition tag_of :: "Channel \<Rightarrow> jstring" where
  "tag_of c = opt_str (ch_tag c)"

definition of_tag :: "jstring \<Rightarrow> Channel list \<Rightarrow> Channel list" where
  "of_tag t cs = filter (\<lambda>c. tag_of c = t) cs"

definition tag_row :: "jstring \<Rightarrow> Channel list \<Rightarrow> TagRow" where
  "tag_row t cs = foldl add_to_row (new_tag_row (hd cs) t) cs"

lemma tag_row_snoc: "cs \<noteq> [] \<Longrightarrow> tag_row t (cs @ [c]) = add_to_row (tag_row t cs) c"
  by (simp add: tag_row_def)

lemma update_row_map:
  "distinct ts \<Longrightarrow> t \<in> set ts \<Longrightarrow>
     update_row t f (map (\<lambda>t. (t, r t)) ts) = map (\<lambda>u. (u, if u = t then f (r u) else r u)) ts"
  by (induction ts) auto

lemma update_row_append: "t \<notin> set (map fst rows) \<Longrightarrow> update_row t f (rows @ [(t, r)]) = rows @ [(t, f r)]"
  by (induction t f rows rule: update_row.induct) auto

lemma array_from_set_snoc: "array_from_set (xs @ [x]) = set_add (array_from_set xs) x"
  by (simp add: array_from_set_def)

lemma of_tag_snoc: "of_tag t (cs @ [c]) = of_tag t cs @ (if tag_of c = t then [c] else [])"
  by (simp add: of_tag_def)

lemma of_tag_Nil: "of_tag t cs = [] \<longleftrightarrow> t \<notin> tag_of ` set cs"
  by (auto simp: of_tag_def filter_empty_conv)

lemma add_channels:
  "foldl add_channel [] cs = map (\<lambda>t. (t, tag_row t (of_tag t cs))) (array_from_set (map tag_of cs))"
proof (induction cs rule: rev_induct)
  case (snoc c cs)
  let ?ts = "array_from_set (map tag_of cs)" and ?t = "tag_of c"
  let ?rows = "map (\<lambda>t. (t, tag_row t (of_tag t cs))) ?ts"
  have f: "map fst ?rows = ?ts" by (simp add: comp_def)
  show ?case
  proof (cases "?t \<in> set ?ts")
    case True
    then have n: "of_tag ?t cs \<noteq> []" by (simp add: of_tag_Nil)
    have "add_channel ?rows c = update_row ?t (\<lambda>row. add_to_row row c) ?rows"
      using True f by (simp add: add_channel_def Let_def tag_of_def [symmetric] del: map_map)
    also have "\<dots> = map (\<lambda>t. (t, tag_row t (of_tag t (cs @ [c])))) ?ts"
      unfolding update_row_map [OF distinct_array_from_set True]
      using tag_row_snoc [OF n] by (auto simp: of_tag_snoc)
    finally show ?thesis using snoc True by (simp add: array_from_set_snoc set_add_def)
  next
    case False
    then have n: "of_tag ?t cs = []" by (simp add: of_tag_Nil)
    have "add_channel ?rows c = ?rows @ [(?t, add_to_row (new_tag_row c ?t) c)]"
      using False f update_row_append [of ?t ?rows] by (simp add: add_channel_def Let_def tag_of_def [symmetric] del: map_map)
    also have "\<dots> = map (\<lambda>t. (t, tag_row t (of_tag t (cs @ [c])))) (?ts @ [?t])"
      using False n by (auto simp: of_tag_snoc tag_row_def)
    finally show ?thesis using snoc False by (simp add: array_from_set_snoc set_add_def)
  qed
qed simp

lemma aggregate_rows:
  "aggregateChannelsByTag cs = map (\<lambda>t. tag_row t (of_tag t cs)) (array_from_set (map tag_of cs))"
  by (simp add: aggregateChannelsByTag_def add_channels comp_def)

lemma row_children: "tr_children (foldl add_to_row row cs) = tr_children row @ cs"
  by (induction cs arbitrary: row) (simp_all add: add_to_row_def Let_def)

lemma tag_row_children: "tr_children (tag_row t cs) = cs"
  by (simp add: tag_row_def row_children new_tag_row_def Channel.defs TagRow.defs)

lemma row_enabled:
  "ch_status (foldl add_to_row row cs) = Some (Fin 1) \<longleftrightarrow>
     ch_status row = Some (Fin 1) \<or> (\<exists>c \<in> set cs. isChannelEnabled c)"
  by (induction cs arbitrary: row)
     (auto simp: add_to_row_def Let_def merge_status_def isChannelEnabled_def split: if_splits)

lemma tag_row_enabled: "ch_status (tag_row t cs) = Some (Fin 1) \<longleftrightarrow> (\<exists>c \<in> set cs. isChannelEnabled c)"
  by (auto simp: tag_row_def row_enabled new_tag_row_def Channel.defs)

lemma row_quota: "ch_used_quota (foldl add_to_row row cs) = foldl num_add (ch_used_quota row) (map ch_used_quota cs)"
  by (induction cs arbitrary: row) (simp_all add: add_to_row_def Let_def)

lemma concat_one_tag:
  "distinct ts \<Longrightarrow> x \<in> set ts \<Longrightarrow>
     mset (concat (map (\<lambda>t. (if x = t then [c] else []) @ g t) ts)) = add_mset c (mset (concat (map g ts)))"
proof (induction ts)
  case (Cons u ts)
  have "concat (map (\<lambda>t. (if x = t then [c] else []) @ g t) ts) = concat (map g ts)" if "x \<notin> set ts"
    using that by (induction ts) auto
  then show ?case using Cons by (cases "x = u") auto
qed simp

lemma of_tag_Cons: "of_tag t (c # cs) = (if tag_of c = t then [c] else []) @ of_tag t cs"
  by (simp add: of_tag_def)

lemma children_partition:
  "distinct ts \<Longrightarrow> tag_of ` set cs \<subseteq> set ts \<Longrightarrow> mset (concat (map (\<lambda>t. of_tag t cs) ts)) = mset cs"
proof (induction cs)
  case Nil
  have "concat (map (\<lambda>t. of_tag t []) ts) = []" by (simp add: of_tag_def)
  then show ?case by simp
next
  case (Cons c cs)
  then show ?case by (simp add: of_tag_Cons concat_one_tag)
qed

text \<open>
  C17: the table by tag has one row for each tag, in the order in which the tags first
  occur; a row has the channels of its tag as children, so that every channel is in
  exactly one row, it is enabled when one of them is, and its quota is their sum.
\<close>

theorem aggregate_by_tag:
  "aggregateChannelsByTag cs = map (\<lambda>t. tag_row t (of_tag t cs)) (array_from_set (map tag_of cs)) \<and>
   map tr_children (aggregateChannelsByTag cs) = map (\<lambda>t. of_tag t cs) (array_from_set (map tag_of cs)) \<and>
   mset (concat (map tr_children (aggregateChannelsByTag cs))) = mset cs \<and>
   list_all (\<lambda>r. (ch_status r = Some (Fin 1)) = list_ex isChannelEnabled (tr_children r) \<and>
       ch_used_quota r = foldl num_add (Fin 0) (map ch_used_quota (tr_children r)))
     (aggregateChannelsByTag cs)"
proof (intro conjI)
  show r: "aggregateChannelsByTag cs = map (\<lambda>t. tag_row t (of_tag t cs)) (array_from_set (map tag_of cs))"
    by (rule aggregate_rows)
  show c: "map tr_children (aggregateChannelsByTag cs) = map (\<lambda>t. of_tag t cs) (array_from_set (map tag_of cs))"
    unfolding r by (simp add: tag_row_children)
  show "mset (concat (map tr_children (aggregateChannelsByTag cs))) = mset cs"
    unfolding c by (rule children_partition) simp_all
  have q: "ch_used_quota (tag_row t ds) = foldl num_add (Fin 0) (map ch_used_quota ds)" for t ds
    by (simp add: tag_row_def row_quota new_tag_row_def Channel.defs)
  show "list_all (\<lambda>r. (ch_status r = Some (Fin 1)) = list_ex isChannelEnabled (tr_children r) \<and>
      ch_used_quota r = foldl num_add (Fin 0) (map ch_used_quota (tr_children r)))
    (aggregateChannelsByTag cs)"
    unfolding r by (simp add: list_all_iff list_ex_iff tag_row_children tag_row_enabled q)
qed

text \<open>
  The priority of a row is the one that its channels share, as long as none of them
  has the priority \<open>-1\<close>; a channel with that priority is overlooked.
\<close>

lemma row_priority: "ch_priority (foldl add_to_row row cs) = foldl same_or_null (ch_priority row) (map ch_priority cs)"
  by (induction cs arbitrary: row) (simp_all add: add_to_row_def Let_def)

lemma same_or_null_None: "foldl same_or_null None vs = None"
  by (induction vs) (auto simp: same_or_null_def)

lemma same_or_null_all:
  "cur \<noteq> Some (Fin (- 1)) \<Longrightarrow> foldl same_or_null cur vs = (if \<forall>v \<in> set vs. v = cur then cur else None)"
  by (induction vs) (auto simp: same_or_null_def same_or_null_None)

lemma tag_row_priority:
  assumes "ch_priority c \<noteq> Some (Fin (- 1))"
  shows "ch_priority (tag_row t (c # cs)) =
    (if \<forall>d \<in> set cs. ch_priority d = ch_priority c then ch_priority c else None)"
proof -
  have "ch_priority (tag_row t (c # cs)) = foldl same_or_null (ch_priority c) (map ch_priority cs)"
    by (simp add: tag_row_def row_priority new_tag_row_def Channel.defs) (simp add: add_to_row_def same_or_null_def Let_def)
  then show ?thesis using same_or_null_all [OF assms, of "map ch_priority cs"] by auto
qed

lemma priority_overlooked:
  assumes "ch_priority c = Some (Fin (- 1))"
  shows "ch_priority (tag_row t [c, d]) = ch_priority d"
  using assms by (simp add: tag_row_def new_tag_row_def Channel.defs add_to_row_def Let_def same_or_null_def)

text \<open>A group that occurs twice in one channel is added twice.\<close>

lemma group_added_twice: "merge_groups (js ''a'') (js ''b,b'') = js ''a,b,b''"
  by code_simp

subsection \<open>Keys\<close>

text \<open>
  C40: a key of at most eight units is not masked: among the keys of its length no other
  one is displayed in the same way.
\<close>

theorem short_key_revealed:
  assumes "length key \<le> 8" and "length other = length key"
  shows "formatChannelKey other False = formatChannelKey key False \<longleftrightarrow> other = key"
proof
  assume e: "formatChannelKey other False = formatChannelKey key False"
  let ?n = "length key"
  show "other = key"
  proof (cases "key = []")
    case True
    then show ?thesis using assms(2) by simp
  next
    case False
    then have "other \<noteq> []" using assms(2) by auto
    then have t: "take 4 other = take 4 key \<and> drop (?n - 4) other = drop (?n - 4) key"
      using e False assms by (simp add: formatChannelKey_def slice_last_def)
    have "drop 4 xs = drop (4 - (?n - 4)) (drop (?n - 4) xs)" for xs :: jstring
      using assms(1) by simp
    then have "drop 4 other = drop 4 key" using t by metis
    then show ?thesis using t by (metis append_take_drop_id)
  qed
qed simp

theorem short_key_revealed_witness:
  "formatChannelKey (js ''sk-12345'') False = js ''sk-1...2345'' \<and>
   formatChannelKey (js ''sk-12945'') False \<noteq> formatChannelKey (js ''sk-12345'') False"
  using short_key_revealed [of "js ''sk-12345''" "js ''sk-12945''"]
  by (simp add: formatChannelKey_def slice_last_def js_simps)

text \<open>Longer keys are displayed with as many units left out as there are beyond 8 or 16.\<close>

lemma key_hidden:
  assumes "8 < length key"
  shows "\<exists>a b c. key = a @ b @ c \<and> b \<noteq> [] \<and> formatChannelKey key False = a @ js ''...'' @ c \<and>
    length b = length key - (if length key \<le> 16 then 8 else 16)"
proof -
  define k :: nat where "k = (if length key \<le> 16 then 4 else 8)"
  define m where "m = length key - 2 * k"
  have "m + k = length key - k" using assms by (simp add: m_def k_def)
  then have "drop m (drop k key) = slice_last k key" by (simp add: slice_last_def)
  then have "key = take k key @ take m (drop k key) @ slice_last k key"
    by (metis append_take_drop_id)
  moreover have "formatChannelKey key False = take k key @ js ''...'' @ slice_last k key"
    using assms by (auto simp: formatChannelKey_def k_def)
  moreover have l: "length (take m (drop k key)) = length key - (if length key \<le> 16 then 8 else 16)"
    by (simp add: m_def k_def)
  moreover have "0 < length (take m (drop k key))" unfolding l using assms by simp
  then have "take m (drop k key) \<noteq> []" by blast
  ultimately show ?thesis by blast
qed

lemma dedup_lines:
  "foldl dedup_line (s, s) ls = (let d = foldl set_add s (filter nonempty (map trim ls)) in (d, d))"
  by (induction ls arbitrary: s) (auto simp: dedup_line_def set_add_def Let_def)

lemma dedup_keys: "snd (foldl dedup_line ([], []) ls) = array_from_set (filter nonempty (map trim ls))"
  using dedup_lines [of "[]" ls] by (simp add: array_from_set_def Let_def)

text \<open>Deduplication keeps the set of keys, and counts what it removes.\<close>

lemma deduplicate_counts:
  "dd_removedCount (deduplicateKeys t) = dd_beforeCount (deduplicateKeys t) - dd_afterCount (deduplicateKeys t)"
  "0 \<le> dd_removedCount (deduplicateKeys t)"
proof -
  show "dd_removedCount (deduplicateKeys t) = dd_beforeCount (deduplicateKeys t) - dd_afterCount (deduplicateKeys t)"
    by (simp add: deduplicateKeys_def Let_def)
  have "length (array_from_set xs) \<le> length xs" for xs :: "jstring list"
    by (metis card_length distinct_array_from_set distinct_card set_array_from_set)
  then have "length (array_from_set (filter nonempty (map trim ls))) \<le> length ls" for ls
    by (metis length_filter_le length_map order_trans)
  then show "0 \<le> dd_removedCount (deduplicateKeys t)"
    by (simp add: deduplicateKeys_def Let_def dedup_keys)
qed

subsection \<open>Tables and checks\<close>

lemma attention_has_reason: "channelNeedsAttention c \<longleftrightarrow> getAttentionReason c \<noteq> None"
  by (simp add: channelNeedsAttention_def getAttentionReason_def)

definition listed :: "nat list \<Rightarrow> (nat \<times> jstring) list" where
  "listed ids = concat (map (\<lambda>i. case map_of CHANNEL_TYPES i of
     Some l \<Rightarrow> if l \<noteq> [] then [(i, l)] else [] | None \<Rightarrow> []) ids)"

lemma options_ordered:
  "foldl (\<lambda>(ordered, seen) i.
        case map_of CHANNEL_TYPES i of
          Some label \<Rightarrow> if label \<noteq> [] then (ordered @ [(i, label)], set_add seen i) else (ordered, seen)
        | None \<Rightarrow> (ordered, seen)) (o', s) ids =
     (o' @ listed ids, foldl set_add s (map fst (listed ids)))"
  by (induction ids arbitrary: o' s) (auto simp: listed_def split: option.split)

lemma options_rest:
  "foldl (\<lambda>ordered (i, label). if P i then ordered @ [(i, label)] else ordered) o' tbl =
     o' @ filter (\<lambda>(i, _). P i) tbl"
  by (induction tbl arbitrary: o') auto

lemma options_eq:
  "CHANNEL_TYPE_OPTIONS =
     listed CHANNEL_TYPE_DISPLAY_ORDER @
     filter (\<lambda>(i, _). i \<noteq> 0 \<and> i \<notin> set (map fst (listed CHANNEL_TYPE_DISPLAY_ORDER))) CHANNEL_TYPES"
  by (simp add: CHANNEL_TYPE_OPTIONS_def options_ordered options_rest jset.from_set)

lemma listed_Cons: "listed (i # ids) = (case map_of CHANNEL_TYPES i of
     Some l \<Rightarrow> if l \<noteq> [] then [(i, l)] else [] | None \<Rightarrow> []) @ listed ids"
  by (simp add: listed_def)

lemma listed_elem: "(i, l) \<in> set (listed ids) \<Longrightarrow> i \<in> set ids \<and> map_of CHANNEL_TYPES i = Some l"
  by (induction ids) (auto simp: listed_Cons listed_def [of "[]"] split: option.splits if_splits)

lemma listed_distinct: "distinct ids \<Longrightarrow> distinct (map fst (listed ids))"
  by (induction ids) (auto simp: listed_Cons listed_def [of "[]"] dest: listed_elem split: option.split)

lemma types_distinct: "distinct (map fst CHANNEL_TYPES)"
  by (simp add: CHANNEL_TYPES_def)

lemma order_distinct: "distinct CHANNEL_TYPE_DISPLAY_ORDER" "0 \<notin> set CHANNEL_TYPE_DISPLAY_ORDER"
  by (simp_all add: CHANNEL_TYPE_DISPLAY_ORDER_def)

text \<open>Every known type but \<open>Unknown\<close> is offered exactly once, with its label.\<close>

lemma type_options:
  "distinct (map fst CHANNEL_TYPE_OPTIONS)"
  "(i, l) \<in> set CHANNEL_TYPE_OPTIONS \<longleftrightarrow> i \<noteq> 0 \<and> map_of CHANNEL_TYPES i = Some l"
proof -
  let ?L = "listed CHANNEL_TYPE_DISPLAY_ORDER"
  let ?P = "\<lambda>(i, _). i \<noteq> 0 \<and> i \<notin> set (map fst ?L)"
  have "distinct (map fst (filter ?P CHANNEL_TYPES))"
    using types_distinct by (rule distinct_map_filter)
  moreover have "set (map fst ?L) \<inter> set (map fst (filter ?P CHANNEL_TYPES)) = {}" by force
  ultimately show "distinct (map fst CHANNEL_TYPE_OPTIONS)"
    using listed_distinct [OF order_distinct(1)] unfolding options_eq map_append distinct_append by blast
  have m: "map_of CHANNEL_TYPES i = Some l \<longleftrightarrow> (i, l) \<in> set CHANNEL_TYPES"
    using types_distinct by (simp add: map_of_eq_Some_iff)
  have "(i, l) \<in> set ?L \<longleftrightarrow> i \<in> set (map fst ?L) \<and> map_of CHANNEL_TYPES i = Some l"
    using listed_elem [of i _ CHANNEL_TYPE_DISPLAY_ORDER] by force
  moreover have "0 \<notin> set (map fst ?L)"
    using listed_elem [of 0 _ CHANNEL_TYPE_DISPLAY_ORDER] order_distinct(2) by force
  ultimately show "(i, l) \<in> set CHANNEL_TYPE_OPTIONS \<longleftrightarrow> i \<noteq> 0 \<and> map_of CHANNEL_TYPES i = Some l"
    unfolding options_eq m set_append Un_iff set_filter mem_Collect_eq prod.case by metis
qed

text \<open>The groups of a list are kept, and \<open>default\<close> comes first.\<close>

lemma groups_kept: "mset (parseGroupsList collate g) = mset (parseModelsList g)"
  by (simp add: parseGroupsList_def parseModelsList_def)

lemma insert_default_hd: "insert_by (group_le collate) (js ''default'') xs = js ''default'' # xs"
  by (cases xs) (simp_all add: group_le_def)

lemma default_first: "js ''default'' \<in> set xs \<Longrightarrow> hd (sort_by (group_le collate) xs) = js ''default''"
proof (induction xs)
  case (Cons x xs)
  let ?s = "sort_by (group_le collate) xs"
  have s: "sort_by (group_le collate) (x # xs) = insert_by (group_le collate) x ?s" by (simp add: sort_by_def)
  show ?case
  proof (cases "x = js ''default''")
    case True
    then show ?thesis unfolding s by (simp add: insert_default_hd)
  next
    case False
    then have "js ''default'' \<in> set xs" using Cons.prems by simp
    then have h: "hd ?s = js ''default''" and "?s \<noteq> []" using Cons.IH by (auto dest: arg_cong [of _ _ set])
    then obtain ys where "?s = js ''default'' # ys" by (cases ?s) auto
    then show ?thesis unfolding s using False by (simp add: group_le_def)
  qed
qed simp

lemma groups_default_first:
  "js ''default'' \<in> set (parseGroupsList collate g) \<Longrightarrow> hd (parseGroupsList collate g) = js ''default''"
  by (auto simp: parseGroupsList_def default_first split: if_splits)

end
