(* ===== verification/AuthRedirect.thy ===== *)
theory AuthRedirect
  imports JS_Number
begin

text \<open>
  Where the console goes after a login: \<open>features/auth/lib/redirect.ts\<close>.  The parser of
  addresses of the browser, \<open>new URL(text, base)\<close>, is the argument \<open>parse\<close>, with \<open>None\<close>
  for a text that it rejects, and \<open>origin\<close> is the origin of the page.
\<close>

record Url =
  url_origin :: jstring
  url_pathname :: jstring
  url_search :: jstring
  url_hash :: jstring

type_synonym url_parser = "jstring \<Rightarrow> jstring \<Rightarrow> Url option"

definition ROLE_USER :: jnum where
  "ROLE_USER = Fin 1"

definition ROLE_ADMIN :: jnum where
  "ROLE_ADMIN = Fin 10"

definition DEFAULT_POST_LOGIN_REDIRECT :: jstring where
  "DEFAULT_POST_LOGIN_REDIRECT = js ''/dashboard''"

definition AUTH_PAGE_PREFIXES :: "jstring list" where
  "AUTH_PAGE_PREFIXES =
     [js ''/sign-in'', js ''/sign-up'', js ''/register'', js ''/forgot-password'', js ''/reset'', js ''/otp'',
      js ''/oauth'']"

definition ERROR_PAGE_PREFIXES :: "jstring list" where
  "ERROR_PAGE_PREFIXES = [js ''/401'', js ''/403'', js ''/404'', js ''/500'', js ''/503'']"

definition ADMIN_ONLY_PREFIXES :: "jstring list" where
  "ADMIN_ONLY_PREFIXES =
     [js ''/channels'', js ''/models'', js ''/redemption-codes'', js ''/subscriptions'',
      js ''/system-settings'', js ''/users'']"

definition ADMIN_ONLY_EXACT_PATHS :: "jstring list" where
  "ADMIN_ONLY_EXACT_PATHS = [js ''/dashboard/users'']"

definition hasPathPrefix :: "jstring \<Rightarrow> jstring \<Rightarrow> bool" where
  "hasPathPrefix pathname pre \<longleftrightarrow> pathname = pre \<or> starts_with pathname (pre @ js ''/'')"

definition normalizeRedirectTarget :: "url_parser \<Rightarrow> jstring \<Rightarrow> jstring option \<Rightarrow> jstring" where
  "normalizeRedirectTarget parse origin target =
     (let trimmed = map_option trim target
      in if \<not> truthy_opt trimmed then DEFAULT_POST_LOGIN_REDIRECT
         else case parse (opt_str trimmed) origin of
                None \<Rightarrow> DEFAULT_POST_LOGIN_REDIRECT
              | Some url \<Rightarrow>
                  if url_origin url \<noteq> origin then DEFAULT_POST_LOGIN_REDIRECT
                  else url_pathname url @ url_search url @ url_hash url)"

text \<open>\<open>role\<close> is \<open>user?.role\<close>.\<close>

definition shouldResetAfterLogin :: "jstring \<Rightarrow> jnum option \<Rightarrow> bool" where
  "shouldResetAfterLogin pathname role =
     (if list_ex (hasPathPrefix pathname) AUTH_PAGE_PREFIXES \<or>
         list_ex (hasPathPrefix pathname) ERROR_PAGE_PREFIXES
      then True
      else
        (let isAdmin = num_le ROLE_ADMIN (case role of Some r \<Rightarrow> r | None \<Rightarrow> ROLE_USER)
         in if isAdmin then False
            else pathname \<in> set ADMIN_ONLY_EXACT_PATHS \<or>
                 list_ex (hasPathPrefix pathname) ADMIN_ONLY_PREFIXES))"

definition getPostLoginRedirect ::
    "url_parser \<Rightarrow> jstring \<Rightarrow> jstring option \<Rightarrow> jnum option \<Rightarrow> jstring" where
  "getPostLoginRedirect parse origin target role =
     (let normalized = normalizeRedirectTarget parse origin target
      in case parse normalized (js ''http://localhost'') of
           None \<Rightarrow> DEFAULT_POST_LOGIN_REDIRECT
         | Some url \<Rightarrow>
             if shouldResetAfterLogin (url_pathname url) role then DEFAULT_POST_LOGIN_REDIRECT
             else normalized)"

subsection \<open>Properties\<close>

text \<open>
  A target is taken over only as the path of an address of this origin, and only when
  the path that the parser reads in it is allowed for the user.
\<close>

lemma redirect_local:
  assumes "getPostLoginRedirect parse origin target role = r" and "r \<noteq> DEFAULT_POST_LOGIN_REDIRECT"
  shows "\<exists>t u v. target = Some t \<and> parse (trim t) origin = Some u \<and> url_origin u = origin \<and>
    r = url_pathname u @ url_search u @ url_hash u \<and>
    parse r (js ''http://localhost'') = Some v \<and> \<not> shouldResetAfterLogin (url_pathname v) role"
  using assms by (auto simp: getPostLoginRedirect_def normalizeRedirectTarget_def Let_def truthy_opt_def
      split: option.splits if_splits)

text \<open>
  \<open>reparses parse\<close>: an absolute path that the parser gave out, with its query and
  fragment, is read again as the same path, unless it begins with two slashes and is
  read as a host.  So a user without the role lands on no page of administrators, if
  the path does not begin with two slashes.
\<close>

definition reparses :: "url_parser \<Rightarrow> bool" where
  "reparses parse \<longleftrightarrow>
     (\<forall>t b u. parse t b = Some u \<longrightarrow> \<not> starts_with (url_pathname u) (js ''//'') \<longrightarrow>
        (\<exists>v. parse (url_pathname u @ url_search u @ url_hash u) (js ''http://localhost'') = Some v \<and>
           url_pathname v = url_pathname u))"

lemma redirect_allowed:
  assumes "reparses parse" and "getPostLoginRedirect parse origin target role = r"
    and "r \<noteq> DEFAULT_POST_LOGIN_REDIRECT"
  shows "\<exists>u :: Url. r = url_pathname u @ url_search u @ url_hash u \<and> url_origin u = origin \<and>
    (starts_with (url_pathname u) (js ''//'') \<or> \<not> shouldResetAfterLogin (url_pathname u) role)"
proof -
  obtain t u v where u: "parse (trim t) origin = Some u" "url_origin u = origin"
      "r = url_pathname u @ url_search u @ url_hash u"
      "parse r (js ''http://localhost'') = Some v" "\<not> shouldResetAfterLogin (url_pathname v) role"
    using redirect_local [OF assms(2,3)] by blast
  have "url_pathname v = url_pathname u" if "\<not> starts_with (url_pathname u) (js ''//'')"
    using assms(1) u(1,3,4) that by (force simp: reparses_def)
  then have "starts_with (url_pathname u) (js ''//'') \<or> \<not> shouldResetAfterLogin (url_pathname u) role"
    using u(5) by auto
  with u(2,3) show ?thesis by blast
qed

text \<open>
  Such paths exist: removing the dot segment of \<open>/.//channels\<close> leaves the path \<open>//channels\<close>,
  which read again is the address of a host.  The target is returned as it is, although
  it is no path of this site.
\<close>

lemma double_slash_returned:
  assumes "parse (js ''/.//channels'') origin =
      Some \<lparr>url_origin = origin, url_pathname = js ''//channels'', url_search = [], url_hash = []\<rparr>"
    and "parse (js ''//channels'') (js ''http://localhost'') =
      Some \<lparr>url_origin = js ''http://channels'', url_pathname = js ''/'', url_search = [], url_hash = []\<rparr>"
  shows "getPostLoginRedirect parse origin (Some (js ''/.//channels'')) role = js ''//channels''"
proof -
  have "trim (js ''/.//channels'') = js ''/.//channels''" by code_simp
  moreover have "\<not> list_ex (hasPathPrefix (js ''/'')) (AUTH_PAGE_PREFIXES @ ERROR_PAGE_PREFIXES @ ADMIN_ONLY_PREFIXES)"
    by code_simp
  moreover have "js ''/'' \<notin> set ADMIN_ONLY_EXACT_PATHS" by code_simp
  ultimately show ?thesis
    using assms by (simp add: getPostLoginRedirect_def normalizeRedirectTarget_def shouldResetAfterLogin_def
        truthy_opt_def opt_str_def Let_def)
qed

text \<open>An administrator is never sent away from a page of administrators.\<close>

lemma admin_keeps_target:
  "num_le ROLE_ADMIN r \<Longrightarrow> shouldResetAfterLogin p (Some r) \<longleftrightarrow>
     list_ex (hasPathPrefix p) (AUTH_PAGE_PREFIXES @ ERROR_PAGE_PREFIXES)"
  by (simp add: shouldResetAfterLogin_def)

end
