(* ===== verification/Spec2Isabelle.thy ===== *)
theory Spec2Isabelle
  imports HttpStatusRules BillingRoundtrip PlaygroundSystem BillingExact NavigationLaws PricingLaws
    MappingLaws NotificationLaws ChannelLaws AuthRedirect
begin

text \<open>
  Verification of a gateway for language models: a Go server that relays requests to
  providers and charges for them (\<open>model\<close>, \<open>service\<close>, \<open>common\<close>), and its web console
  (\<open>web/default/src\<close>).  Three parts of the server and eleven of the console are modelled.

  \<^bold>\<open>The server.\<close>  A request opens a billing session, which reserves quota from the wallet
  of the user or from a subscription and from the token; when the answer is complete the
  session is settled for the quota that was used, and when the request fails it is paid back.

  \<^item> \<open>GatewayDb\<close>: the tables and the quota operations of \<open>model/user.go\<close>, \<open>token.go\<close>, \<open>channel.go\<close>
    and the batch updater of \<open>model/utils.go\<close>.  The state \<open>Db\<close> holds the tables, the pending amounts, the
    clock, and the outcomes of the coming database requests, so that every request of an
    operation can fail.  \<open>ledger\<close> is the abstract state, in which every operation takes
    effect at once; the operations refine it.
  \<^item> \<open>GoTime\<close>: 64-bit durations and time zones; the locale \<open>calendar\<close> states what is used of a
    zone and is interpreted for zones with a fixed offset.
  \<^item> \<open>Subscription\<close>, \<open>SubscriptionLaws\<close>: \<open>model/subscription.go\<close>.  Used amounts stay within the
    total over every sequence of operations and failures; an order gives one subscription
    however often it is confirmed; bringing a subscription up to date ends, and does not
    for a period that wraps to zero.  The locale \<open>db_invariant\<close> carries an invariant of the tables
    through requests and transactions.
  \<^item> \<open>BillingSession\<close>: \<open>service/billing_session.go\<close>, \<open>funding_source.go\<close>, \<open>billing.go\<close>, \<open>pre_consume_quota.go\<close> and
    the quota operations of \<open>quota.go\<close>, one definition per method.
  \<^item> \<open>BillingLaws\<close>: the contract of a funding source, the locale \<open>funding_source\<close>, with the laws of
    reserving, settling and paying back proved in it once and interpreted for the
    wallet (\<open>wl\<close>) and the subscription (\<open>sb\<close>).
  \<^item> \<open>BillingExact\<close>: opening a session under every preference, and the properties of a whole
    request: it costs exactly what it used, a failed or refused one is free, a request
    id is charged once, and a refund can be paid twice when a request to the database fails
    at one point.

  \<^bold>\<open>The console.\<close>  \<open>JS_Strings\<close>, \<open>JS_Number\<close>, \<open>JS_Json\<close>, \<open>JS_Regex\<close>, \<open>JS_Storage\<close> and \<open>JS_Object\<close> model what
    the sources use of the language: strings as UTF-16 units, binary64 numbers, JSON,
    regular expressions, storage that may refuse a write, and objects of unknown shape.

  \<^item> \<open>HttpStatusRules\<close>: \<open>lib/http-status-code-rules.ts\<close>; accepted rules are in normal form, select
    the codes of their text, and are read back from it.
  \<^item> \<open>BillingExpr\<close>, \<open>BillingRules\<close>, \<open>BillingRoundtrip\<close>: \<open>features/pricing/lib/billing-expr.ts\<close>; rules that are
    written are read back, with the exception that is proved.
  \<^item> \<open>PlaygroundMessages\<close>, \<open>PlaygroundConfig\<close>, \<open>PlaygroundStream\<close>, \<open>PlaygroundPage\<close>: \<open>features/playground\<close>;
    messages and thinking tags, settings and payload, the stream and chat hooks, and
    the page with its stored conversations.
  \<^item> \<open>PlaygroundSystem\<close>: the page as a step relation over user actions, stream events and storage
    effects, with its invariant and the races that it allows.
  \<^item> \<open>Navigation\<close>, \<open>NavigationLaws\<close>: \<open>lib/nav-modules.ts\<close>, \<open>hooks/use-sidebar-config.ts\<close>,
    \<open>hooks/use-sidebar-data.ts\<close> and \<open>components/layout/lib/url-utils.ts\<close>; the sidebar shows exactly the
    entries that the settings of the administrator and of the user allow, and the guards
    of routes agree with it; one entry is shown that its guard refuses.
  \<^item> \<open>PricingFilters\<close>, \<open>PricingLaws\<close>: \<open>features/pricing/lib/filters.ts\<close>; the chain of filters equals one
    test of each model in the sorted list, where a difference of two prices never rounds
    to zero; the tags that are offered are those that find a model.
  \<^item> \<open>ModelMapping\<close>, \<open>MappingLaws\<close>: \<open>features/channels/lib/model-mapping-validation.ts\<close> and
    \<open>status-code-risk-guard.ts\<close>; proposed repairs leave nothing to repair, and exactly the new
    rewritings of protected status codes are reported.
  \<^item> \<open>Notifications\<close>, \<open>NotificationLaws\<close>: \<open>hooks/use-notifications.ts\<close> and \<open>stores/notification-store.ts\<close> as
    runs of events; the dialog opens by itself at most once, and what was read stays read.
  \<^item> \<open>Channels\<close>, \<open>ChannelLaws\<close>: \<open>features/channels/lib/channel-utils.ts\<close> with its schema and tables; the
    rows by tag partition the channels and summarise them; short keys are not masked.
  \<^item> \<open>AuthRedirect\<close>: \<open>features/auth/lib/redirect.ts\<close>; a target is taken over only as a path of this origin that
    the user may see, except for paths with two slashes.

  \<^bold>\<open>Bounds and fuel.\<close>  Only the loop of \<open>maybeResetUserSubscriptionWithPlanTx\<close> has fuel, the present time in
  seconds plus two: each round moves forward by at least a second, and \<open>reset_terminates\<close>
  shows that the fuel is enough.  Quota is an unbounded integer; durations wrap at 64 bits.

  \<^bold>\<open>Assumptions.\<close>  A database request is one step that fails with no effect or takes effect; a
  transaction undoes its changes when its body or its commit fails.  What a cache answers
  is an argument, and so are \<open>toLowerCase\<close> and \<open>localeCompare\<close>, of which the sorting by name assumes
  only that it is a consistent comparison.  The exact charges are stated for requests to the database that succeed,
  positive and unique keys of subscriptions, a request id that is new and a user that
  exists (\<open>can_open\<close>); other requests of the same user do not run in between.  The bounds of
  subscriptions and the uniqueness of orders hold for every outcome of requests.  The
  goroutine that pays back runs at once.

  \<^bold>\<open>Not modelled.\<close>  Relaying and its providers, HTTP handlers and middleware, and prices, which
  turn tokens into quota with floating-point ratios; the purchase of a subscription from
  the balance; accounts, channels, payments and logs on the server; mails to users; the
  upkeep of caches; the rendering of the console, its forms and its calls of the server,
  formats of currencies and dates, and the older console.
\<close>

end
